(* ===== verification/Go_Prelude.thy ===== *)
theory Go_Prelude
  imports Main "HOL-Library.Word"
begin

text \<open>
  The Go constructs every component of the model shares.

  A Go call can return a value, return an error value, or panic; \<open>outcome\<close> has one
  constructor for each. \<open>chain\<close> is the pattern "call, and return early unless it succeeded"
  (\<open>if err != nil { return err }\<close>). A call that also changes state returns a pair of its
  outcome and the state it leaves, so that the state after an error or a panic is part of the
  model (\<open>chain_st\<close>).

  A Go \<open>int\<close> is 64 bits wide: positions and lengths are mathematical integers, and every sum
  that can pass the width goes through \<open>int64\<close>, which wraps as the machine does.
  Byte slices are lists of 8-bit words; reading, writing or slicing out of range panics.
\<close>

unbundle bit_operations_syntax

section \<open>Outcomes of calls\<close>

datatype ('e, 'a) outcome = Ok 'a | Err 'e | Panic string

named_theorems outcome_simps \<open>unfolding of early returns\<close>

primrec chain :: "('e, 'a) outcome \<Rightarrow> ('a \<Rightarrow> ('e, 'b) outcome) \<Rightarrow> ('e, 'b) outcome" where
  "chain (Ok a) f = f a"
| "chain (Err e) f = Err e"
| "chain (Panic p) f = Panic p"

primrec is_ok :: "('e, 'a) outcome \<Rightarrow> bool" where
  "is_ok (Ok a) = True"
| "is_ok (Err e) = False"
| "is_ok (Panic p) = False"

primrec is_panic :: "('e, 'a) outcome \<Rightarrow> bool" where
  "is_panic (Ok a) = False"
| "is_panic (Err e) = False"
| "is_panic (Panic p) = True"

fun chain_st ::
  "('e, 'a) outcome \<times> 's \<Rightarrow> ('a \<Rightarrow> 's \<Rightarrow> ('e, 'b) outcome \<times> 's) \<Rightarrow> ('e, 'b) outcome \<times> 's" where
  "chain_st (Ok a, s) f = f a s"
| "chain_st (Err e, s) f = (Err e, s)"
| "chain_st (Panic p, s) f = (Panic p, s)"

lemma chain_eq_Ok [outcome_simps]: "chain m f = Ok b \<longleftrightarrow> (\<exists>a. m = Ok a \<and> f a = Ok b)"
  by (cases m) auto

lemma chain_cong [fundef_cong]:
  "m = m' \<Longrightarrow> (\<And>a. m' = Ok a \<Longrightarrow> f a = g a) \<Longrightarrow> chain m f = chain m' g"
  by (cases m') auto

lemma chain_assoc: "chain (chain m f) g = chain m (\<lambda>a. chain (f a) g)"
  by (cases m) auto

lemma is_panic_chain [outcome_simps]:
  "is_panic (chain m f) \<longleftrightarrow> is_panic m \<or> (\<exists>a. m = Ok a \<and> is_panic (f a))"
  by (cases m) auto

lemma chain_st_Ok_iff [outcome_simps]:
  "chain_st r f = (Ok b, t) \<longleftrightarrow> (\<exists>a s. r = (Ok a, s) \<and> f a s = (Ok b, t))"
  by (cases r; cases "fst r") auto

lemma is_ok_iff: "is_ok m \<longleftrightarrow> (\<exists>a. m = Ok a)"
  by (cases m) auto

lemma is_panic_iff: "is_panic m \<longleftrightarrow> (\<exists>p. m = Panic p)"
  by (cases m) auto

section \<open>Machine integers\<close>

type_synonym byte = "8 word"
type_synonym bytes = "byte list"
type_synonym u64 = "64 word"

text \<open>\<open>int64 x\<close> is the value of a Go \<open>int\<close> that a computation with exact result \<open>x\<close> leaves.\<close>

definition int64 :: "int \<Rightarrow> int" where
  "int64 x = signed_take_bit 63 x"

lemma int64_id: "- (2 ^ 63) \<le> x \<Longrightarrow> x < 2 ^ 63 \<Longrightarrow> int64 x = x"
  unfolding int64_def by (rule signed_take_bit_int_eq_self) auto

lemma int64_range: "- (2 ^ 63) \<le> int64 x" "int64 x < 2 ^ 63"
  unfolding int64_def
  by (rule signed_take_bit_int_greater_eq_minus_exp, rule signed_take_bit_int_less_exp)

lemma int64_overflow: "2 ^ 63 \<le> x \<Longrightarrow> x < 2 ^ 64 \<Longrightarrow> int64 x = x - 2 ^ 64"
proof -
  assume a: "2 ^ 63 \<le> x" and b: "x < 2 ^ 64"
  have "(x + 2 ^ 63) mod 2 ^ 64 = (x + 2 ^ 63 - 2 ^ 64) mod 2 ^ 64"
    by (metis minus_mod_self2)
  also have "\<dots> = x + 2 ^ 63 - 2 ^ 64"
    using a b by (intro mod_pos_pos_trivial) auto
  finally show ?thesis
    by (simp add: int64_def signed_take_bit_eq_take_bit_shift take_bit_eq_mod)
qed

text \<open>
  A sum of two non-negative \<open>int\<close> values either fits or turns negative: the reason why the
  generated decoders test \<open>postIndex < 0\<close> after an addition.
\<close>

lemma int64_add_cases:
  assumes "0 \<le> a" "a < 2 ^ 63" "0 \<le> b" "b < 2 ^ 63"
  shows "int64 (a + b) = a + b \<and> a + b < 2 ^ 63 \<or> int64 (a + b) < 0 \<and> 2 ^ 63 \<le> a + b"
proof (cases "a + b < 2 ^ 63")
  case True
  with assms show ?thesis by (simp add: int64_id)
next
  case False
  with assms show ?thesis by (simp add: int64_overflow)
qed

lemma int64_add_nonneg:
  assumes "0 \<le> a" "a < 2 ^ 63" "0 \<le> b" "b < 2 ^ 63" "\<not> int64 (a + b) < 0"
  shows "int64 (a + b) = a + b"
  using int64_add_cases [OF assms(1-4)] assms(5) by auto

section \<open>Byte slices\<close>

text \<open>Go's \<open>len\<close> is an \<open>int\<close>; on every slice that fits in memory it is the length.\<close>

definition go_len :: "'a list \<Rightarrow> int" where
  "go_len xs = int64 (int (length xs))"

definition fits :: "'a list \<Rightarrow> bool" where
  "fits xs \<longleftrightarrow> length xs < 2 ^ 63"

lemma go_len_fits: "fits xs \<Longrightarrow> go_len xs = int (length xs)"
proof -
  assume "fits xs"
  then have "int (length xs) < int (2 ^ 63)"
    unfolding fits_def by (simp only: of_nat_less_iff)
  then show ?thesis by (simp add: go_len_def int64_id)
qed

lemma go_len_less: "go_len xs < 2 ^ 63"
  unfolding go_len_def by (rule int64_range)

lemma go_len_le: "go_len xs \<le> int (length xs)"
proof (cases "fits xs")
  case True
  then show ?thesis by (simp add: go_len_fits)
next
  case False
  then have "int (2 ^ 63) \<le> int (length xs)"
    unfolding fits_def by (simp only: of_nat_le_iff not_less)
  with go_len_less [of xs] show ?thesis by simp
qed

lemma fits_mono: "fits xs \<Longrightarrow> length ys \<le> length xs \<Longrightarrow> fits ys"
  by (simp add: fits_def)

definition index_panic :: string where "index_panic = ''index out of range''"
definition slice_panic :: string where "slice_panic = ''slice bounds out of range''"

definition get_at :: "'a list \<Rightarrow> int \<Rightarrow> ('e, 'a) outcome" where
  "get_at xs i = (if 0 \<le> i \<and> i < int (length xs) then Ok (xs ! nat i) else Panic index_panic)"

definition set_at :: "'a list \<Rightarrow> int \<Rightarrow> 'a \<Rightarrow> ('e, 'a list) outcome" where
  "set_at xs i x =
     (if 0 \<le> i \<and> i < int (length xs) then Ok (xs[nat i := x]) else Panic index_panic)"

lemma get_at_below_len: "0 \<le> i \<Longrightarrow> i < go_len xs \<Longrightarrow> get_at xs i = Ok (xs ! nat i)"
  using go_len_le [of xs] by (simp add: get_at_def)

text \<open>The slice expression \<open>xs[i:j]\<close>.\<close>

definition slice :: "'a list \<Rightarrow> int \<Rightarrow> int \<Rightarrow> ('e, 'a list) outcome" where
  "slice xs i j =
     (if 0 \<le> i \<and> i \<le> j \<and> j \<le> int (length xs)
      then Ok (take (nat j - nat i) (drop (nat i) xs)) else Panic slice_panic)"

lemma get_at_Ok [simp]: "0 \<le> i \<Longrightarrow> i < int (length xs) \<Longrightarrow> get_at xs i = Ok (xs ! nat i)"
  by (simp add: get_at_def)

lemma set_at_Ok [simp]: "0 \<le> i \<Longrightarrow> i < int (length xs) \<Longrightarrow> set_at xs i x = Ok (xs[nat i := x])"
  by (simp add: set_at_def)

lemma slice_Ok [simp]:
  "0 \<le> i \<Longrightarrow> i \<le> j \<Longrightarrow> j \<le> int (length xs) \<Longrightarrow>
     slice xs i j = Ok (take (nat j - nat i) (drop (nat i) xs))"
  by (simp add: slice_def)

lemma slice_to_end: "i \<le> length xs \<Longrightarrow> slice xs (int i) (int (length xs)) = Ok (drop i xs)"
  by simp

lemma take_Suc_update:
  "i < length d \<Longrightarrow> take i d @ x # drop (Suc i) d = d[i := x]"
  by (simp add: upd_conv_take_nth_drop)

lemma drop_append_exact: "n = length xs \<Longrightarrow> drop n (xs @ ys) = ys"
  by simp

lemma take_append_exact: "n = length xs \<Longrightarrow> take n (xs @ ys) = xs"
  by simp

section \<open>Go strings and bytes\<close>

text \<open>A Go string is its bytes; a HOL \<open>char\<close> is one byte.\<close>

definition bytes_of :: "string \<Rightarrow> bytes" where
  "bytes_of s = map (\<lambda>c. word_of_nat (of_char c)) s"

definition string_of :: "bytes \<Rightarrow> string" where
  "string_of b = map (\<lambda>w. char_of (unat w)) b"

lemma length_bytes_of [simp]: "length (bytes_of s) = length s"
  by (simp add: bytes_of_def)

lemma bytes_of_eq_Nil [simp]: "bytes_of s = [] \<longleftrightarrow> s = []"
  by (simp add: bytes_of_def)

lemma string_of_bytes_of [simp]: "string_of (bytes_of s) = s"
proof -
  have "of_char c < (256::nat)" for c
    by (rule nat_of_char_less_256)
  then have "char_of (unat (word_of_nat (of_char c) :: byte)) = c" for c
    by (simp add: unat_of_nat take_bit_eq_mod)
  then show ?thesis
    by (simp add: string_of_def bytes_of_def comp_def)
qed

end
