(* ===== verification/Wire_Varint.thy ===== *)
theory Wire_Varint
  imports Go_Prelude
begin

text \<open>
  The varint primitives that every generated codec file of x/pulsar/types holds a copy of
  (\<open>encodeVarint...\<close>, \<open>sov...\<close>, \<open>soz...\<close> and the inlined reading loop). The copies
  differ only in their names and in the error variables they return; \<open>pb_file\<close> says which
  file's copy runs. The lemmas give the exact bytes an encoder leaves in the buffer, the number of
  bytes, and that reading them back yields the number.
\<close>

section \<open>The generated files and their errors\<close>

datatype pb_file = TxPB | ParamsPB | GenesisPB | QueryPB | ModulePB

datatype wire_error =
    ErrIntOverflow pb_file
  | ErrInvalidLength pb_file
  | ErrUnexpectedEndOfGroup pb_file
  | ErrUnexpectedEOF
  | ErrEndGroup string
  | ErrIllegalTag string int u64
  | ErrWrongWireType int string
  | ErrIllegalWireType int

section \<open>Sizes\<close>

text \<open>\<open>math/bits.Len64\<close>: the number of bits needed to write \<open>x\<close>.\<close>

fun bit_len :: "nat \<Rightarrow> nat" where
  "bit_len n = (if n = 0 then 0 else Suc (bit_len (n div 2)))"

declare bit_len.simps [simp del]

definition Len64 :: "u64 \<Rightarrow> int" where
  "Len64 x = int (bit_len (unat x))"

definition sov :: "u64 \<Rightarrow> int" where
  "sov x = (Len64 (x OR 1) + 6) div 7"

text \<open>\<open>soz\<close> is the size of a zig-zag encoded signed number; \<open>int64(x) >> 63\<close> is arithmetic.\<close>

definition soz :: "u64 \<Rightarrow> int" where
  "soz x = sov (push_bit 1 x XOR signed_drop_bit 63 x)"

section \<open>Writing\<close>

lemma unat_drop_7: "unat (drop_bit 7 (v :: u64)) = unat v div 128"
  by (simp add: drop_bit_eq_div unat_div)

text \<open>The loop of \<open>encodeVarint\<close>: writes from \<open>offset\<close> upwards.\<close>

function encode_loop :: "bytes \<Rightarrow> int \<Rightarrow> u64 \<Rightarrow> (wire_error, bytes) outcome" where
  "encode_loop dAtA offset v =
     (if v \<ge> 128
      then chain (set_at dAtA offset (ucast (v AND 0x7F OR 0x80)))
             (\<lambda>dAtA'. encode_loop dAtA' (offset + 1) (drop_bit 7 v))
      else set_at dAtA offset (ucast v))"
  by pat_completeness auto
termination
proof (relation "measure (\<lambda>(d, i, v). unat v)")
  show "wf (measure (\<lambda>(d, i, v). unat v))" by simp
next
  fix d d' :: bytes and i :: int and v :: u64
  assume "128 \<le> v"
  then have "unat v \<ge> 128" by (simp add: word_le_nat_alt)
  then show "((d', i + 1, drop_bit 7 v), (d, i, v)) \<in> measure (\<lambda>(d, i, v). unat v)"
    by (simp add: unat_drop_7)
qed

declare encode_loop.simps [simp del]

definition encodeVarint :: "bytes \<Rightarrow> int \<Rightarrow> u64 \<Rightarrow> (wire_error, bytes \<times> int) outcome" where
  "encodeVarint dAtA offset v =
     (let base = int64 (offset - sov v)
      in chain (encode_loop dAtA base v) (\<lambda>dAtA'. Ok (dAtA', base)))"

text \<open>Every generated file has its own copy of the three functions.\<close>

definition sovParams :: "u64 \<Rightarrow> int" where "sovParams = sov"
definition sozParams :: "u64 \<Rightarrow> int" where "sozParams = soz"
definition encodeVarintParams :: "bytes \<Rightarrow> int \<Rightarrow> u64 \<Rightarrow> (wire_error, bytes \<times> int) outcome" where
  "encodeVarintParams = encodeVarint"
definition sovGenesis :: "u64 \<Rightarrow> int" where "sovGenesis = sov"
definition sozGenesis :: "u64 \<Rightarrow> int" where "sozGenesis = soz"
definition encodeVarintGenesis :: "bytes \<Rightarrow> int \<Rightarrow> u64 \<Rightarrow> (wire_error, bytes \<times> int) outcome" where
  "encodeVarintGenesis = encodeVarint"
definition sovQuery :: "u64 \<Rightarrow> int" where "sovQuery = sov"
definition sozQuery :: "u64 \<Rightarrow> int" where "sozQuery = soz"
definition encodeVarintQuery :: "bytes \<Rightarrow> int \<Rightarrow> u64 \<Rightarrow> (wire_error, bytes \<times> int) outcome" where
  "encodeVarintQuery = encodeVarint"
definition sovModule :: "u64 \<Rightarrow> int" where "sovModule = sov"
definition sozModule :: "u64 \<Rightarrow> int" where "sozModule = soz"
definition encodeVarintModule :: "bytes \<Rightarrow> int \<Rightarrow> u64 \<Rightarrow> (wire_error, bytes \<times> int) outcome" where
  "encodeVarintModule = encodeVarint"

text \<open>The reference encoding: seven bits a byte, least significant first, top bit "more".\<close>

fun varint_of :: "nat \<Rightarrow> bytes" where
  "varint_of n =
     (if n < 128 then [word_of_nat n]
      else word_of_nat (n mod 128 + 128) # varint_of (n div 128))"

declare varint_of.simps [simp del]

abbreviation varint :: "u64 \<Rightarrow> bytes" where
  "varint v \<equiv> varint_of (unat v)"

section \<open>Reading\<close>

text \<open>
  The reading loop, as it stands inlined in every \<open>Unmarshal\<close> and \<open>skip\<close>: it returns the
  accumulated 64 bits and the position after the last byte. \<open>iNdEx++\<close> cannot wrap: it is
  guarded by \<open>iNdEx < l\<close>, and \<open>l\<close> is an \<open>int\<close>.
\<close>

function read_varint :: "pb_file \<Rightarrow> bytes \<Rightarrow> nat \<Rightarrow> int \<Rightarrow> u64 \<Rightarrow> (wire_error, u64 \<times> int) outcome" where
  "read_varint f dAtA shift iNdEx acc =
     (if shift \<ge> 64 then Err (ErrIntOverflow f)
      else if iNdEx \<ge> go_len dAtA then Err ErrUnexpectedEOF
      else chain (get_at dAtA iNdEx)
        (\<lambda>b. let acc' = acc OR push_bit shift (ucast (b AND 0x7F)); i' = iNdEx + 1
             in if b < 0x80 then Ok (acc', i') else read_varint f dAtA (shift + 7) i' acc'))"
  by pat_completeness auto
termination
  by (relation "measure (\<lambda>(f, d, shift, i, acc). 64 - shift)") auto

declare read_varint.simps [simp del]

abbreviation readVarint :: "pb_file \<Rightarrow> bytes \<Rightarrow> int \<Rightarrow> (wire_error, u64 \<times> int) outcome" where
  "readVarint f dAtA i \<equiv> read_varint f dAtA 0 i 0"

text \<open>
  The loop of \<open>skip\<close> for wire type 0 passes over a varint without keeping its value.
\<close>

function pass_varint :: "pb_file \<Rightarrow> bytes \<Rightarrow> nat \<Rightarrow> int \<Rightarrow> (wire_error, int) outcome" where
  "pass_varint f dAtA shift iNdEx =
     (if shift \<ge> 64 then Err (ErrIntOverflow f)
      else if iNdEx \<ge> go_len dAtA then Err ErrUnexpectedEOF
      else chain (get_at dAtA iNdEx)
        (\<lambda>b. if b < 0x80 then Ok (iNdEx + 1) else pass_varint f dAtA (shift + 7) (iNdEx + 1)))"
  by pat_completeness auto
termination
  by (relation "measure (\<lambda>(f, d, shift, i). 64 - shift)") auto

declare pass_varint.simps [simp del]

section \<open>How many bytes a varint takes\<close>

lemma bit_len_pos: "0 < n \<Longrightarrow> bit_len n = Suc (bit_len (n div 2))"
  by (subst bit_len.simps) simp

lemma bit_len_0 [simp]: "bit_len 0 = 0"
  by (subst bit_len.simps) simp

lemma or_1_div_2: "((n::nat) OR Suc 0) div 2 = n div 2"
  by (simp add: or_Suc_0_eq)

lemma bit_len_or_1: "bit_len (n OR 1) = (if n = 0 then 1 else bit_len n)"
proof (cases "n = 0")
  case True
  then show ?thesis by (simp add: bit_len_pos)
next
  case False
  moreover have "n OR 1 \<noteq> 0" using False by (simp add: or_Suc_0_eq)
  ultimately show ?thesis by (simp add: bit_len_pos or_1_div_2)
qed

lemma bit_len_le_iff: "bit_len n \<le> k \<longleftrightarrow> n < 2 ^ k"
proof (induction k arbitrary: n)
  case 0
  then show ?case by (cases "n = 0") (auto simp: bit_len_pos)
next
  case (Suc k)
  show ?case
    by (cases "n = 0") (auto simp: bit_len_pos Suc)
qed

lemma bit_len_or_1_range:
  assumes "n < 2 ^ k" "0 < k"
  shows "1 \<le> bit_len (n OR 1)" "bit_len (n OR 1) \<le> k"
proof -
  have "bit_len n \<le> k" using assms(1) by (simp only: bit_len_le_iff)
  with assms(2) show "bit_len (n OR 1) \<le> k" by (simp only: bit_len_or_1) simp
  show "1 \<le> bit_len (n OR 1)" by (simp only: bit_len_or_1) (simp add: bit_len_pos)
qed

lemma bit_len_shift_7: "128 \<le> n \<Longrightarrow> bit_len n = 7 + bit_len (n div 128)"
  by (simp add: bit_len_pos flip: div_mult2_eq)

lemma varint_of_small: "n < 128 \<Longrightarrow> varint_of n = [word_of_nat n]"
  by (subst varint_of.simps) simp

lemma varint_of_big:
  "128 \<le> n \<Longrightarrow> varint_of n = word_of_nat (n mod 128 + 128) # varint_of (n div 128)"
  by (subst varint_of.simps) simp

lemma length_varint_of: "length (varint_of n) = (bit_len (n OR 1) + 6) div 7"
proof (induction n rule: varint_of.induct)
  case (1 n)
  show ?case
  proof (cases "n < 128")
    case True
    then have "bit_len (n OR 1) \<le> 7" "1 \<le> bit_len (n OR 1)"
      using bit_len_or_1_range [of n 7] by simp_all
    with True show ?thesis by (simp add: varint_of_small)
  next
    case False
    then have "bit_len (n OR 1) = 7 + bit_len (n div 128 OR 1)"
      by (simp only: bit_len_or_1) (simp add: bit_len_shift_7 not_less div_eq_0_iff)
    with False "1.IH" show ?thesis by (simp add: varint_of_big)
  qed
qed

lemma unat_or_1: "unat (v OR 1 :: u64) = unat v OR 1"
  by (simp add: unsigned_or_eq)

lemma sov_length: "sov v = int (length (varint v))"
  by (simp add: sov_def Len64_def length_varint_of unat_or_1 zdiv_int)

lemma sov_range: "1 \<le> sov v" "sov v \<le> 10"
proof -
  have "unat v < 2 ^ 64" using unsigned_less [of v, where 'a = nat] by simp
  then have "bit_len (unat v OR 1) \<le> 64" "1 \<le> bit_len (unat v OR 1)"
    using bit_len_or_1_range [of "unat v" 64] by simp_all
  then show "1 \<le> sov v" "sov v \<le> 10"
    by (auto simp: sov_def Len64_def unat_or_1)
qed

section \<open>Writing a varint\<close>

lemma mod_128_or_128: "n mod 128 OR 128 = n mod 128 + (128 :: nat)"
proof -
  have "int (n mod 128) OR 128 = int (n mod 128) + 128"
    using concat_bit_eq [of 7 "int n" 1] by (simp add: concat_bit_def take_bit_eq_mod zmod_int)
  then have "int (n mod 128 OR 128) = int (n mod 128 + 128)"
    by (simp add: of_nat_or_eq)
  then show ?thesis by (simp only: of_nat_eq_iff)
qed

lemma and_127: "n AND 127 = n mod (128 :: nat)"
  using and_exp_eq_0_iff_not_bit take_bit_eq_mask [of 7 n]
  by (simp add: take_bit_eq_mod mask_eq_exp_minus_1)

lemma unat_low_7: "unat ((v :: u64) AND 0x7F) = unat v mod 128"
  by (simp add: unsigned_and_eq and_127)

lemma low_byte: "ucast ((v :: u64) AND 0x7F OR 0x80) = (word_of_nat (unat v mod 128 + 128) :: byte)"
proof -
  have "unat (v AND 0x7F OR 0x80) = unat v mod 128 + 128"
    by (simp only: unsigned_or_eq unat_low_7) (simp add: mod_128_or_128)
  then show ?thesis by (metis of_nat_unat)
qed

lemma encode_loop_eq:
  "i + length (varint v) \<le> length d \<Longrightarrow>
   (encode_loop d (int i) v :: (wire_error, bytes) outcome) =
     Ok (take i d @ varint v @ drop (i + length (varint v)) d)"
proof (induction v arbitrary: d i rule: measure_induct_rule [where f = unat])
  case (less v)
  show ?case
  proof (cases "v \<ge> 128")
    case False
    then have "unat v < 128" by (simp add: word_le_nat_alt)
    with False less.prems show ?thesis
      by (subst encode_loop.simps) (simp add: varint_of_small take_Suc_update unsigned_ucast_eq)
  next
    case True
    then have big: "128 \<le> unat v" by (simp add: word_le_nat_alt)
    let ?b = "word_of_nat (unat v mod 128 + 128) :: byte"
    let ?w = "drop_bit 7 v"
    have w: "unat ?w = unat v div 128" by (rule unat_drop_7)
    then have V: "varint v = ?b # varint ?w" using big by (simp add: varint_of_big)
    have "(encode_loop d (int i) v :: (wire_error, bytes) outcome) = encode_loop (d[i := ?b]) (int (Suc i)) ?w"
      using True less.prems V by (subst encode_loop.simps) (simp add: low_byte add.commute)
    also have "\<dots> = Ok (take (Suc i) (d[i := ?b]) @ varint ?w
        @ drop (Suc i + length (varint ?w)) (d[i := ?b]))"
      using less.prems V w big by (intro less.IH) auto
    also have "\<dots> = Ok (take i d @ varint v @ drop (i + length (varint v)) d)"
      using less.prems V by (simp add: take_Suc_conv_app_nth)
    finally show ?thesis .
  qed
qed

lemma encodeVarint_eq:
  assumes "length (varint v) \<le> i" "i \<le> length d" "fits d"
  shows "encodeVarint d (int i) v =
    Ok (take (i - length (varint v)) d @ varint v @ drop i d, int (i - length (varint v)))"
proof -
  have "int (length d) < 2 ^ 63" using go_len_fits [OF assms(3)] go_len_less [of d] by simp
  with assms(1,2) have "int64 (int i - sov v) = int (i - length (varint v))"
    by (simp add: sov_length int64_id)
  with assms(1,2) show ?thesis
    by (simp only: encodeVarint_def Let_def encode_loop_eq [of "i - length (varint v)" v d]) simp
qed

section \<open>Reading a varint\<close>

text \<open>
  The position moves forward and stays within the slice, and neither loop can panic: the
  generated bounds test stands before every read.
\<close>

lemma read_varint_step:
  "s < 64 \<Longrightarrow> i < go_len d \<Longrightarrow> 0 \<le> i \<Longrightarrow> read_varint f d s i a =
    (let b = d ! nat i; a' = a OR push_bit s (ucast (b AND 0x7F))
     in if b < 0x80 then Ok (a', i + 1) else read_varint f d (s + 7) (i + 1) a')"
  by (subst read_varint.simps) (simp add: get_at_below_len Let_def)

lemma read_varint_start:
  "read_varint f d s i a = Ok r \<Longrightarrow> s < 64 \<and> i < go_len d \<and> 0 \<le> i"
  by (subst (asm) read_varint.simps) (auto simp: get_at_def split: if_splits)

lemma pass_varint_step:
  "s < 64 \<Longrightarrow> i < go_len d \<Longrightarrow> 0 \<le> i \<Longrightarrow> pass_varint f d s i =
    (if d ! nat i < 0x80 then Ok (i + 1) else pass_varint f d (s + 7) (i + 1))"
  by (subst pass_varint.simps) (simp add: get_at_below_len)

lemma read_varint_bounds:
  "read_varint f d s i a = Ok (w, j) \<Longrightarrow> 0 \<le> i \<and> i < j \<and> j \<le> go_len d"
proof (induction "64 - s" arbitrary: s i a rule: less_induct)
  case less
  from less.prems have st: "s < 64" "i < go_len d" "0 \<le> i"
    by (auto dest: read_varint_start)
  show ?case
  proof (cases "d ! nat i < 0x80")
    case True
    with less.prems st show ?thesis by (simp add: read_varint_step Let_def)
  next
    case False
    with less.prems st
    have "read_varint f d (s + 7) (i + 1) (a OR push_bit s (ucast (d ! nat i AND 0x7F))) = Ok (w, j)"
      by (simp add: read_varint_step Let_def)
    then have "0 \<le> i + 1 \<and> i + 1 < j \<and> j \<le> go_len d"
      using st(1) by (intro less.hyps) simp_all
    with st(3) show ?thesis by linarith
  qed
qed

lemma read_varint_no_panic: "0 \<le> i \<Longrightarrow> \<not> is_panic (read_varint f d s i a)"
proof (induction f d s i a rule: read_varint.induct)
  case (1 f d s i a)
  then show ?case
    by (subst read_varint.simps) (auto simp: Let_def get_at_below_len)
qed

text \<open>\<open>pass_varint\<close> accepts what \<open>read_varint\<close> accepts, and stops at the same position.\<close>

lemma pass_varint_read:
  "pass_varint f d s i = chain (read_varint f d s i a) (\<lambda>(w, j). Ok j)"
proof (induction f d s i arbitrary: a rule: pass_varint.induct)
  case (1 f d s i)
  show ?case
  proof (cases "get_at d i :: (wire_error, byte) outcome")
    case (Ok b)
    with "1.IH" show ?thesis
      by (subst pass_varint.simps, subst read_varint.simps) (simp add: Let_def)
  qed (subst pass_varint.simps, subst read_varint.simps, simp)+
qed

lemma pass_varint_bounds:
  "pass_varint f d s i = Ok j \<Longrightarrow> 0 \<le> i \<and> i < j \<and> j \<le> go_len d"
  by (auto simp: pass_varint_read [where a = 0] outcome_simps dest: read_varint_bounds)

lemma pass_varint_no_panic: "0 \<le> i \<Longrightarrow> \<not> is_panic (pass_varint f d s i)"
  by (auto simp: pass_varint_read [where a = 0] outcome_simps dest: read_varint_no_panic)

text \<open>The low and the high part of a number, put together with bit operations.\<close>

lemma word_of_nat_mod_128: "(word_of_nat (n mod 128) :: u64) = take_bit 7 (word_of_nat n)"
  by (rule bit_word_eqI) (simp add: bit_simps flip: take_bit_eq_mod [of 7, simplified])

lemma word_of_nat_div_128:
  "n < 2 ^ 64 \<Longrightarrow> (word_of_nat (n div 128) :: u64) = drop_bit 7 (word_of_nat n)"
  by (simp add: word_unat_eq_iff unat_drop_7 unat_of_nat take_bit_eq_mod)

lemma word_split_7:
  "push_bit s (take_bit 7 w) OR push_bit (s + 7) (drop_bit 7 w) = (push_bit s w :: u64)"
proof (rule bit_word_eqI)
  fix n assume "n < LENGTH(64)"
  have "7 + (n - (s + 7)) = n - s" if "s + 7 \<le> n" using that by simp
  then show "bit (push_bit s (take_bit 7 w) OR push_bit (s + 7) (drop_bit 7 w)) n
      = bit (push_bit s w) n"
    by (cases "s + 7 \<le> n") (auto simp: bit_simps not_le)
qed

lemma cont_byte:
  assumes "128 \<le> n"
  shows "\<not> (word_of_nat (n mod 128 + 128) :: byte) < 0x80"
    and "(ucast ((word_of_nat (n mod 128 + 128) :: byte) AND 0x7F) :: u64) = take_bit 7 (word_of_nat n)"
proof -
  let ?b = "word_of_nat (n mod 128 + 128) :: byte"
  have u: "unat ?b = n mod 128 + 128"
    by (simp only: unat_of_nat take_bit_eq_mod) simp
  then show "\<not> ?b < 0x80" by (simp add: word_less_nat_alt)
  have "unat (?b AND 0x7F) = n mod 128"
    by (simp only: unsigned_and_eq u) (simp add: and_127)
  then have "(ucast (?b AND 0x7F) :: u64) = word_of_nat (n mod 128)"
    by (metis of_nat_unat)
  then show "(ucast (?b AND 0x7F) :: u64) = take_bit 7 (word_of_nat n)"
    by (simp only: word_of_nat_mod_128)
qed

lemma last_byte:
  assumes "n < 128"
  shows "(word_of_nat n :: byte) < 0x80"
    and "(ucast ((word_of_nat n :: byte) AND 0x7F) :: u64) = word_of_nat n"
proof -
  let ?b = "word_of_nat n :: byte"
  have u: "unat ?b = n" using assms by (simp add: unat_of_nat take_bit_eq_mod)
  with assms show "?b < 0x80" by (simp add: word_less_nat_alt)
  have "unat (?b AND 0x7F) = n"
    by (simp only: unsigned_and_eq u) (use assms in \<open>simp add: and_127\<close>)
  then show "(ucast (?b AND 0x7F) :: u64) = word_of_nat n"
    by (metis of_nat_unat)
qed

lemma drop_eq_ConsD:
  "drop i d = b # r \<Longrightarrow> i < length d \<and> d ! i = b \<and> drop (Suc i) d = r"
  by (metis Cons_nth_drop_Suc drop_all linorder_not_le list.distinct(1) list.inject)

lemma read_varint_eq:
  "n < 2 ^ (64 - s) \<Longrightarrow> s < 64 \<Longrightarrow> drop i d = varint_of n @ post \<Longrightarrow> fits d \<Longrightarrow>
   read_varint f d s (int i) a =
     Ok (a OR push_bit s (word_of_nat n), int (i + length (varint_of n)))"
proof (induction n arbitrary: s i a rule: varint_of.induct)
  case (1 n)
  show ?case
  proof (cases "n < 128")
    case True
    with "1.prems"(3) have "i < length d" "d ! i = word_of_nat n"
      by (auto simp: varint_of_small dest: drop_eq_ConsD)
    with True "1.prems" last_byte [OF True] show ?thesis
      by (simp add: read_varint_step go_len_fits Let_def varint_of_small)
  next
    case False
    then have big: "128 \<le> n" by simp
    from big "1.prems"(3) have d: "i < length d" "d ! i = word_of_nat (n mod 128 + 128)"
        "drop (Suc i) d = varint_of (n div 128) @ post"
      by (auto simp: varint_of_big dest: drop_eq_ConsD)
    have s: "s + 7 < 64"
    proof (rule ccontr)
      assume "\<not> s + 7 < 64"
      then have "(2::nat) ^ (64 - s) \<le> 2 ^ 7" by (intro power_increasing) auto
      with big "1.prems"(1) show False by simp
    qed
    then have "64 - s = 7 + (64 - (s + 7))" by simp
    with "1.prems"(1) have "n < 2 ^ 7 * 2 ^ (64 - (s + 7))" by (metis power_add)
    then have small: "n div 128 < 2 ^ (64 - (s + 7))" by (simp add: less_mult_imp_div_less mult.commute)
    have n64: "n < 2 ^ 64"
      using "1.prems"(1) by (rule less_le_trans) (rule power_increasing, simp_all)
    let ?a = "a OR push_bit s (take_bit 7 (word_of_nat n))"
    have "read_varint f d s (int i) a = read_varint f d (s + 7) (int (Suc i)) ?a"
      using d "1.prems" cont_byte [OF big] by (simp add: read_varint_step go_len_fits Let_def add.commute)
    also have "\<dots> = Ok (?a OR push_bit (s + 7) (word_of_nat (n div 128)),
        int (Suc i + length (varint_of (n div 128))))"
      using False small s d(3) "1.prems"(4) by (rule "1.IH")
    finally show ?thesis
      using big by (simp add: word_of_nat_div_128 [OF n64] or.assoc word_split_7 varint_of_big)
  qed
qed

lemma readVarint_varint:
  assumes "drop i d = varint v @ post" "fits d"
  shows "readVarint f d (int i) = Ok (v, int (i + length (varint v)))"
  using assms read_varint_eq [of "unat v" 0 i d post f 0] unsigned_less [of v, where 'a = nat]
  by simp

text \<open>The same for a number below \<open>2 ^ 64\<close>, and for a length read as an \<open>int\<close>.\<close>

lemma readVarint_nat:
  assumes "drop i d = varint_of n @ post" "fits d" "n < 2 ^ 64"
  shows "readVarint f d (int i) = Ok (word_of_nat n, int (i + length (varint_of n)))"
  using assms read_varint_eq [of n 0 i d post f 0] by simp

lemma sint_length: "n < 2 ^ 63 \<Longrightarrow> sint (word_of_nat n :: u64) = int n"
  by (simp add: signed_of_nat signed_take_bit_int_eq_self_iff)

end
