(* ===== verification/Wire_Skip.thy ===== *)
theory Wire_Skip
  imports Wire_Varint
begin

text \<open>
  The function \<open>skipTx\<close> and its copies in the other generated files: the length of the first
  field of a message, whatever its type, used by every \<open>Unmarshal\<close> to pass over fields it does
  not know. The lemmas show that the loop ends, that it cannot panic, that the length is positive,
  and that it is the true length of any field, nested groups included.
\<close>

section \<open>The program\<close>

text \<open>
  The switch on the wire type: from the position after the tag, the position after the field and
  the new nesting depth. Positions are \<open>int\<close> values and the additions can wrap.
\<close>

definition skip_switch ::
  "pb_file \<Rightarrow> bytes \<Rightarrow> int \<Rightarrow> nat \<Rightarrow> int \<Rightarrow> (wire_error, int \<times> nat) outcome" where
  "skip_switch f dAtA iNdEx depth wireType =
     (if wireType = 0 then chain (pass_varint f dAtA 0 iNdEx) (\<lambda>i. Ok (i, depth))
      else if wireType = 1 then Ok (int64 (iNdEx + 8), depth)
      else if wireType = 2 then
        chain (readVarint f dAtA iNdEx)
          (\<lambda>(length, i). if sint length < 0 then Err (ErrInvalidLength f)
                         else Ok (int64 (i + sint length), depth))
      else if wireType = 3 then Ok (iNdEx, depth + 1)
      else if wireType = 4 then
        (if depth = 0 then Err (ErrUnexpectedEndOfGroup f) else Ok (iNdEx, depth - 1))
      else if wireType = 5 then Ok (int64 (iNdEx + 4), depth)
      else Err (ErrIllegalWireType wireType))"

lemma sint_u64_less: "sint (w :: u64) < 2 ^ 63"
  using sint_lt [of w] by simp

lemma skip_switch_mono:
  assumes "skip_switch f d i k wt = Ok (j, k')" "0 \<le> i" "i < 2 ^ 63" "\<not> j < 0"
  shows "i \<le> j"
proof -
  have small: "int64 (a + b) < 0 \<or> a \<le> int64 (a + b)"
    if "0 \<le> a" "a < 2 ^ 63" "0 \<le> b" "b < 2 ^ 63" for a b
    using int64_add_cases [OF that] that by auto
  have len: "i \<le> int64 (m + sint w)"
    if "readVarint f d i = Ok (w, m)" "\<not> sint w < 0" "\<not> int64 (m + sint w) < 0" for w :: u64 and m
    using that read_varint_bounds [OF that(1)] small [of m "sint w"] go_len_less [of d]
      sint_u64_less [of w] by auto
  show ?thesis
    using assms small [of i 8] small [of i 4]
    by (auto simp: skip_switch_def outcome_simps dest: pass_varint_bounds len split: if_splits)
qed

function skip_loop :: "pb_file \<Rightarrow> bytes \<Rightarrow> int \<Rightarrow> nat \<Rightarrow> (wire_error, int) outcome" where
  "skip_loop f dAtA iNdEx depth =
     (if iNdEx \<ge> go_len dAtA then Err ErrUnexpectedEOF
      else chain (readVarint f dAtA iNdEx)
        (\<lambda>(wire, i). chain (skip_switch f dAtA i depth (uint (wire AND 0x7)))
          (\<lambda>(i', depth'). if i' < 0 then Err (ErrInvalidLength f)
             else if depth' = 0 then Ok i'
             else skip_loop f dAtA i' depth')))"
  by pat_completeness auto
termination
proof (relation "measure (\<lambda>(f, d, i, k). nat (go_len d - i))", simp)
  fix f d i k and r :: "u64 \<times> int" and w m and r' :: "int \<times> nat" and j k'
  assume "\<not> go_len d \<le> i" "readVarint f d i = Ok r" "(w, m) = r"
    "skip_switch f d m k (uint (w AND 0x7)) = Ok r'" "(j, k') = r'" "\<not> j < 0"
  then have "i < m" "m \<le> j"
    using read_varint_bounds [of f d 0 i 0 w m] go_len_less [of d]
      skip_switch_mono [of f d m k "uint (w AND 0x7)" j k'] by auto
  with \<open>\<not> go_len d \<le> i\<close>
  show "((f, d, j, k'), (f, d, i, k)) \<in> measure (\<lambda>(f, d, i, k). nat (go_len d - i))"
    by simp
qed

declare skip_loop.simps [simp del]

definition skip :: "pb_file \<Rightarrow> bytes \<Rightarrow> (wire_error, int) outcome" where
  "skip f dAtA = skip_loop f dAtA 0 0"

definition skipTx :: "bytes \<Rightarrow> (wire_error, int) outcome" where "skipTx = skip TxPB"
definition skipParams :: "bytes \<Rightarrow> (wire_error, int) outcome" where "skipParams = skip ParamsPB"
definition skipGenesis :: "bytes \<Rightarrow> (wire_error, int) outcome" where "skipGenesis = skip GenesisPB"
definition skipQuery :: "bytes \<Rightarrow> (wire_error, int) outcome" where "skipQuery = skip QueryPB"
definition skipModule :: "bytes \<Rightarrow> (wire_error, int) outcome" where "skipModule = skip ModulePB"

section \<open>Progress, and no panic\<close>

lemma skip_loop_progress: "skip_loop f d i k = Ok n \<Longrightarrow> i < n"
proof (induction f d i k rule: skip_loop.induct)
  case (1 f d i k)
  from "1.prems" obtain w m j k' where s: "i < go_len d" "readVarint f d i = Ok (w, m)"
      "skip_switch f d m k (uint (w AND 0x7)) = Ok (j, k')" "\<not> j < 0"
      "if k' = 0 then j = n else skip_loop f d j k' = Ok n"
    by (subst (asm) skip_loop.simps) (auto simp: outcome_simps split: if_splits)
  then have "i < m" "m \<le> j"
    using read_varint_bounds [OF s(2)] go_len_less [of d] skip_switch_mono [OF s(3)] by auto
  moreover have "j \<le> n"
    using s "1.IH" [OF _ s(2) refl s(3) refl] by (auto split: if_splits)
  ultimately show ?case by simp
qed

lemma skip_pos: "skip f d = Ok n \<Longrightarrow> 0 < n"
  unfolding skip_def by (rule skip_loop_progress)

lemma skip_switch_no_panic: "0 \<le> i \<Longrightarrow> \<not> is_panic (skip_switch f d i k wt)"
  by (auto simp: skip_switch_def outcome_simps dest: pass_varint_no_panic read_varint_no_panic)

lemma skip_loop_no_panic: "0 \<le> i \<Longrightarrow> \<not> is_panic (skip_loop f d i k)"
proof (induction f d i k rule: skip_loop.induct)
  case (1 f d i k)
  show ?case
  proof
    assume "is_panic (skip_loop f d i k)"
    then consider "is_panic (readVarint f d i)"
      | w m where "readVarint f d i = Ok (w, m)"
          "is_panic (skip_switch f d m k (uint (w AND 0x7)))"
      | w m j k' where "\<not> go_len d \<le> i" "readVarint f d i = Ok (w, m)"
          "skip_switch f d m k (uint (w AND 0x7)) = Ok (j, k')" "\<not> j < 0" "k' \<noteq> 0"
          "is_panic (skip_loop f d j k')"
      by (subst (asm) skip_loop.simps) (auto simp: outcome_simps split: if_splits)
    then show False
    proof cases
      case 1
      with "1.prems" show ?thesis by (simp add: read_varint_no_panic)
    next
      case 2
      then show ?thesis
        using read_varint_bounds [OF 2(1)] skip_switch_no_panic [of m] by auto
    next
      case 3
      then show ?thesis using "1.IH" [OF 3(1,2) refl 3(3) refl 3(4,5)] by simp
    qed
  qed
qed

lemma skip_no_panic: "\<not> is_panic (skip f d)"
  unfolding skip_def by (rule skip_loop_no_panic) simp

section \<open>The length of a field\<close>

text \<open>
  The fields of the protobuf wire format, by wire type; a group holds fields. Field numbers go
  up to \<open>2 ^ 29 - 1\<close>.
\<close>

datatype wfield =
    WVarint nat u64
  | WFixed64 nat bytes
  | WBytes nat bytes
  | WGroup nat "wfield list"
  | WFixed32 nat bytes

definition tag :: "nat \<Rightarrow> nat \<Rightarrow> bytes" where
  "tag num wt = varint_of (8 * num + wt)"

fun enc_field :: "wfield \<Rightarrow> bytes" where
  "enc_field (WVarint n v) = tag n 0 @ varint v"
| "enc_field (WFixed64 n b) = tag n 1 @ b"
| "enc_field (WBytes n b) = tag n 2 @ varint_of (length b) @ b"
| "enc_field (WGroup n fs) = tag n 3 @ concat (map enc_field fs) @ tag n 4"
| "enc_field (WFixed32 n b) = tag n 5 @ b"

definition field_number_ok :: "nat \<Rightarrow> bool" where
  "field_number_ok n \<longleftrightarrow> 1 \<le> n \<and> n < 2 ^ 29"

fun field_ok :: "wfield \<Rightarrow> bool" where
  "field_ok (WVarint n v) = field_number_ok n"
| "field_ok (WFixed64 n b) = (field_number_ok n \<and> length b = 8)"
| "field_ok (WBytes n b) = field_number_ok n"
| "field_ok (WGroup n fs) = (field_number_ok n \<and> (\<forall>x \<in> set fs. field_ok x))"
| "field_ok (WFixed32 n b) = (field_number_ok n \<and> length b = 4)"

lemma drop_appendD: "drop i d = xs @ ys \<Longrightarrow> drop (i + length xs) d = ys \<and> length ys = length d - (i + length xs)"
  by (metis add.commute append_eq_conv_conj drop_drop length_drop)

lemma drop_eq_boundsD: "drop i d = xs @ ys \<Longrightarrow> xs \<noteq> [] \<Longrightarrow> i < length d \<and> i + length xs \<le> length d"
  by (metis append_is_Nil_conv drop_all length_append length_drop linorder_not_le
      le_add1 le_diff_conv2 nat_le_linear add.commute)

lemma fits_int64: "fits d \<Longrightarrow> 0 \<le> x \<Longrightarrow> x \<le> int (length d) \<Longrightarrow> int64 x = x"
  using go_len_fits [of d] go_len_less [of d] by (simp add: int64_id)

lemma varint_of_ne [simp]: "varint_of n \<noteq> []"
  by (subst varint_of.simps) simp

lemma tag_ne [simp]: "tag n wt \<noteq> []"
  by (simp add: tag_def)

lemma wire_type_bits: "m < 2 ^ 64 \<Longrightarrow> uint ((word_of_nat m :: u64) AND 0x7) = int (m mod 8)"
proof -
  assume "m < 2 ^ 64"
  then have u: "unat (word_of_nat m :: u64) = m"
    by (simp add: unat_of_nat take_bit_eq_mod)
  have "m AND 7 = m mod 8"
    using take_bit_eq_mask [of 3 m] by (simp add: take_bit_eq_mod mask_eq_exp_minus_1)
  then have "unat ((word_of_nat m :: u64) AND 0x7) = m mod 8"
    by (simp add: unsigned_and_eq u)
  then show ?thesis by (metis uint_nat)
qed

lemma read_tag:
  assumes "drop i d = tag num wt @ post" "fits d" "num < 2 ^ 61" "wt < 8"
  shows "\<exists>w. readVarint f d (int i) = Ok (w, int (i + length (tag num wt)))
    \<and> uint (w AND 0x7) = int wt \<and> w = word_of_nat (8 * num + wt)"
  using readVarint_nat [of i d "8 * num + wt" post f] wire_type_bits [of "8 * num + wt"] assms
  by (simp add: tag_def)

lemma skip_loop_tag:
  assumes "drop i d = tag num wt @ post" "fits d" "num < 2 ^ 61" "wt < 8"
  shows "skip_loop f d (int i) k =
    chain (skip_switch f d (int (i + length (tag num wt))) k (int wt))
      (\<lambda>(j, k'). if j < 0 then Err (ErrInvalidLength f)
         else if k' = 0 then Ok j else skip_loop f d j k')"
  using read_tag [OF assms, of f] drop_eq_boundsD [OF assms(1)] assms(2)
  by (subst skip_loop.simps) (auto simp: go_len_fits)

lemma field_number_61: "field_number_ok n \<Longrightarrow> n < 2 ^ 61"
  by (simp add: field_number_ok_def)

lemma skip_loop_fixed:
  assumes "drop i d = tag n wt @ b @ post" "fits d" "field_number_ok n"
    and "wt = 1 \<and> length b = 8 \<or> wt = 5 \<and> length b = 4"
  shows "skip_loop f d (int i) k =
    (let j = i + length (tag n wt @ b) in if k = 0 then Ok (int j) else skip_loop f d (int j) k)"
proof -
  have "i + length (tag n wt @ b) \<le> length d"
    using drop_eq_boundsD [of i d "tag n wt @ b" post] assms(1) by simp
  then have "int64 (int (i + length (tag n wt)) + int (length b)) = int (i + length (tag n wt @ b))"
    using fits_int64 [OF assms(2)] by simp
  then show ?thesis
    using skip_loop_tag [OF assms(1,2) field_number_61 [OF assms(3)], of f k] assms(4)
    by (auto simp: skip_switch_def Let_def)
qed

lemma skip_loop_varint:
  assumes "drop i d = tag n 0 @ varint v @ post" "fits d" "field_number_ok n"
  shows "skip_loop f d (int i) k =
    (let j = i + length (tag n 0 @ varint v) in if k = 0 then Ok (int j) else skip_loop f d (int j) k)"
proof -
  have "pass_varint f d 0 (int (i + length (tag n 0))) = Ok (int (i + length (tag n 0 @ varint v)))"
    using readVarint_varint [of "i + length (tag n 0)" d v post f] drop_appendD [OF assms(1)] assms(2)
    by (simp add: pass_varint_read [where a = 0] add.assoc)
  then show ?thesis
    using skip_loop_tag [OF assms(1,2) field_number_61 [OF assms(3)], of f k]
    by (simp add: skip_switch_def Let_def)
qed

lemma skip_loop_bytes:
  assumes "drop i d = tag n 2 @ varint_of (length b) @ b @ post" "fits d" "field_number_ok n"
  shows "skip_loop f d (int i) k =
    (let j = i + length (tag n 2 @ varint_of (length b) @ b)
     in if k = 0 then Ok (int j) else skip_loop f d (int j) k)"
proof -
  let ?m = "i + length (tag n 2)"
  let ?j = "i + length (tag n 2 @ varint_of (length b) @ b)"
  have j: "?j \<le> length d"
    using drop_eq_boundsD [of i d "tag n 2 @ varint_of (length b) @ b" post] assms(1) by simp
  have lb: "length b < 2 ^ 63"
    using j assms(2) by (simp add: fits_def)
  have "readVarint f d (int ?m) = Ok (word_of_nat (length b), int (?m + length (varint_of (length b))))"
    using drop_appendD [OF assms(1)] assms(2) lb by (intro readVarint_nat) auto
  moreover have "int64 (int (?m + length (varint_of (length b))) + int (length b)) = int ?j"
    using fits_int64 [OF assms(2)] j by simp
  ultimately show ?thesis
    using skip_loop_tag [OF assms(1,2) field_number_61 [OF assms(3)], of f k] sint_length [OF lb]
    by (simp add: skip_switch_def Let_def)
qed

lemma skip_loop_field:
  "drop i d = enc_field x @ post \<Longrightarrow> fits d \<Longrightarrow> field_ok x \<Longrightarrow>
   skip_loop f d (int i) k =
    (let j = i + length (enc_field x) in if k = 0 then Ok (int j) else skip_loop f d (int j) k)"
proof (induction x arbitrary: i post k)
  case (WGroup n fs)
  have inner: "skip_loop f d (int m) (Suc k) =
      skip_loop f d (int (m + length (concat (map enc_field xs)))) (Suc k)"
    if "set xs \<subseteq> set fs" "drop m d = concat (map enc_field xs) @ tl" for xs m tl k
    using that
  proof (induction xs arbitrary: m)
    case (Cons x xs)
    have "skip_loop f d (int m) (Suc k) = skip_loop f d (int (m + length (enc_field x))) (Suc k)"
      using WGroup.IH [of x m "concat (map enc_field xs) @ tl" "Suc k"] Cons.prems WGroup.prems(2,3)
      by (simp add: Let_def)
    also have "\<dots> = skip_loop f d (int (m + length (enc_field x) + length (concat (map enc_field xs)))) (Suc k)"
      using Cons.prems drop_appendD [of m d "enc_field x" "concat (map enc_field xs) @ tl"]
      by (intro Cons.IH) auto
    finally show ?case by (simp add: add.assoc)
  qed simp
  let ?g = "concat (map enc_field fs)"
  let ?m = "i + length (tag n 3)"
  have n: "n < 2 ^ 61" using WGroup.prems(3) field_number_61 by simp
  have d1: "drop i d = tag n 3 @ ?g @ tag n 4 @ post" using WGroup.prems(1) by simp
  then have d2: "drop ?m d = ?g @ tag n 4 @ post" by (rule drop_appendD [THEN conjunct1])
  then have d3: "drop (?m + length ?g) d = tag n 4 @ post" by (rule drop_appendD [THEN conjunct1])
  have "skip_loop f d (int i) k = skip_loop f d (int ?m) (Suc k)"
    using skip_loop_tag [OF d1 WGroup.prems(2) n, of f k] by (simp add: skip_switch_def)
  also have "\<dots> = skip_loop f d (int (?m + length ?g)) (Suc k)"
    using d2 by (intro inner) auto
  also have "\<dots> = (let j = i + length (enc_field (WGroup n fs))
      in if k = 0 then Ok (int j) else skip_loop f d (int j) k)"
    using skip_loop_tag [OF d3 WGroup.prems(2) n, of f "Suc k"]
    by (simp add: skip_switch_def Let_def add.assoc)
  finally show ?case .
next
  case (WVarint n v)
  then show ?case using skip_loop_varint [of i d n v post f k] by simp
next
  case (WFixed64 n b)
  then show ?case using skip_loop_fixed [of i d n 1 b post f k] by simp
next
  case (WBytes n b)
  then show ?case using skip_loop_bytes [of i d n b post f k] by simp
next
  case (WFixed32 n b)
  then show ?case using skip_loop_fixed [of i d n 5 b post f k] by simp
qed

lemma skip_field:
  assumes "field_ok x" "fits (enc_field x @ post)"
  shows "skip f (enc_field x @ post) = Ok (int (length (enc_field x)))"
  using skip_loop_field [of 0 "enc_field x @ post" x post f 0] assms by (simp add: skip_def Let_def)

end
