(* ===== verification/Wire_Unmarshal.thy ===== *)
theory Wire_Unmarshal
  imports Wire_Skip
begin

text \<open>
  The generated \<open>Unmarshal\<close> loop. All messages share it; a message adds the switch over its
  field numbers, given here as a table from field numbers to the two kinds of field the
  messages of this repository have: a string, and an embedded message. A decoder returns the
  receiver as it leaves it together with its outcome, because Go's \<open>Unmarshal\<close> writes into the
  receiver and keeps what it wrote when it fails later.

  The lemmas show that the loop ends and cannot panic on any input, and that on the encoding of a
  sequence of fields it does what \<open>interp\<close> says: the abstract reading of a message as a list
  of fields, each applied in turn.
\<close>

section \<open>The program\<close>

datatype 'm field_kind =
    StrField string "string \<Rightarrow> 'm \<Rightarrow> 'm"
  | MsgField string "bytes \<Rightarrow> 'm \<Rightarrow> 'm \<times> (wire_error, unit) outcome"

primrec field_name :: "'m field_kind \<Rightarrow> string" where
  "field_name (StrField n put) = n"
| "field_name (MsgField n um) = n"

type_synonym 'm field_table = "int \<Rightarrow> 'm field_kind option"

text \<open>\<open>fieldNum := int32(wire >> 3)\<close> and \<open>wireType := int(wire & 0x7)\<close>.\<close>

definition field_num :: "u64 \<Rightarrow> int" where
  "field_num wire = sint (ucast (drop_bit 3 wire) :: 32 word)"

definition wire_type :: "u64 \<Rightarrow> int" where
  "wire_type wire = uint (wire AND 0x7)"

text \<open>The length of a length-delimited field, its checks, and the slice it delimits.\<close>

definition read_delimited :: "pb_file \<Rightarrow> bytes \<Rightarrow> int \<Rightarrow> (wire_error, bytes \<times> int) outcome" where
  "read_delimited f dAtA iNdEx =
     chain (readVarint f dAtA iNdEx)
       (\<lambda>(msglen, i). if sint msglen < 0 then Err (ErrInvalidLength f)
          else let postIndex = int64 (i + sint msglen)
            in if postIndex < 0 then Err (ErrInvalidLength f)
               else if postIndex > go_len dAtA then Err ErrUnexpectedEOF
               else chain (slice dAtA i postIndex) (\<lambda>sub. Ok (sub, postIndex)))"

text \<open>The default branch: pass over a field from its first byte, \<open>preIndex\<close>.\<close>

definition skip_unknown :: "pb_file \<Rightarrow> bytes \<Rightarrow> int \<Rightarrow> (wire_error, int) outcome" where
  "skip_unknown f dAtA preIndex =
     chain (slice dAtA preIndex (go_len dAtA))
       (\<lambda>rest. chain (skip f rest)
         (\<lambda>skippy. if skippy < 0 \<or> int64 (preIndex + skippy) < 0 then Err (ErrInvalidLength f)
            else if int64 (preIndex + skippy) > go_len dAtA then Err ErrUnexpectedEOF
            else Ok (int64 (preIndex + skippy))))"

definition unmarshal_field ::
  "pb_file \<Rightarrow> string \<Rightarrow> 'm field_table \<Rightarrow> bytes \<Rightarrow> int \<Rightarrow> 'm \<Rightarrow> 'm \<times> (wire_error, int) outcome" where
  "unmarshal_field f name fields dAtA preIndex m =
     (case readVarint f dAtA preIndex of
        Err e \<Rightarrow> (m, Err e)
      | Panic p \<Rightarrow> (m, Panic p)
      | Ok (wire, iNdEx) \<Rightarrow>
          (let fieldNum = field_num wire; wireType = wire_type wire in
           if wireType = 4 then (m, Err (ErrEndGroup name))
           else if fieldNum \<le> 0 then (m, Err (ErrIllegalTag name fieldNum wire))
           else (case fields fieldNum of
               None \<Rightarrow> (m, skip_unknown f dAtA preIndex)
             | Some k \<Rightarrow>
                 if wireType \<noteq> 2 then (m, Err (ErrWrongWireType wireType (field_name k)))
                 else (case read_delimited f dAtA iNdEx of
                     Err e \<Rightarrow> (m, Err e)
                   | Panic p \<Rightarrow> (m, Panic p)
                   | Ok (sub, postIndex) \<Rightarrow>
                       (case k of
                          StrField n put \<Rightarrow> (put (string_of sub) m, Ok postIndex)
                        | MsgField n um \<Rightarrow>
                            (case um sub m of (m', r) \<Rightarrow> (m', chain r (\<lambda>_. Ok postIndex))))))))"

lemma slice_length: "slice xs i j = Ok ys \<Longrightarrow> length ys \<le> length xs"
  by (auto simp: slice_def split: if_splits)

lemma read_delimited_progress:
  assumes "read_delimited f d i = Ok (sub, j)"
  shows "i < j"
proof -
  from assms obtain w m where r: "readVarint f d i = Ok (w, m)" "\<not> sint w < 0"
      "\<not> int64 (m + sint w) < 0" "j = int64 (m + sint w)"
    by (auto simp: read_delimited_def outcome_simps Let_def split: if_splits)
  then show ?thesis
    using read_varint_bounds [OF r(1)] int64_add_nonneg [of m "sint w"] go_len_less [of d]
      sint_u64_less [of w] by auto
qed

lemma skip_switch_less: "skip_switch f d i k wt = Ok (j, k') \<Longrightarrow> j < 2 ^ 63 \<or> j = i"
  using int64_range(2) pass_varint_bounds [of f d 0 i] go_len_less [of d]
  by (force simp: skip_switch_def outcome_simps split: if_splits)

lemma skip_loop_less: "skip_loop f d i k = Ok n \<Longrightarrow> n < 2 ^ 63"
proof (induction f d i k rule: skip_loop.induct)
  case (1 f d i k)
  from "1.prems" obtain w m j k' where s: "i < go_len d" "readVarint f d i = Ok (w, m)"
      "skip_switch f d m k (uint (w AND 0x7)) = Ok (j, k')" "\<not> j < 0"
      "if k' = 0 then j = n else skip_loop f d j k' = Ok n"
    by (subst (asm) skip_loop.simps) (auto simp: outcome_simps split: if_splits)
  have "j < 2 ^ 63"
    using skip_switch_less [OF s(3)] read_varint_bounds [OF s(2)] go_len_less [of d] by auto
  then show ?case
    using s "1.IH" [OF _ s(2) refl s(3) refl] by (auto split: if_splits)
qed

lemma skip_unknown_progress:
  assumes "skip_unknown f d i = Ok j" "i < go_len d"
  shows "i < j"
proof -
  from assms(1) obtain r n where s: "slice d i (go_len d) = (Ok r :: (wire_error, bytes) outcome)"
      "skip f r = Ok n" "\<not> int64 (i + n) < 0" "j = int64 (i + n)"
    by (auto simp: skip_unknown_def outcome_simps split: if_splits)
  then have "0 \<le> i" "0 < n" "n < 2 ^ 63"
    using skip_pos [OF s(2)] skip_loop_less [of f r 0 0 n]
    by (auto simp: slice_def skip_def split: if_splits)
  then show ?thesis
    using s int64_add_nonneg [of i n] assms(2) go_len_less [of d] by auto
qed

lemma read_delimited_progress_from:
  "readVarint f d i = Ok (w, k) \<Longrightarrow> read_delimited f d k = Ok (sub, j) \<Longrightarrow> i < j"
  by (meson order.strict_trans read_delimited_progress read_varint_bounds)

lemma unmarshal_field_progress:
  "unmarshal_field f name fields d i m = (m', Ok j) \<Longrightarrow> i < go_len d \<Longrightarrow> i < j"
  by (auto simp: unmarshal_field_def Let_def outcome_simps
      dest: read_delimited_progress_from skip_unknown_progress
      split: outcome.splits if_splits option.splits field_kind.splits prod.splits)

function unmarshal_loop ::
  "pb_file \<Rightarrow> string \<Rightarrow> 'm field_table \<Rightarrow> bytes \<Rightarrow> int \<Rightarrow> 'm \<Rightarrow> 'm \<times> (wire_error, unit) outcome" where
  "unmarshal_loop f name fields dAtA iNdEx m =
     (if iNdEx < go_len dAtA then
        (case unmarshal_field f name fields dAtA iNdEx m of
           (m', Ok iNdEx') \<Rightarrow> unmarshal_loop f name fields dAtA iNdEx' m'
         | (m', Err e) \<Rightarrow> (m', Err e)
         | (m', Panic p) \<Rightarrow> (m', Panic p))
      else if iNdEx > go_len dAtA then (m, Err ErrUnexpectedEOF)
      else (m, Ok ()))"
  by pat_completeness auto
termination
proof (relation "measure (\<lambda>(f, n, fs, d, i, m). nat (go_len d - i))", simp)
  fix f :: pb_file and n and fs :: "'m field_table" and d i and m :: 'm and m' q j
  assume a: "i < go_len d" "(m', q) = unmarshal_field f n fs d i m" "q = Ok j"
  then have "i < j" by (metis unmarshal_field_progress)
  with a(1) show "((f, n, fs, d, j, m'), (f, n, fs, d, i, m))
      \<in> measure (\<lambda>(f, n, fs, d, i, m). nat (go_len d - i))"
    by simp
qed

declare unmarshal_loop.simps [simp del]

definition unmarshal ::
  "pb_file \<Rightarrow> string \<Rightarrow> 'm field_table \<Rightarrow> bytes \<Rightarrow> 'm \<Rightarrow> 'm \<times> (wire_error, unit) outcome" where
  "unmarshal f name fields dAtA m = unmarshal_loop f name fields dAtA 0 m"

section \<open>No input makes a decoder panic\<close>

definition fields_safe :: "'m field_table \<Rightarrow> bool" where
  "fields_safe fields \<longleftrightarrow>
     (\<forall>n name um b m. fields n = Some (MsgField name um) \<longrightarrow> \<not> is_panic (snd (um b m)))"

lemma read_delimited_no_panic: "0 \<le> i \<Longrightarrow> \<not> is_panic (read_delimited f d i)"
proof
  assume i: "0 \<le> i" and "is_panic (read_delimited f d i)"
  then obtain w m where r: "readVarint f d i = Ok (w, m)" "\<not> sint w < 0"
      "\<not> int64 (m + sint w) < 0" "\<not> go_len d < int64 (m + sint w)"
      "is_panic (slice d m (int64 (m + sint w)) :: (wire_error, bytes) outcome)"
    by (auto simp: read_delimited_def is_panic_chain Let_def read_varint_no_panic split: if_splits)
  moreover have "0 \<le> m" "m < 2 ^ 63"
    using read_varint_bounds [OF r(1)] go_len_less [of d] by auto
  ultimately show False
    using int64_add_nonneg [of m "sint w"] sint_u64_less [of w] go_len_le [of d]
    by (auto simp: slice_def split: if_splits)
qed

lemma skip_unknown_no_panic: "0 \<le> i \<Longrightarrow> i < go_len d \<Longrightarrow> \<not> is_panic (skip_unknown f d i)"
  using go_len_le [of d]
  by (auto simp: skip_unknown_def is_panic_chain skip_no_panic split: if_splits)

lemma unmarshal_field_no_panic:
  assumes "0 \<le> i" "i < go_len d" "fields_safe fields"
  shows "\<not> is_panic (snd (unmarshal_field f name fields d i m))"
proof (cases "readVarint f d i")
  case (Ok r)
  obtain w k where r: "r = (w, k)" by force
  with Ok have k: "0 \<le> k" using read_varint_bounds [of f d 0 i 0 w k] by auto
  show ?thesis
  proof (cases "read_delimited f d k")
    case (Ok q)
    then show ?thesis
      using assms \<open>readVarint f d i = Ok r\<close> r
      by (auto simp: unmarshal_field_def Let_def fields_safe_def skip_unknown_no_panic is_panic_chain
          split: option.splits field_kind.splits prod.splits) (metis snd_conv)+
  qed (use assms k Ok r read_delimited_no_panic [of k f d] skip_unknown_no_panic [of i d f] in
      \<open>auto simp: unmarshal_field_def Let_def split: option.splits\<close>)
qed (use assms read_varint_no_panic [of i f d 0 0] in \<open>auto simp: unmarshal_field_def\<close>)

lemma unmarshal_loop_no_panic:
  "0 \<le> i \<Longrightarrow> fields_safe fields \<Longrightarrow> \<not> is_panic (snd (unmarshal_loop f name fields d i m))"
proof (induction f name fields d i m rule: unmarshal_loop.induct)
  case (1 f name fields d i m)
  obtain m' q where q: "unmarshal_field f name fields d i m = (m', q)" by force
  show ?case
  proof (cases "i < go_len d")
    case True
    with 1 q have "\<not> is_panic q"
      using unmarshal_field_no_panic [of i d fields f name m] by simp
    moreover have "0 \<le> j" if "q = Ok j" for j
      using unmarshal_field_progress [of f name fields d i m m' j] q that True 1 by simp
    ultimately show ?thesis
      using 1 q True by (subst unmarshal_loop.simps) (auto split: outcome.splits)
  next
    case False
    then show ?thesis by (subst unmarshal_loop.simps) simp
  qed
qed

lemma unmarshal_no_panic:
  "fields_safe fields \<Longrightarrow> \<not> is_panic (snd (unmarshal f name fields d m))"
  unfolding unmarshal_def by (rule unmarshal_loop_no_panic) simp_all

section \<open>What a decoder does, field by field\<close>

primrec number_of :: "wfield \<Rightarrow> nat" where
  "number_of (WVarint n v) = n"
| "number_of (WFixed64 n b) = n"
| "number_of (WBytes n b) = n"
| "number_of (WGroup n fs) = n"
| "number_of (WFixed32 n b) = n"

primrec type_of :: "wfield \<Rightarrow> nat" where
  "type_of (WVarint n v) = 0"
| "type_of (WFixed64 n b) = 1"
| "type_of (WBytes n b) = 2"
| "type_of (WGroup n fs) = 3"
| "type_of (WFixed32 n b) = 5"

primrec payload_of :: "wfield \<Rightarrow> bytes" where
  "payload_of (WVarint n v) = varint v"
| "payload_of (WFixed64 n b) = b"
| "payload_of (WBytes n b) = b"
| "payload_of (WGroup n fs) = concat (map enc_field fs) @ tag n 4"
| "payload_of (WFixed32 n b) = b"

text \<open>
  The abstract decoder: a field the message does not know is ignored, a field it knows must be
  length-delimited, a later string replaces an earlier one, and an embedded message is merged.
\<close>

definition apply_field ::
  "'m field_table \<Rightarrow> wfield \<Rightarrow> 'm \<Rightarrow> 'm \<times> (wire_error, unit) outcome" where
  "apply_field fields x m =
     (case fields (int (number_of x)) of
        None \<Rightarrow> (m, Ok ())
      | Some k \<Rightarrow>
          if type_of x \<noteq> 2 then (m, Err (ErrWrongWireType (int (type_of x)) (field_name k)))
          else (case k of StrField n put \<Rightarrow> (put (string_of (payload_of x)) m, Ok ())
                        | MsgField n um \<Rightarrow> um (payload_of x) m))"

fun interp :: "'m field_table \<Rightarrow> wfield list \<Rightarrow> 'm \<Rightarrow> 'm \<times> (wire_error, unit) outcome" where
  "interp fields [] m = (m, Ok ())"
| "interp fields (x # xs) m =
     (case apply_field fields x m of
        (m', Ok u) \<Rightarrow> interp fields xs m'
      | (m', Err e) \<Rightarrow> (m', Err e)
      | (m', Panic p) \<Rightarrow> (m', Panic p))"

lemma drop_bit_3_of_nat: "m < 2 ^ 64 \<Longrightarrow> drop_bit 3 (word_of_nat m :: u64) = word_of_nat (m div 8)"
proof -
  assume m: "m < 2 ^ 64"
  then have "unat (word_of_nat m :: u64) = m" "unat (word_of_nat (m div 8) :: u64) = m div 8"
    by (simp_all add: unat_of_nat take_bit_eq_mod)
  then show ?thesis by (simp add: word_unat_eq_iff drop_bit_eq_div unat_div)
qed

lemma ucast_of_nat_32: "n < 2 ^ 64 \<Longrightarrow> (ucast (word_of_nat n :: u64) :: 32 word) = word_of_nat n"
  by (simp add: unsigned_of_nat take_bit_eq_mod)

text \<open>\<open>int32(wire >> 3)\<close> keeps the low 32 bits of the field number, signed.\<close>

lemma field_num_tag:
  assumes "n < 2 ^ 61" "wt < 8"
  shows "field_num (word_of_nat (8 * n + wt)) = sint (word_of_nat n :: 32 word)"
proof -
  have "8 * n + wt < 2 ^ 64" "(8 * n + wt) div 8 = n" using assms by simp_all
  then have "drop_bit 3 (word_of_nat (8 * n + wt) :: u64) = word_of_nat n"
    by (simp only: drop_bit_3_of_nat)
  moreover have "n < 2 ^ 64" using assms(1) by simp
  ultimately show ?thesis by (simp only: field_num_def ucast_of_nat_32)
qed

lemma field_num_small:
  assumes "field_number_ok n" "wt < 8"
  shows "field_num (word_of_nat (8 * n + wt)) = int n"
proof -
  have n: "n < 2 ^ 29" using assms(1) by (simp add: field_number_ok_def)
  then have "sint (word_of_nat n :: 32 word) = int n"
    by (simp add: signed_of_nat signed_take_bit_int_eq_self_iff)
  moreover have "n < 2 ^ 61" using n by simp
  ultimately show ?thesis using assms(2) by (simp only: field_num_tag)
qed

lemma wire_type_tag: "n < 2 ^ 61 \<Longrightarrow> wt < 8 \<Longrightarrow> wire_type (word_of_nat (8 * n + wt)) = int wt"
  using wire_type_bits [of "8 * n + wt"] by (simp only: wire_type_def) simp

lemma number_ok: "field_ok x \<Longrightarrow> field_number_ok (number_of x)"
  by (cases x) auto

lemma type_of_cases: "type_of x < 8" "type_of x \<noteq> 4"
  by (cases x; simp)+

lemma enc_field_tag: "\<exists>body. enc_field x = tag (number_of x) (type_of x) @ body"
  by (cases x) auto

lemma enc_field_delimited:
  "type_of x = 2 \<Longrightarrow> enc_field x =
     tag (number_of x) 2 @ varint_of (length (payload_of x)) @ payload_of x"
  by (cases x) auto

lemma read_delimited_eq:
  assumes "drop i d = varint_of (length b) @ b @ post" "fits d"
  shows "read_delimited f d (int i) = Ok (b, int (i + length (varint_of (length b) @ b)))"
proof -
  let ?m = "i + length (varint_of (length b))"
  let ?j = "i + length (varint_of (length b) @ b)"
  have j: "?j \<le> length d" and d2: "drop ?m d = b @ post"
    using drop_eq_boundsD [of i d "varint_of (length b) @ b" post]
      drop_appendD [OF assms(1)] assms(1) by simp_all
  have lb: "length b < 2 ^ 63"
    using j assms(2) by (simp add: fits_def)
  have "readVarint f d (int i) = Ok (word_of_nat (length b), int ?m)"
    using assms lb by (intro readVarint_nat) auto
  moreover have "int64 (int ?m + int (length b)) = int ?j"
    using fits_int64 [OF assms(2)] j by simp
  moreover have "slice d (int ?m) (int ?j) = (Ok b :: (wire_error, bytes) outcome)"
    using j d2 by (simp add: nat_add_distrib)
  ultimately show ?thesis
    using j by (simp add: read_delimited_def sint_length [OF lb] go_len_fits [OF assms(2)])
qed

lemma skip_unknown_eq:
  assumes "drop i d = enc_field x @ post" "fits d" "field_ok x"
  shows "skip_unknown f d (int i) = Ok (int (i + length (enc_field x)))"
proof -
  have ne: "enc_field x \<noteq> []" using enc_field_tag [of x] by auto
  have j: "i + length (enc_field x) \<le> length d"
    using drop_eq_boundsD [OF assms(1) ne] by simp
  have "fits (drop i d)" using assms(2) by (rule fits_mono) simp
  with assms(1,3) have "skip f (drop i d) = Ok (int (length (enc_field x)))"
    by (simp add: skip_field)
  moreover have "slice d (int i) (int (length d)) = (Ok (drop i d) :: (wire_error, bytes) outcome)"
    using j by (intro slice_to_end) simp
  moreover have "int64 (int i + int (length (enc_field x))) = int (i + length (enc_field x))"
    using fits_int64 [OF assms(2)] j by simp
  ultimately show ?thesis
    using j by (simp add: skip_unknown_def go_len_fits [OF assms(2)])
qed

lemma unmarshal_field_eq:
  assumes d: "drop i d = enc_field x @ post" and "fits d" "field_ok x"
  shows "unmarshal_field f name fields d (int i) m =
    (case apply_field fields x m of
       (m', r) \<Rightarrow> (m', chain r (\<lambda>_. Ok (int (i + length (enc_field x))))))"
proof -
  let ?n = "number_of x" and ?t = "type_of x"
  let ?w = "word_of_nat (8 * ?n + ?t) :: u64"
  have n: "field_number_ok ?n" "?n < 2 ^ 61"
    using number_ok [OF assms(3)] field_number_61 by auto
  obtain body where body: "enc_field x = tag ?n ?t @ body" using enc_field_tag by blast
  have rd: "readVarint f d (int i) = Ok (?w, int (i + length (tag ?n ?t)))"
    using read_tag [of i d ?n ?t "body @ post" f] d body assms(2) n(2) type_of_cases by auto
  have fn: "field_num ?w = int ?n" using n(1) type_of_cases(1) by (rule field_num_small)
  have wt: "wire_type ?w = int ?t" using n(2) type_of_cases(1) by (rule wire_type_tag)
  have pos: "\<not> int ?n \<le> 0" using n(1) by (simp add: field_number_ok_def)
  show ?thesis
  proof (cases "fields (int ?n)")
    case None
    then show ?thesis
      using rd fn wt pos type_of_cases(2) [of x] skip_unknown_eq [OF assms]
      by (simp add: unmarshal_field_def apply_field_def Let_def)
  next
    case (Some k)
    show ?thesis
    proof (cases "?t = 2")
      case False
      then show ?thesis
        using Some rd fn wt pos type_of_cases(2) [of x]
        by (simp add: unmarshal_field_def apply_field_def Let_def)
    next
      case True
      let ?b = "payload_of x"
      have e: "enc_field x = tag ?n 2 @ varint_of (length ?b) @ ?b"
        using True by (rule enc_field_delimited)
      have "drop (i + length (tag ?n 2)) d = varint_of (length ?b) @ ?b @ post"
        using d e drop_appendD [of i d "tag ?n 2"] by simp
      then have "read_delimited f d (int (i + length (tag ?n 2))) =
          Ok (?b, int (i + length (enc_field x)))"
        using assms(2) e by (subst read_delimited_eq) (auto simp: add.assoc)
      then show ?thesis
        using Some True rd fn wt pos
        by (simp add: unmarshal_field_def apply_field_def Let_def split: field_kind.splits prod.splits)
    qed
  qed
qed

definition enc_fields :: "wfield list \<Rightarrow> bytes" where
  "enc_fields xs = concat (map enc_field xs)"

lemma enc_fields_simps [simp]:
  "enc_fields [] = []"
  "enc_fields (x # xs) = enc_field x @ enc_fields xs"
  "enc_fields (xs @ ys) = enc_fields xs @ enc_fields ys"
  by (simp_all add: enc_fields_def)

lemma unmarshal_loop_eq:
  "drop i d = enc_fields xs \<Longrightarrow> i \<le> length d \<Longrightarrow> fits d \<Longrightarrow> list_all field_ok xs \<Longrightarrow>
   unmarshal_loop f name fields d (int i) m = interp fields xs m"
proof (induction xs arbitrary: i m)
  case Nil
  then show ?case by (subst unmarshal_loop.simps) (simp add: go_len_fits)
next
  case (Cons x xs)
  let ?j = "i + length (enc_field x)"
  have d: "drop i d = enc_field x @ enc_fields xs" using Cons.prems(1) by simp
  have ne: "enc_field x \<noteq> []" using enc_field_tag [of x] by auto
  have i: "int i < go_len d" "?j \<le> length d"
    using drop_eq_boundsD [OF d ne] Cons.prems(3) by (auto simp: go_len_fits)
  have "unmarshal_loop f name fields d (int ?j) m' = interp fields xs m'" for m'
    using drop_appendD [OF d] i(2) Cons.prems(3,4) by (intro Cons.IH) auto
  moreover have "unmarshal_field f name fields d (int i) m =
    (case apply_field fields x m of (m', r) \<Rightarrow> (m', chain r (\<lambda>_. Ok (int ?j))))"
    using Cons.prems(3,4) by (intro unmarshal_field_eq [OF d]) auto
  ultimately show ?case
    using i(1) by (subst unmarshal_loop.simps) (auto split: prod.splits outcome.splits)
qed

lemma unmarshal_eq_interp:
  assumes "list_all field_ok xs" "fits (enc_fields xs)"
  shows "unmarshal f name fields (enc_fields xs) m = interp fields xs m"
  using unmarshal_loop_eq [of 0 "enc_fields xs" xs f name fields m] assms
  by (simp add: unmarshal_def)

lemma interp_append:
  "interp fields (xs @ ys) m =
     (case interp fields xs m of
        (m', Ok u) \<Rightarrow> interp fields ys m'
      | (m', Err e) \<Rightarrow> (m', Err e)
      | (m', Panic p) \<Rightarrow> (m', Panic p))"
  by (induction xs arbitrary: m) (auto split: prod.splits outcome.splits)

lemma interp_unknown:
  "(\<forall>x \<in> set xs. fields (int (number_of x)) = None) \<Longrightarrow> interp fields xs m = (m, Ok ())"
  by (induction xs) (auto simp: apply_field_def)

end
