(* ===== verification/Wire_Marshal.thy ===== *)
theory Wire_Marshal
  imports Wire_Unmarshal
begin

text \<open>
  The generated encoders write backwards into a buffer whose size was computed first. A message's
  \<open>MarshalToSizedBuffer\<close> is a chain of writers, each of which moves the position \<open>i\<close> down by the
  bytes it puts; \<open>back_writer\<close> says what such a writer leaves, and composes.

  The locale \<open>wire_message\<close> is the interface the generated wrappers (\<open>Marshal\<close>, \<open>MarshalTo\<close>,
  \<open>XXX_Marshal\<close>, \<open>Unmarshal\<close>) and an enclosing message rely on: the size is the length of the
  encoding, the writer puts exactly the encoding at the end of the buffer, and reading its fields
  rebuilds the message. A Go pointer receiver is an \<open>option\<close>, with \<open>None\<close> for nil.
\<close>

section \<open>Backward writers\<close>

type_synonym writer = "bytes \<Rightarrow> int \<Rightarrow> (wire_error, bytes \<times> int) outcome"

definition nil_panic :: string where
  "nil_panic = ''invalid memory address or nil pointer dereference''"

text \<open>\<open>i--; dAtA[i] = b\<close>\<close>

definition put_byte :: "byte \<Rightarrow> writer" where
  "put_byte b dAtA i = (let i' = int64 (i - 1) in chain (set_at dAtA i' b) (\<lambda>d. Ok (d, i')))"

text \<open>\<open>copy(dAtA[i:], s)\<close>: copies as many bytes as fit.\<close>

definition copy_at :: "bytes \<Rightarrow> int \<Rightarrow> bytes \<Rightarrow> (wire_error, bytes) outcome" where
  "copy_at dAtA i s =
     chain (slice dAtA i (int (length dAtA)))
       (\<lambda>tl. Ok (take (nat i) dAtA @ take (length tl) s @ drop (nat i + length s) dAtA))"

text \<open>\<open>i -= len(s); copy(dAtA[i:], s)\<close>, and \<open>i = encodeVarint(dAtA, i, uint64(n))\<close>.\<close>

definition put_copy :: "string \<Rightarrow> writer" where
  "put_copy s dAtA i =
     (let i' = int64 (i - go_len s)
      in chain (copy_at dAtA i' (bytes_of s)) (\<lambda>d. Ok (d, i')))"

definition put_varint :: "int \<Rightarrow> writer" where
  "put_varint n dAtA i = encodeVarint dAtA i (word_of_int n)"

text \<open>One writer after another, and the writer of an absent field.\<close>

definition then_write :: "writer \<Rightarrow> writer \<Rightarrow> writer" where
  "then_write w w' dAtA i = chain (w dAtA i) (\<lambda>(d, j). w' d j)"

definition skip_writer :: writer where
  "skip_writer dAtA i = Ok (dAtA, i)"

text \<open>A string field, from the last byte to the first: its bytes, its length, its tag.\<close>

definition put_string :: "byte \<Rightarrow> string \<Rightarrow> writer" where
  "put_string tag_byte s =
     then_write (put_copy s) (then_write (put_varint (go_len s)) (put_byte tag_byte))"

text \<open>An embedded message: it is written into \<open>dAtA[:i]\<close>, then its size and its tag.\<close>

definition put_message ::
  "byte \<Rightarrow> (bytes \<Rightarrow> (wire_error, bytes \<times> int) outcome) \<Rightarrow> writer" where
  "put_message tag_byte write dAtA i =
     chain (slice dAtA 0 i)
       (\<lambda>front. chain (write front)
         (\<lambda>(front', size).
            then_write (put_varint size) (put_byte tag_byte)
              (front' @ drop (nat i) dAtA) (int64 (i - size))))"

text \<open>\<open>MarshalToSizedBuffer\<close> starts at \<open>len(dAtA)\<close> and returns how far it came.\<close>

definition to_sized_buffer :: "writer \<Rightarrow> bytes \<Rightarrow> (wire_error, bytes \<times> int) outcome" where
  "to_sized_buffer w dAtA =
     chain (w dAtA (go_len dAtA)) (\<lambda>(d, i). Ok (d, int64 (go_len d - i)))"

definition back_writer :: "writer \<Rightarrow> bytes \<Rightarrow> bool" where
  "back_writer w bs \<longleftrightarrow>
     (\<forall>d i. fits d \<longrightarrow> length bs \<le> i \<longrightarrow> i \<le> length d \<longrightarrow>
        w d (int i) = Ok (take (i - length bs) d @ bs @ drop i d, int (i - length bs)))"

lemma back_writerI:
  assumes "\<And>d i. fits d \<Longrightarrow> length bs \<le> i \<Longrightarrow> i \<le> length d \<Longrightarrow>
    w d (int i) = Ok (take (i - length bs) d @ bs @ drop i d, int (i - length bs))"
  shows "back_writer w bs"
  using assms by (simp add: back_writer_def)

lemma back_writerD:
  "back_writer w bs \<Longrightarrow> fits d \<Longrightarrow> length bs \<le> i \<Longrightarrow> i \<le> length d \<Longrightarrow>
    w d (int i) = Ok (take (i - length bs) d @ bs @ drop i d, int (i - length bs))"
  by (simp add: back_writer_def)

lemma back_writer_skip: "back_writer skip_writer []"
  by (rule back_writerI) (simp add: skip_writer_def)

lemma back_writer_then:
  assumes "back_writer w bs" "back_writer w' cs"
  shows "back_writer (then_write w w') (cs @ bs)"
proof (rule back_writerI)
  fix d :: bytes and i
  assume a: "fits d" "length (cs @ bs) \<le> i" "i \<le> length d"
  then obtain k where k: "i = k + length cs + length bs" by (auto simp: le_iff_add ac_simps)
  let ?d = "take (k + length cs) d @ bs @ drop i d"
  have "fits ?d" using a k by (auto intro: fits_mono)
  moreover have "length cs \<le> k + length cs" "k + length cs \<le> length ?d"
    using a k by simp_all
  moreover have "w d (int i) = Ok (?d, int (k + length cs))"
    using back_writerD [OF assms(1) a(1), of i] a k by (simp del: of_nat_add)
  moreover have "take k (take (k + length cs) d) = take k d" "drop (k + length cs) ?d = bs @ drop i d"
    using a k by (simp_all add: min_def)
  ultimately have "then_write w w' d (int i) = Ok (take k d @ cs @ bs @ drop i d, int k)"
    using back_writerD [OF assms(2), of ?d "k + length cs"] a k
    by (simp add: then_write_def del: of_nat_add take_take drop_append)
  then show "then_write w w' d (int i) =
      Ok (take (i - length (cs @ bs)) d @ (cs @ bs) @ drop i d, int (i - length (cs @ bs)))"
    using k by simp
qed

lemma back_writer_byte: "back_writer (put_byte b) [b]"
proof (rule back_writerI)
  fix d :: bytes and i
  assume a: "fits d" "length [b] \<le> i" "i \<le> length d"
  then obtain k where k: "i = Suc k" by (cases i) auto
  with a have "int64 (int i - 1) = int k"
    using fits_int64 [OF a(1), of "int k"] by simp
  then show "put_byte b d (int i) =
      Ok (take (i - length [b]) d @ [b] @ drop i d, int (i - length [b]))"
    using a k by (simp add: put_byte_def Let_def upd_conv_take_nth_drop)
qed

lemma word_of_int_of_nat: "(word_of_int (int n) :: u64) = word_of_nat n"
  by simp

lemma unat_length: "n < 2 ^ 63 \<Longrightarrow> unat (word_of_nat n :: u64) = n"
  by (simp add: unat_of_nat take_bit_eq_mod)

lemma back_writer_varint:
  assumes "n < 2 ^ 63"
  shows "back_writer (put_varint (int n)) (varint_of n)"
proof (rule back_writerI)
  fix d :: bytes and i
  assume "fits d" "length (varint_of n) \<le> i" "i \<le> length d"
  then show "put_varint (int n) d (int i) =
      Ok (take (i - length (varint_of n)) d @ varint_of n @ drop i d, int (i - length (varint_of n)))"
    using encodeVarint_eq [of "word_of_nat n" i d] unat_length [OF assms]
    by (simp add: put_varint_def)
qed

lemma back_writer_copy:
  assumes "fits s"
  shows "back_writer (put_copy s) (bytes_of s)"
proof (rule back_writerI)
  fix d :: bytes and i
  assume a: "fits d" "length (bytes_of s) \<le> i" "i \<le> length d"
  then obtain k where k: "i = k + length s" by (auto simp: le_iff_add ac_simps)
  with a have "int64 (int i - int (length s)) = int k"
    using fits_int64 [OF a(1), of "int k"] by simp
  moreover have "copy_at d (int k) (bytes_of s) = Ok (take k d @ bytes_of s @ drop i d)"
    using a k by (simp add: copy_at_def slice_to_end)
  ultimately show "put_copy s d (int i) =
      Ok (take (i - length (bytes_of s)) d @ bytes_of s @ drop i d, int (i - length (bytes_of s)))"
    using k by (simp add: put_copy_def go_len_fits [OF assms])
qed

lemma fitsD: "fits s \<Longrightarrow> length s < 2 ^ 63"
  by (simp add: fits_def)

lemma back_writer_string:
  assumes "fits s"
  shows "back_writer (put_string t s) (t # varint_of (length s) @ bytes_of s)"
proof -
  have "back_writer (then_write (put_varint (int (length s))) (put_byte t))
      ([t] @ varint_of (length s))"
    using fitsD [OF assms] by (intro back_writer_then back_writer_varint back_writer_byte)
  with back_writer_copy [OF assms] show ?thesis
    using back_writer_then by (fastforce simp: put_string_def go_len_fits [OF assms])
qed

definition sized_writer :: "(bytes \<Rightarrow> (wire_error, bytes \<times> int) outcome) \<Rightarrow> bytes \<Rightarrow> bool" where
  "sized_writer write bs \<longleftrightarrow>
     (\<forall>d. fits d \<longrightarrow> length bs \<le> length d \<longrightarrow>
        write d = Ok (take (length d - length bs) d @ bs, int (length bs)))"

lemma sized_writerD:
  "sized_writer write bs \<Longrightarrow> fits d \<Longrightarrow> length bs \<le> length d \<Longrightarrow>
     write d = Ok (take (length d - length bs) d @ bs, int (length bs))"
  by (simp add: sized_writer_def)

lemma back_writer_message:
  assumes "sized_writer write bs" "fits bs"
  shows "back_writer (put_message t write) (t # varint_of (length bs) @ bs)"
proof (rule back_writerI)
  fix d :: bytes and i
  let ?w = "then_write (put_varint (int (length bs))) (put_byte t)"
  let ?l = "t # varint_of (length bs)"
  let ?d = "take (i - length bs) d @ bs @ drop i d"
  assume a: "fits d" "length (t # varint_of (length bs) @ bs) \<le> i" "i \<le> length d"
  have f: "fits (take i d)" "fits ?d" using a by (auto intro: fits_mono)
  have w: "write (take i d) = Ok (take (i - length bs) d @ bs, int (length bs))"
    using sized_writerD [OF assms(1) f(1)] a by (simp add: min_def)
  have "int64 (int i - int (length bs)) = int (i - length bs)"
    using fits_int64 [OF a(1), of "int i - int (length bs)"] a by simp
  then have "put_message t write d (int i) = ?w ?d (int (i - length bs))"
    using a w by (simp add: put_message_def)
  also have "\<dots> = Ok (take (i - length bs - length ?l) ?d @ ?l @ drop (i - length bs) ?d,
      int (i - length bs - length ?l))"
    using back_writer_then [OF back_writer_varint [OF fitsD [OF assms(2)]] back_writer_byte [of t]] f a
    by (intro back_writerD) auto
  finally show "put_message t write d (int i) =
      Ok (take (i - length (t # varint_of (length bs) @ bs)) d @ (t # varint_of (length bs) @ bs)
        @ drop i d, int (i - length (t # varint_of (length bs) @ bs)))"
    using a by (simp add: min_def add.commute)
qed

lemma sized_writer_back:
  assumes "back_writer w bs"
  shows "sized_writer (to_sized_buffer w) bs"
  unfolding sized_writer_def
proof (intro allI impI)
  fix d :: bytes
  assume d: "fits d" "length bs \<le> length d"
  let ?d = "take (length d - length bs) d @ bs"
  have "fits ?d" using d by (auto intro: fits_mono)
  then have "int64 (go_len ?d - int (length d - length bs)) = int (length bs)"
    using fits_int64 [OF d(1), of "int (length bs)"] d by (simp add: go_len_fits)
  with d back_writerD [OF assms d order_refl] show "to_sized_buffer w d = Ok (?d, int (length bs))"
    by (simp add: to_sized_buffer_def go_len_fits)
qed

end
