(* ===== verification/Wire_Messages.thy ===== *)
theory Wire_Messages
  imports Wire_Marshal
begin

text \<open>
  The messages of x/pulsar/types (params.pb.go, genesis.pb.go, tx.pb.go, query.pb.go,
  module.pb.go): their data, getters, sizes, encoders and decoders, and the wrappers every message
  has. Each message interprets the locale \<open>wire_message\<close>, so that it round-trips, never panics on
  input bytes, and tolerates fields it does not know.
\<close>

section \<open>The wrappers every message has\<close>

text \<open>\<open>make([]byte, size)\<close>\<close>

definition make_bytes :: "int \<Rightarrow> (wire_error, bytes) outcome" where
  "make_bytes n = (if n < 0 then Panic ''makeslice: len out of range'' else Ok (replicate (nat n) 0))"

definition Marshal ::
  "('m option \<Rightarrow> int) \<Rightarrow> ('m option \<Rightarrow> bytes \<Rightarrow> (wire_error, bytes \<times> int) outcome) \<Rightarrow>
   'm option \<Rightarrow> (wire_error, bytes) outcome" where
  "Marshal Size MarshalToSizedBuffer m =
     (let size = Size m
      in chain (make_bytes size)
        (\<lambda>dAtA. chain (MarshalToSizedBuffer m dAtA) (\<lambda>(dAtA', n). slice dAtA' 0 n)))"

definition MarshalTo ::
  "('m option \<Rightarrow> int) \<Rightarrow> ('m option \<Rightarrow> bytes \<Rightarrow> (wire_error, bytes \<times> int) outcome) \<Rightarrow>
   'm option \<Rightarrow> bytes \<Rightarrow> (wire_error, bytes \<times> int) outcome" where
  "MarshalTo Size MarshalToSizedBuffer m dAtA =
     (let size = Size m
      in chain (slice dAtA 0 size)
        (\<lambda>front. chain (MarshalToSizedBuffer m front)
          (\<lambda>(front', n). Ok (front' @ drop (nat size) dAtA, n))))"

text \<open>
  \<open>XXX_Marshal\<close>: the deterministic branch is the protobuf library's; the other branch encodes
  into the whole capacity of the buffer it is given (here the list is the capacity).
\<close>

definition XXX_Marshal ::
  "('m option \<Rightarrow> bytes \<Rightarrow> (wire_error, bytes) outcome) \<Rightarrow>
   ('m option \<Rightarrow> bytes \<Rightarrow> (wire_error, bytes \<times> int) outcome) \<Rightarrow>
   'm option \<Rightarrow> bytes \<Rightarrow> bool \<Rightarrow> (wire_error, bytes) outcome" where
  "XXX_Marshal library_marshal MarshalToSizedBuffer m b deterministic =
     (if deterministic then library_marshal m b
      else chain (MarshalToSizedBuffer m b) (\<lambda>(b', n). slice b' 0 n))"

section \<open>The contract of a message\<close>

locale wire_message =
  fixes Size :: "'m option \<Rightarrow> int"
    and MarshalToSizedBuffer :: "'m option \<Rightarrow> bytes \<Rightarrow> (wire_error, bytes \<times> int) outcome"
    and pb :: pb_file and name :: string
    and fields :: "'m field_table"
    and zero :: 'm
    and field_list :: "'m \<Rightarrow> wfield list"
    and small :: "'m \<Rightarrow> bool"
  assumes size: "small m \<Longrightarrow> Size (Some m) = int (length (enc_fields (field_list m)))"
    and writes: "small m \<Longrightarrow>
      sized_writer (MarshalToSizedBuffer (Some m)) (enc_fields (field_list m))"
    and fits_enc: "small m \<Longrightarrow> fits (enc_fields (field_list m))"
    and fields_ok: "small m \<Longrightarrow> list_all field_ok (field_list m)"
    and rebuild: "small m \<Longrightarrow> interp fields (field_list m) zero = (m, Ok ())"
    and safe: "fields_safe fields"
begin

lemma Marshal_eq:
  assumes "small m"
  shows "Marshal Size MarshalToSizedBuffer (Some m) = Ok (enc_fields (field_list m))"
proof -
  let ?e = "enc_fields (field_list m)"
  have "fits (replicate (length ?e) (0 :: byte))"
    using fits_enc [OF assms] by (simp add: fits_def)
  then have "MarshalToSizedBuffer (Some m) (replicate (length ?e) 0) = Ok (?e, int (length ?e))"
    using sized_writerD [OF writes [OF assms]] by simp
  then show ?thesis
    by (simp add: Marshal_def size [OF assms] make_bytes_def Let_def)
qed

lemma MarshalTo_eq:
  assumes "small m" "fits d" "length (enc_fields (field_list m)) \<le> length d"
  shows "MarshalTo Size MarshalToSizedBuffer (Some m) d =
    Ok (enc_fields (field_list m) @
          drop (length (enc_fields (field_list m))) d,
        int (length (enc_fields (field_list m))))"
proof -
  let ?e = "enc_fields (field_list m)"
  have "fits (take (length ?e) d)" using assms(2) by (rule fits_mono) simp
  then have "MarshalToSizedBuffer (Some m) (take (length ?e) d) = Ok (?e, int (length ?e))"
    using sized_writerD [OF writes [OF assms(1)]] assms(3) by (simp add: min_def)
  then show ?thesis
    using assms(3) by (simp add: MarshalTo_def size [OF assms(1)] Let_def)
qed

text \<open>
  \<open>XXX_Marshal\<close> returns the first bytes of a buffer that was filled from its end: with a
  buffer longer than the encoding these are not the encoding.
\<close>

lemma XXX_Marshal_eq:
  assumes "small m" "fits b" "length (enc_fields (field_list m)) \<le> length b"
  shows "XXX_Marshal lib MarshalToSizedBuffer (Some m) b False =
    Ok (take (length (enc_fields (field_list m)))
         (take (length b - length (enc_fields (field_list m))) b @
            enc_fields (field_list m)))"
  using sized_writerD [OF writes [OF assms(1)] assms(2,3)] assms(3)
  by (simp add: XXX_Marshal_def)

lemma decode:
  "small m \<Longrightarrow> unmarshal pb name fields (enc_fields (field_list m)) zero = (m, Ok ())"
  by (simp only: unmarshal_eq_interp fields_ok fits_enc rebuild)

lemma roundtrip:
  assumes "small m"
  obtains b where "Marshal Size MarshalToSizedBuffer (Some m) = Ok b"
    "unmarshal pb name fields b zero = (m, Ok ())"
  using Marshal_eq [OF assms] decode [OF assms] by blast

text \<open>A newer sender's fields, after the known ones, change nothing.\<close>

lemma decode_unknown:
  assumes "small m" "list_all field_ok xs"
    and "\<forall>x \<in> set xs. fields (int (number_of x)) = None"
    and "fits (enc_fields (field_list m) @ enc_fields xs)"
  shows "unmarshal pb name fields
    (enc_fields (field_list m) @ enc_fields xs) zero = (m, Ok ())"
  using unmarshal_eq_interp [of "field_list m @ xs" pb name fields zero] assms
    fields_ok [OF assms(1)]
  by (simp add: interp_append rebuild interp_unknown)

lemma decode_no_panic: "\<not> is_panic (snd (unmarshal pb name fields d m))"
  by (rule unmarshal_no_panic [OF safe])

end

section \<open>Params\<close>

datatype Params = Params

definition Params_Size :: "Params option \<Rightarrow> int" where
  "Params_Size m = (case m of None \<Rightarrow> 0 | Some p \<Rightarrow> 0)"

definition Params_MarshalToSizedBuffer ::
  "Params option \<Rightarrow> bytes \<Rightarrow> (wire_error, bytes \<times> int) outcome" where
  "Params_MarshalToSizedBuffer m = to_sized_buffer skip_writer"

definition Params_Marshal :: "Params option \<Rightarrow> (wire_error, bytes) outcome" where
  "Params_Marshal = Marshal Params_Size Params_MarshalToSizedBuffer"

definition Params_Unmarshal :: "bytes \<Rightarrow> Params \<Rightarrow> Params \<times> (wire_error, unit) outcome" where
  "Params_Unmarshal = unmarshal ParamsPB ''Params'' (\<lambda>n. None)"

text \<open>
  \<open>func (this *Params) Equal(that interface{}) bool\<close>: the dynamic value is nil, a pointer to
  Params (perhaps nil), a Params, or of another type.
\<close>

datatype dyn_params = NilInterface | PtrParams "Params option" | ValParams Params | OtherType

definition Params_Equal :: "Params option \<Rightarrow> dyn_params \<Rightarrow> bool" where
  "Params_Equal this that =
     (case that of
        NilInterface \<Rightarrow> this = None
      | OtherType \<Rightarrow> False
      | PtrParams None \<Rightarrow> this = None
      | PtrParams (Some p) \<Rightarrow> this \<noteq> None
      | ValParams p \<Rightarrow> this \<noteq> None)"

interpretation params: wire_message Params_Size Params_MarshalToSizedBuffer
  ParamsPB "''Params''" "\<lambda>n. None" Params "\<lambda>p. []" "\<lambda>p. True"
  by unfold_locales
    (auto simp: Params_Size_def Params_MarshalToSizedBuffer_def fits_def fields_safe_def
      intro: sized_writer_back back_writer_skip, metis Params.exhaust)

section \<open>Messages with one or both of an authority and a Params field\<close>

text \<open>Shared facts: the tags, and the embedded Params, whose encoding is empty.\<close>

lemma tag_bytes: "tag 1 2 = [0x0a]" "tag 2 2 = [0x12]"
  by (simp_all add: tag_def varint_of_small)

lemma Params_sized: "sized_writer (Params_MarshalToSizedBuffer m) []"
  unfolding Params_MarshalToSizedBuffer_def by (rule sized_writer_back [OF back_writer_skip])

lemma back_writer_params:
  "back_writer (put_message t (Params_MarshalToSizedBuffer m)) [t, 0]"
  using back_writer_message [OF Params_sized, of t] by (simp add: fits_def varint_of_small)

lemma Params_Unmarshal_empty: "Params_Unmarshal [] p = (p, Ok ())"
  by (simp add: Params_Unmarshal_def unmarshal_def unmarshal_loop.simps go_len_def int64_def)

lemma Params_Unmarshal_safe: "\<not> is_panic (snd (Params_Unmarshal b p))"
  unfolding Params_Unmarshal_def by (rule params.decode_no_panic)

definition authority_small :: "string \<Rightarrow> bool" where
  "authority_small s \<longleftrightarrow> length s < 2 ^ 62"

lemma sov_len: "n < 2 ^ 63 \<Longrightarrow> sov (word_of_int (int n)) = int (length (varint_of n))"
  using unat_length [of n] by (simp add: sov_length)

lemma length_varint_le: "n < 2 ^ 64 \<Longrightarrow> length (varint_of n) \<le> 10"
  using sov_range(2) [of "word_of_nat n"] by (simp add: sov_length unat_of_nat take_bit_eq_mod)

lemma authority_fits: "authority_small s \<Longrightarrow> fits s"
  by (simp add: authority_small_def fits_def)

text \<open>The size of a string field, as the generated \<open>Size\<close> adds it up.\<close>

lemma string_field_size:
  assumes "authority_small s"
  shows "sov (word_of_int (go_len s)) = int (length (varint_of (length s)))"
    and "length (varint_of (length s)) \<le> 10" "int (length s) < 2 ^ 62"
proof -
  have l: "length s < 2 ^ 62" using assms by (simp add: authority_small_def)
  then show "sov (word_of_int (go_len s)) = int (length (varint_of (length s)))"
    using go_len_fits [OF authority_fits [OF assms]] sov_len [of "length s"] by simp
  show "length (varint_of (length s)) \<le> 10" using l by (intro length_varint_le) simp
  have "int (length s) < int (2 ^ 62)" using l by (simp only: of_nat_less_iff)
  then show "int (length s) < 2 ^ 62" by simp
qed

subsection \<open>MsgUpdateParams\<close>

record MsgUpdateParams =
  mup_Authority :: string
  mup_Params :: Params

definition MsgUpdateParams_zero :: MsgUpdateParams where
  "MsgUpdateParams_zero = \<lparr>mup_Authority = [], mup_Params = Params\<rparr>"

definition MsgUpdateParams_GetAuthority :: "MsgUpdateParams option \<Rightarrow> string" where
  "MsgUpdateParams_GetAuthority m = (case m of Some v \<Rightarrow> mup_Authority v | None \<Rightarrow> [])"

definition MsgUpdateParams_GetParams :: "MsgUpdateParams option \<Rightarrow> Params" where
  "MsgUpdateParams_GetParams m = (case m of Some v \<Rightarrow> mup_Params v | None \<Rightarrow> Params)"

text \<open>The addition of \<open>Size\<close>: \<open>n += 1 + l + sov(uint64(l))\<close>.\<close>

definition add_field_size :: "int \<Rightarrow> int \<Rightarrow> int" where
  "add_field_size n l = int64 (n + (1 + l + sov (word_of_int l)))"

definition MsgUpdateParams_Size :: "MsgUpdateParams option \<Rightarrow> int" where
  "MsgUpdateParams_Size m =
     (case m of
        None \<Rightarrow> 0
      | Some v \<Rightarrow>
          (let l = go_len (mup_Authority v);
               n = (if l > 0 then add_field_size 0 l else 0)
           in add_field_size n (Params_Size (Some (mup_Params v)))))"

definition MsgUpdateParams_MarshalToSizedBuffer ::
  "MsgUpdateParams option \<Rightarrow> bytes \<Rightarrow> (wire_error, bytes \<times> int) outcome" where
  "MsgUpdateParams_MarshalToSizedBuffer m dAtA =
     (case m of
        None \<Rightarrow> Panic nil_panic
      | Some v \<Rightarrow>
          to_sized_buffer
            (then_write (put_message 0x12 (Params_MarshalToSizedBuffer (Some (mup_Params v))))
               (if go_len (mup_Authority v) > 0 then put_string 0xa (mup_Authority v)
                else skip_writer))
            dAtA)"

definition MsgUpdateParams_fields :: "MsgUpdateParams field_table" where
  "MsgUpdateParams_fields n =
     (if n = 1 then Some (StrField ''Authority'' (\<lambda>s m. m\<lparr>mup_Authority := s\<rparr>))
      else if n = 2 then Some (MsgField ''Params''
        (\<lambda>b m. case Params_Unmarshal b (mup_Params m) of (p, r) \<Rightarrow> (m\<lparr>mup_Params := p\<rparr>, r)))
      else None)"

definition MsgUpdateParams_Marshal :: "MsgUpdateParams option \<Rightarrow> (wire_error, bytes) outcome" where
  "MsgUpdateParams_Marshal = Marshal MsgUpdateParams_Size MsgUpdateParams_MarshalToSizedBuffer"

definition MsgUpdateParams_Unmarshal ::
  "bytes \<Rightarrow> MsgUpdateParams \<Rightarrow> MsgUpdateParams \<times> (wire_error, unit) outcome" where
  "MsgUpdateParams_Unmarshal = unmarshal TxPB ''MsgUpdateParams'' MsgUpdateParams_fields"

text \<open>The fields of the encoding, in the order of the bytes.\<close>

definition authority_field :: "string \<Rightarrow> wfield list" where
  "authority_field s = (if s = [] then [] else [WBytes 1 (bytes_of s)])"

definition MsgUpdateParams_field_list :: "MsgUpdateParams \<Rightarrow> wfield list" where
  "MsgUpdateParams_field_list m = authority_field (mup_Authority m) @ [WBytes 2 []]"

lemma authority_field_bytes:
  "enc_fields (authority_field s) =
     (if s = [] then [] else 0x0a # varint_of (length s) @ bytes_of s)"
  using tag_bytes by (simp add: authority_field_def)

lemma authority_field_write:
  "fits s \<Longrightarrow> back_writer (if go_len s > 0 then put_string 0xa s else skip_writer)
     (enc_fields (authority_field s))"
  using back_writer_string [of s "0xa"] back_writer_skip
  by (simp add: authority_field_bytes go_len_fits)

lemma length_authority_field:
  assumes "authority_small s"
  shows "length (enc_fields (authority_field s)) \<le> 11 + length s"
    and "(if go_len s > 0 then add_field_size 0 (go_len s) else 0) =
      int (length (enc_fields (authority_field s)))"
  using string_field_size [OF assms] go_len_fits [OF authority_fits [OF assms]]
  by (auto simp: authority_field_bytes int64_id add_field_size_def)

lemma add_params_size: "0 \<le> n \<Longrightarrow> n < 2 ^ 63 - 2 \<Longrightarrow> add_field_size n 0 = n + 2"
  using sov_len [of 0] by (simp add: add_field_size_def varint_of_small int64_id)

lemma MsgUpdateParams_fields_safe: "fields_safe MsgUpdateParams_fields"
  using Params_Unmarshal_safe
  by (auto simp: fields_safe_def MsgUpdateParams_fields_def split: if_splits prod.splits)
    (metis snd_conv)+

interpretation msg_update_params: wire_message MsgUpdateParams_Size
  MsgUpdateParams_MarshalToSizedBuffer TxPB "''MsgUpdateParams''" MsgUpdateParams_fields
  MsgUpdateParams_zero MsgUpdateParams_field_list "\<lambda>m. authority_small (mup_Authority m)"
proof
  fix m :: MsgUpdateParams
  assume a: "authority_small (mup_Authority m)"
  have e: "enc_fields (MsgUpdateParams_field_list m) =
      enc_fields (authority_field (mup_Authority m)) @ [0x12, 0]"
    by (simp add: MsgUpdateParams_field_list_def tag_bytes varint_of_small)
  note len = length_authority_field [OF a]
  have l: "length (mup_Authority m) < 2 ^ 62" using a by (simp add: authority_small_def)
  show "fits (enc_fields (MsgUpdateParams_field_list m))"
    using len(1) l by (simp add: e fits_def)
  show "MsgUpdateParams_Size (Some m) =
      int (length (enc_fields (MsgUpdateParams_field_list m)))"
    using len(1) l
    by (simp only: MsgUpdateParams_Size_def option.case Let_def len(2) Params_Size_def e)
      (simp add: add_params_size)
  show "sized_writer (MsgUpdateParams_MarshalToSizedBuffer (Some m))
      (enc_fields (MsgUpdateParams_field_list m))"
    unfolding e MsgUpdateParams_MarshalToSizedBuffer_def option.case
    by (intro sized_writer_back back_writer_then back_writer_params authority_field_write
        authority_fits [OF a])
  show "list_all field_ok (MsgUpdateParams_field_list m)"
    by (simp add: MsgUpdateParams_field_list_def authority_field_def field_number_ok_def)
  show "interp MsgUpdateParams_fields (MsgUpdateParams_field_list m) MsgUpdateParams_zero = (m, Ok ())"
    by (cases "mup_Params m")
      (auto simp: MsgUpdateParams_field_list_def authority_field_def apply_field_def
        MsgUpdateParams_fields_def MsgUpdateParams_zero_def Params_Unmarshal_empty)
qed (rule MsgUpdateParams_fields_safe)

subsection \<open>Messages without fields: MsgUpdateParamsResponse, QueryParamsRequest\<close>

datatype MsgUpdateParamsResponse = MsgUpdateParamsResponse
datatype QueryParamsRequest = QueryParamsRequest

definition MsgUpdateParamsResponse_Size :: "MsgUpdateParamsResponse option \<Rightarrow> int" where
  "MsgUpdateParamsResponse_Size m = (case m of None \<Rightarrow> 0 | Some v \<Rightarrow> 0)"

definition MsgUpdateParamsResponse_MarshalToSizedBuffer ::
  "MsgUpdateParamsResponse option \<Rightarrow> bytes \<Rightarrow> (wire_error, bytes \<times> int) outcome" where
  "MsgUpdateParamsResponse_MarshalToSizedBuffer m = to_sized_buffer skip_writer"

definition MsgUpdateParamsResponse_Unmarshal ::
  "bytes \<Rightarrow> MsgUpdateParamsResponse \<Rightarrow> MsgUpdateParamsResponse \<times> (wire_error, unit) outcome" where
  "MsgUpdateParamsResponse_Unmarshal = unmarshal TxPB ''MsgUpdateParamsResponse'' (\<lambda>n. None)"

definition QueryParamsRequest_Size :: "QueryParamsRequest option \<Rightarrow> int" where
  "QueryParamsRequest_Size m = (case m of None \<Rightarrow> 0 | Some v \<Rightarrow> 0)"

definition QueryParamsRequest_MarshalToSizedBuffer ::
  "QueryParamsRequest option \<Rightarrow> bytes \<Rightarrow> (wire_error, bytes \<times> int) outcome" where
  "QueryParamsRequest_MarshalToSizedBuffer m = to_sized_buffer skip_writer"

definition QueryParamsRequest_Unmarshal ::
  "bytes \<Rightarrow> QueryParamsRequest \<Rightarrow> QueryParamsRequest \<times> (wire_error, unit) outcome" where
  "QueryParamsRequest_Unmarshal = unmarshal QueryPB ''QueryParamsRequest'' (\<lambda>n. None)"

lemma empty_table_safe: "fields_safe (\<lambda>n. None)"
  by (simp add: fields_safe_def)

interpretation msg_update_params_response: wire_message MsgUpdateParamsResponse_Size
  MsgUpdateParamsResponse_MarshalToSizedBuffer TxPB "''MsgUpdateParamsResponse''" "\<lambda>n. None"
  MsgUpdateParamsResponse "\<lambda>m. []" "\<lambda>m. True"
proof
  fix m :: MsgUpdateParamsResponse
  show "sized_writer (MsgUpdateParamsResponse_MarshalToSizedBuffer (Some m)) (enc_fields [])"
    using sized_writer_back [OF back_writer_skip]
    by (simp add: MsgUpdateParamsResponse_MarshalToSizedBuffer_def)
  show "interp (\<lambda>n. None) [] MsgUpdateParamsResponse = (m, Ok ())"
    by (cases m) simp
qed (simp_all add: MsgUpdateParamsResponse_Size_def fits_def empty_table_safe)

interpretation query_params_request: wire_message QueryParamsRequest_Size
  QueryParamsRequest_MarshalToSizedBuffer QueryPB "''QueryParamsRequest''" "\<lambda>n. None"
  QueryParamsRequest "\<lambda>m. []" "\<lambda>m. True"
proof
  fix m :: QueryParamsRequest
  show "sized_writer (QueryParamsRequest_MarshalToSizedBuffer (Some m)) (enc_fields [])"
    using sized_writer_back [OF back_writer_skip]
    by (simp add: QueryParamsRequest_MarshalToSizedBuffer_def)
  show "interp (\<lambda>n. None) [] QueryParamsRequest = (m, Ok ())"
    by (cases m) simp
qed (simp_all add: QueryParamsRequest_Size_def fits_def empty_table_safe)

subsection \<open>Messages with a Params field 1: GenesisState, QueryParamsResponse\<close>

record GenesisState =
  gs_Params :: Params

record QueryParamsResponse =
  qpr_Params :: Params

definition GenesisState_GetParams :: "GenesisState option \<Rightarrow> Params" where
  "GenesisState_GetParams m = (case m of Some v \<Rightarrow> gs_Params v | None \<Rightarrow> Params)"

definition GenesisState_Size :: "GenesisState option \<Rightarrow> int" where
  "GenesisState_Size m =
     (case m of None \<Rightarrow> 0 | Some v \<Rightarrow> add_field_size 0 (Params_Size (Some (gs_Params v))))"

definition GenesisState_MarshalToSizedBuffer ::
  "GenesisState option \<Rightarrow> bytes \<Rightarrow> (wire_error, bytes \<times> int) outcome" where
  "GenesisState_MarshalToSizedBuffer m dAtA =
     (case m of
        None \<Rightarrow> Panic nil_panic
      | Some v \<Rightarrow>
          to_sized_buffer (put_message 0xa (Params_MarshalToSizedBuffer (Some (gs_Params v)))) dAtA)"

definition GenesisState_fields :: "GenesisState field_table" where
  "GenesisState_fields n =
     (if n = 1 then Some (MsgField ''Params''
        (\<lambda>b m. case Params_Unmarshal b (gs_Params m) of (p, r) \<Rightarrow> (m\<lparr>gs_Params := p\<rparr>, r)))
      else None)"

definition GenesisState_Unmarshal ::
  "bytes \<Rightarrow> GenesisState \<Rightarrow> GenesisState \<times> (wire_error, unit) outcome" where
  "GenesisState_Unmarshal = unmarshal GenesisPB ''GenesisState'' GenesisState_fields"

definition QueryParamsResponse_GetParams :: "QueryParamsResponse option \<Rightarrow> Params" where
  "QueryParamsResponse_GetParams m = (case m of Some v \<Rightarrow> qpr_Params v | None \<Rightarrow> Params)"

definition QueryParamsResponse_Size :: "QueryParamsResponse option \<Rightarrow> int" where
  "QueryParamsResponse_Size m =
     (case m of None \<Rightarrow> 0 | Some v \<Rightarrow> add_field_size 0 (Params_Size (Some (qpr_Params v))))"

definition QueryParamsResponse_MarshalToSizedBuffer ::
  "QueryParamsResponse option \<Rightarrow> bytes \<Rightarrow> (wire_error, bytes \<times> int) outcome" where
  "QueryParamsResponse_MarshalToSizedBuffer m dAtA =
     (case m of
        None \<Rightarrow> Panic nil_panic
      | Some v \<Rightarrow>
          to_sized_buffer (put_message 0xa (Params_MarshalToSizedBuffer (Some (qpr_Params v)))) dAtA)"

definition QueryParamsResponse_fields :: "QueryParamsResponse field_table" where
  "QueryParamsResponse_fields n =
     (if n = 1 then Some (MsgField ''Params''
        (\<lambda>b m. case Params_Unmarshal b (qpr_Params m) of (p, r) \<Rightarrow> (m\<lparr>qpr_Params := p\<rparr>, r)))
      else None)"

definition QueryParamsResponse_Unmarshal ::
  "bytes \<Rightarrow> QueryParamsResponse \<Rightarrow> QueryParamsResponse \<times> (wire_error, unit) outcome" where
  "QueryParamsResponse_Unmarshal = unmarshal QueryPB ''QueryParamsResponse'' QueryParamsResponse_fields"

lemma enc_params_field: "enc_fields [WBytes 1 []] = [0x0a, 0]"
  using tag_bytes(1) by (simp add: varint_of_small)

lemma params_field_safe:
  assumes "\<And>n name um. tbl n = Some (MsgField name um) \<Longrightarrow>
    um = (\<lambda>b m. case Params_Unmarshal b (get m) of (p, r) \<Rightarrow> (put m p, r))"
  shows "fields_safe tbl"
  unfolding fields_safe_def
proof (intro allI impI)
  fix n name um b m
  assume "tbl n = Some (MsgField name um)"
  then have "snd (um b m) = snd (Params_Unmarshal b (get m))"
    by (drule_tac assms) (simp split: prod.split)
  then show "\<not> is_panic (snd (um b m))" by (simp add: Params_Unmarshal_safe)
qed

interpretation genesis_state: wire_message GenesisState_Size GenesisState_MarshalToSizedBuffer
  GenesisPB "''GenesisState''" GenesisState_fields "\<lparr>gs_Params = Params\<rparr>" "\<lambda>m. [WBytes 1 []]" "\<lambda>m. True"
proof
  fix m :: GenesisState
  show "sized_writer (GenesisState_MarshalToSizedBuffer (Some m)) (enc_fields [WBytes 1 []])"
    unfolding enc_params_field GenesisState_MarshalToSizedBuffer_def option.case
    by (rule sized_writer_back [OF back_writer_params])
  show "interp GenesisState_fields [WBytes 1 []] \<lparr>gs_Params = Params\<rparr> = (m, Ok ())"
    by (cases m; cases "gs_Params m")
      (simp add: apply_field_def GenesisState_fields_def Params_Unmarshal_empty)
  show "GenesisState_Size (Some m) = int (length (enc_fields [WBytes 1 []]))"
    by (simp only: enc_params_field) (simp add: GenesisState_Size_def Params_Size_def add_params_size)
  show "fits (enc_fields [WBytes 1 []])" by (simp only: enc_params_field) (simp add: fits_def)
  show "fields_safe GenesisState_fields"
    by (rule params_field_safe [where get = gs_Params and put = "\<lambda>m p. m\<lparr>gs_Params := p\<rparr>"])
      (auto simp: GenesisState_fields_def split: if_splits)
qed (simp add: field_number_ok_def)

interpretation query_params_response: wire_message QueryParamsResponse_Size
  QueryParamsResponse_MarshalToSizedBuffer QueryPB "''QueryParamsResponse''"
  QueryParamsResponse_fields "\<lparr>qpr_Params = Params\<rparr>" "\<lambda>m. [WBytes 1 []]" "\<lambda>m. True"
proof
  fix m :: QueryParamsResponse
  show "sized_writer (QueryParamsResponse_MarshalToSizedBuffer (Some m)) (enc_fields [WBytes 1 []])"
    unfolding enc_params_field QueryParamsResponse_MarshalToSizedBuffer_def option.case
    by (rule sized_writer_back [OF back_writer_params])
  show "interp QueryParamsResponse_fields [WBytes 1 []] \<lparr>qpr_Params = Params\<rparr> = (m, Ok ())"
    by (cases m; cases "qpr_Params m")
      (simp add: apply_field_def QueryParamsResponse_fields_def Params_Unmarshal_empty)
  show "QueryParamsResponse_Size (Some m) = int (length (enc_fields [WBytes 1 []]))"
    by (simp only: enc_params_field)
      (simp add: QueryParamsResponse_Size_def Params_Size_def add_params_size)
  show "fits (enc_fields [WBytes 1 []])" by (simp only: enc_params_field) (simp add: fits_def)
  show "fields_safe QueryParamsResponse_fields"
    by (rule params_field_safe [where get = qpr_Params and put = "\<lambda>m p. m\<lparr>qpr_Params := p\<rparr>"])
      (auto simp: QueryParamsResponse_fields_def split: if_splits)
qed (simp add: field_number_ok_def)

subsection \<open>Module: the module's configuration object\<close>

record Module =
  mod_Authority :: string

definition Module_GetAuthority :: "Module option \<Rightarrow> string" where
  "Module_GetAuthority m = (case m of Some v \<Rightarrow> mod_Authority v | None \<Rightarrow> [])"

definition Module_Size :: "Module option \<Rightarrow> int" where
  "Module_Size m =
     (case m of
        None \<Rightarrow> 0
      | Some v \<Rightarrow> (let l = go_len (mod_Authority v) in if l > 0 then add_field_size 0 l else 0))"

definition Module_MarshalToSizedBuffer ::
  "Module option \<Rightarrow> bytes \<Rightarrow> (wire_error, bytes \<times> int) outcome" where
  "Module_MarshalToSizedBuffer m dAtA =
     (case m of
        None \<Rightarrow> Panic nil_panic
      | Some v \<Rightarrow>
          to_sized_buffer
            (if go_len (mod_Authority v) > 0 then put_string 0xa (mod_Authority v) else skip_writer)
            dAtA)"

definition Module_fields :: "Module field_table" where
  "Module_fields n =
     (if n = 1 then Some (StrField ''Authority'' (\<lambda>s m. m\<lparr>mod_Authority := s\<rparr>)) else None)"

definition Module_Marshal :: "Module option \<Rightarrow> (wire_error, bytes) outcome" where
  "Module_Marshal = Marshal Module_Size Module_MarshalToSizedBuffer"

definition Module_Unmarshal :: "bytes \<Rightarrow> Module \<Rightarrow> Module \<times> (wire_error, unit) outcome" where
  "Module_Unmarshal = unmarshal ModulePB ''Module'' Module_fields"

interpretation module_config: wire_message Module_Size Module_MarshalToSizedBuffer
  ModulePB "''Module''" Module_fields "\<lparr>mod_Authority = []\<rparr>"
  "\<lambda>m. authority_field (mod_Authority m)" "\<lambda>m. authority_small (mod_Authority m)"
proof
  fix m :: Module
  assume a: "authority_small (mod_Authority m)"
  note len = length_authority_field [OF a]
  show "sized_writer (Module_MarshalToSizedBuffer (Some m))
      (enc_fields (authority_field (mod_Authority m)))"
    unfolding Module_MarshalToSizedBuffer_def option.case
    by (intro sized_writer_back authority_field_write authority_fits [OF a])
  show "Module_Size (Some m) = int (length (enc_fields (authority_field (mod_Authority m))))"
    by (simp only: Module_Size_def option.case Let_def len(2))
  show "fits (enc_fields (authority_field (mod_Authority m)))"
    using len(1) a by (simp add: fits_def authority_small_def)
  show "interp Module_fields (authority_field (mod_Authority m)) \<lparr>mod_Authority = []\<rparr> = (m, Ok ())"
    by (cases m) (auto simp: authority_field_def apply_field_def Module_fields_def)
  show "list_all field_ok (authority_field (mod_Authority m))"
    by (simp add: authority_field_def field_number_ok_def)
qed (auto simp: fields_safe_def Module_fields_def split: if_splits)

section \<open>The wrappers, message by message\<close>

type_synonym 'm library_marshal = "'m option \<Rightarrow> bytes \<Rightarrow> (wire_error, bytes) outcome"

definition Params_MarshalTo :: "Params option \<Rightarrow> bytes \<Rightarrow> (wire_error, bytes \<times> int) outcome" where
  "Params_MarshalTo = MarshalTo Params_Size Params_MarshalToSizedBuffer"

definition Params_XXX_Marshal ::
  "Params library_marshal \<Rightarrow> Params option \<Rightarrow> bytes \<Rightarrow> bool \<Rightarrow> (wire_error, bytes) outcome" where
  "Params_XXX_Marshal lib = XXX_Marshal lib Params_MarshalToSizedBuffer"

definition MsgUpdateParams_MarshalTo :: "MsgUpdateParams option \<Rightarrow> bytes \<Rightarrow> (wire_error, bytes \<times> int) outcome" where
  "MsgUpdateParams_MarshalTo = MarshalTo MsgUpdateParams_Size MsgUpdateParams_MarshalToSizedBuffer"

definition MsgUpdateParams_XXX_Marshal ::
  "MsgUpdateParams library_marshal \<Rightarrow> MsgUpdateParams option \<Rightarrow> bytes \<Rightarrow> bool \<Rightarrow> (wire_error, bytes) outcome" where
  "MsgUpdateParams_XXX_Marshal lib = XXX_Marshal lib MsgUpdateParams_MarshalToSizedBuffer"

definition MsgUpdateParamsResponse_Marshal :: "MsgUpdateParamsResponse option \<Rightarrow> (wire_error, bytes) outcome" where
  "MsgUpdateParamsResponse_Marshal = Marshal MsgUpdateParamsResponse_Size MsgUpdateParamsResponse_MarshalToSizedBuffer"

definition MsgUpdateParamsResponse_MarshalTo :: "MsgUpdateParamsResponse option \<Rightarrow> bytes \<Rightarrow> (wire_error, bytes \<times> int) outcome" where
  "MsgUpdateParamsResponse_MarshalTo = MarshalTo MsgUpdateParamsResponse_Size MsgUpdateParamsResponse_MarshalToSizedBuffer"

definition MsgUpdateParamsResponse_XXX_Marshal ::
  "MsgUpdateParamsResponse library_marshal \<Rightarrow> MsgUpdateParamsResponse option \<Rightarrow> bytes \<Rightarrow> bool \<Rightarrow> (wire_error, bytes) outcome" where
  "MsgUpdateParamsResponse_XXX_Marshal lib = XXX_Marshal lib MsgUpdateParamsResponse_MarshalToSizedBuffer"

definition QueryParamsRequest_Marshal :: "QueryParamsRequest option \<Rightarrow> (wire_error, bytes) outcome" where
  "QueryParamsRequest_Marshal = Marshal QueryParamsRequest_Size QueryParamsRequest_MarshalToSizedBuffer"

definition QueryParamsRequest_MarshalTo :: "QueryParamsRequest option \<Rightarrow> bytes \<Rightarrow> (wire_error, bytes \<times> int) outcome" where
  "QueryParamsRequest_MarshalTo = MarshalTo QueryParamsRequest_Size QueryParamsRequest_MarshalToSizedBuffer"

definition QueryParamsRequest_XXX_Marshal ::
  "QueryParamsRequest library_marshal \<Rightarrow> QueryParamsRequest option \<Rightarrow> bytes \<Rightarrow> bool \<Rightarrow> (wire_error, bytes) outcome" where
  "QueryParamsRequest_XXX_Marshal lib = XXX_Marshal lib QueryParamsRequest_MarshalToSizedBuffer"

definition QueryParamsResponse_Marshal :: "QueryParamsResponse option \<Rightarrow> (wire_error, bytes) outcome" where
  "QueryParamsResponse_Marshal = Marshal QueryParamsResponse_Size QueryParamsResponse_MarshalToSizedBuffer"

definition QueryParamsResponse_MarshalTo :: "QueryParamsResponse option \<Rightarrow> bytes \<Rightarrow> (wire_error, bytes \<times> int) outcome" where
  "QueryParamsResponse_MarshalTo = MarshalTo QueryParamsResponse_Size QueryParamsResponse_MarshalToSizedBuffer"

definition QueryParamsResponse_XXX_Marshal ::
  "QueryParamsResponse library_marshal \<Rightarrow> QueryParamsResponse option \<Rightarrow> bytes \<Rightarrow> bool \<Rightarrow> (wire_error, bytes) outcome" where
  "QueryParamsResponse_XXX_Marshal lib = XXX_Marshal lib QueryParamsResponse_MarshalToSizedBuffer"

definition GenesisState_Marshal :: "GenesisState option \<Rightarrow> (wire_error, bytes) outcome" where
  "GenesisState_Marshal = Marshal GenesisState_Size GenesisState_MarshalToSizedBuffer"

definition GenesisState_MarshalTo :: "GenesisState option \<Rightarrow> bytes \<Rightarrow> (wire_error, bytes \<times> int) outcome" where
  "GenesisState_MarshalTo = MarshalTo GenesisState_Size GenesisState_MarshalToSizedBuffer"

definition GenesisState_XXX_Marshal ::
  "GenesisState library_marshal \<Rightarrow> GenesisState option \<Rightarrow> bytes \<Rightarrow> bool \<Rightarrow> (wire_error, bytes) outcome" where
  "GenesisState_XXX_Marshal lib = XXX_Marshal lib GenesisState_MarshalToSizedBuffer"

definition Module_MarshalTo :: "Module option \<Rightarrow> bytes \<Rightarrow> (wire_error, bytes \<times> int) outcome" where
  "Module_MarshalTo = MarshalTo Module_Size Module_MarshalToSizedBuffer"

definition Module_XXX_Marshal ::
  "Module library_marshal \<Rightarrow> Module option \<Rightarrow> bytes \<Rightarrow> bool \<Rightarrow> (wire_error, bytes) outcome" where
  "Module_XXX_Marshal lib = XXX_Marshal lib Module_MarshalToSizedBuffer"

end
