(* ===== verification/Wire_Grammar.thy ===== *)
theory Wire_Grammar
  imports Wire_Unmarshal
begin

text \<open>
  The grammar of the bytes that the generated decoders accept, written without positions, loops and
  overflow checks, and the proof that the decoders accept exactly this language with exactly this
  meaning. The grammar is that of the protobuf wire format with what the generated code leaves
  unchecked: numbers may take more bytes than they need and lose their bits beyond 64, the end of a
  group may carry another field number than its start, and numbers inside a group are free.

  \<open>wire_item w p bs\<close> says that the bytes \<open>bs\<close> are one field with tag \<open>w\<close> and contents \<open>p\<close>;
  \<open>wire_fields xs bs\<close> that \<open>bs\<close> is the sequence of the fields \<open>xs\<close>.
\<close>

section \<open>The grammar\<close>

text \<open>Seven bits a byte from the bit \<open>s\<close> up, and a last byte below 128: at most ten bytes.\<close>

fun varint_value :: "nat \<Rightarrow> bytes \<Rightarrow> u64 option" where
  "varint_value s [] = None"
| "varint_value s (b # bs) =
     (if s \<ge> 64 then None
      else if b < 0x80 then (if bs = [] then Some (push_bit s (ucast (b AND 0x7F))) else None)
      else map_option (\<lambda>v. push_bit s (ucast (b AND 0x7F)) OR v) (varint_value (s + 7) bs))"

text \<open>What follows the tag of a field that is no group, by wire type, and its contents.\<close>

definition scalar :: "int \<Rightarrow> bytes \<Rightarrow> bytes \<Rightarrow> bool" where
  "scalar wt p b \<longleftrightarrow>
     wt = 0 \<and> varint_value 0 b \<noteq> None \<and> p = b \<or>
     wt = 1 \<and> length b = 8 \<and> p = b \<or>
     wt = 2 \<and> (\<exists>ls v. varint_value 0 ls = Some v \<and> sint v = int (length p) \<and> b = ls @ p) \<or>
     wt = 5 \<and> length b = 4 \<and> p = b"

inductive wire_item :: "u64 \<Rightarrow> bytes \<Rightarrow> bytes \<Rightarrow> bool" and group_body :: "bytes \<Rightarrow> bool" where
  one: "varint_value 0 ts = Some w \<Longrightarrow> scalar (wire_type w) p b \<Longrightarrow> wire_item w p (ts @ b)"
| group: "varint_value 0 ts = Some w \<Longrightarrow> wire_type w = 3 \<Longrightarrow> group_body g \<Longrightarrow> wire_item w g (ts @ g)"
| close: "varint_value 0 ts = Some w \<Longrightarrow> wire_type w = 4 \<Longrightarrow> group_body ts"
| more: "wire_item w p bs \<Longrightarrow> group_body g \<Longrightarrow> group_body (bs @ g)"

inductive wire_fields :: "(u64 \<times> bytes) list \<Rightarrow> bytes \<Rightarrow> bool" where
  nothing: "wire_fields [] []"
| field: "wire_item w p bs \<Longrightarrow> wire_fields xs d \<Longrightarrow> wire_fields ((w, p) # xs) (bs @ d)"

inductive_simps wire_fields_simps: "wire_fields [] d" "wire_fields (x # xs) d"

text \<open>What is left to read inside \<open>k\<close> open groups.\<close>

fun closing :: "nat \<Rightarrow> bytes \<Rightarrow> bool" where
  "closing 0 bs = (bs = [])"
| "closing (Suc k) bs = (\<exists>g r. bs = g @ r \<and> group_body g \<and> closing k r)"

section \<open>Varints\<close>

lemma varint_value_ne: "varint_value s bs = Some v \<Longrightarrow> bs \<noteq> []"
  by auto

lemma read_varint_iff:
  "fits d \<Longrightarrow> read_varint f d s (int i) a = Ok (w, j) \<longleftrightarrow>
     (\<exists>bs post v. drop i d = bs @ post \<and> varint_value s bs = Some v \<and> w = a OR v \<and>
        j = int (i + length bs))"
proof (induction "64 - s" arbitrary: s i a rule: less_induct)
  case less
  show ?case
  proof (cases "s < 64 \<and> i < length d")
    case False
    then have "read_varint f d s (int i) a \<noteq> Ok (w, j)"
      using read_varint_start [of f d s "int i" a] less.prems by (auto simp: go_len_fits)
    moreover have "varint_value s bs = None" if "drop i d = bs @ post" for bs post
      using False that by (cases bs) auto
    ultimately show ?thesis by auto
  next
    case True
    let ?b = "d ! i" let ?a = "push_bit s (ucast (?b AND 0x7F)) :: u64"
    have d: "drop i d = ?b # drop (Suc i) d" using True by (simp add: Cons_nth_drop_Suc)
    have r: "read_varint f d s (int i) a =
        (if ?b < 0x80 then Ok (a OR ?a, int (Suc i)) else read_varint f d (s + 7) (int (Suc i)) (a OR ?a))"
      using True less.prems by (simp add: read_varint_step go_len_fits Let_def add.commute)
    show ?thesis
    proof (cases "?b < 0x80")
      case low: True
      have bs: "bs = [?b] \<and> v = ?a" if "drop i d = bs @ post" "varint_value s bs = Some v" for bs post v
        using True low d that by (cases bs) (auto split: if_splits)
      have "drop i d = [?b] @ drop (Suc i) d \<and> varint_value s [?b] = Some ?a"
        using True low d by simp
      then have "(\<exists>bs post v. drop i d = bs @ post \<and> varint_value s bs = Some v \<and> w = a OR v \<and>
          j = int (i + length bs)) \<longleftrightarrow> w = a OR ?a \<and> j = int (Suc i)"
        by (metis add_Suc_right add_0_right bs length_Cons list.size(3))
      then show ?thesis unfolding r using low by auto
    next
      case high: False
      have "read_varint f d (s + 7) (int (Suc i)) (a OR ?a) = Ok (w, j) \<longleftrightarrow>
        (\<exists>bs post v. drop (Suc i) d = bs @ post \<and> varint_value (s + 7) bs = Some v \<and> w = (a OR ?a) OR v \<and>
          j = int (Suc i + length bs))"
        using True less.prems by (intro less.hyps) auto
      moreover have "(\<exists>bs post v. drop i d = bs @ post \<and> varint_value s bs = Some v \<and> w = a OR v \<and>
          j = int (i + length bs)) \<longleftrightarrow>
        (\<exists>bs post v. drop (Suc i) d = bs @ post \<and> varint_value (s + 7) bs = Some v \<and> w = (a OR ?a) OR v \<and>
          j = int (Suc i + length bs))" (is "?L \<longleftrightarrow> ?R")
      proof
        assume ?L
        then obtain bs post v where b: "drop i d = bs @ post" "varint_value s bs = Some v" "w = a OR v"
          "j = int (i + length bs)" by blast
        then obtain cs where "bs = ?b # cs" using d by (cases bs) auto
        moreover from this obtain z where "varint_value (s + 7) cs = Some z" "v = ?a OR z"
          using b(2) high True by auto
        ultimately show ?R
          using b d by (intro exI [of _ cs] exI [of _ post] exI [of _ z]) (auto simp: or.assoc)
      next
        assume ?R
        then obtain bs post v where "drop (Suc i) d = bs @ post" "varint_value (s + 7) bs = Some v"
          "w = (a OR ?a) OR v" "j = int (Suc i + length bs)" by blast
        then show ?L using d high True by (intro exI [of _ "?b # bs"] exI [of _ post] exI [of _ "?a OR v"])
            (auto simp: or.assoc)
      qed
      ultimately show ?thesis unfolding r using high by simp
    qed
  qed
qed

lemma readVarint_iff:
  "fits d \<Longrightarrow> readVarint f d (int i) = Ok (w, j) \<longleftrightarrow>
     (\<exists>bs post. drop i d = bs @ post \<and> varint_value 0 bs = Some w \<and> j = int (i + length bs))"
  by (auto simp: read_varint_iff)

lemma readVarint_value:
  "fits d \<Longrightarrow> drop i d = bs @ post \<Longrightarrow> varint_value 0 bs = Some w \<Longrightarrow>
   readVarint f d (int i) = Ok (w, int (i + length bs))"
  using readVarint_iff by blast

section \<open>Passing over a field\<close>

text \<open>A sum of positions that is not negative and stays in the slice has not wrapped.\<close>

lemma int64_position:
  "0 \<le> i \<Longrightarrow> i \<le> go_len d \<Longrightarrow> 0 \<le> x \<Longrightarrow> x < 2 ^ 63 \<Longrightarrow> \<not> int64 (i + x) < 0 \<Longrightarrow> int64 (i + x) = i + x"
  using go_len_less [of d] by (intro int64_add_nonneg) auto

lemma drop_split: "i + n \<le> length d \<Longrightarrow> \<exists>b. drop i d = b @ drop (i + n) d \<and> length b = n"
  by (metis add.commute add_leD2 append_take_drop_id drop_drop le_diff_conv2 length_drop length_take min_absorb2)

lemma skip_switch_sound:
  assumes "skip_switch f d (int m) k wt = Ok (j, k')" "\<not> j < 0" "j \<le> int (length d)" "m \<le> length d" "fits d"
  obtains (scalar) p b post where "k' = k" "scalar wt p b" "drop m d = b @ post" "j = int (m + length b)"
    | (opened) "wt = 3" "k' = Suc k" "j = int m"
    | (closed) "wt = 4" "k = Suc k'" "j = int m"
proof -
  note len = go_len_fits [OF assms(5)]
  have fixed: "\<exists>b post. length b = n \<and> drop m d = b @ post \<and> j = int (m + length b)"
    if "j = int64 (int m + int n)" "int n < 2 ^ 63" for n
    using that assms int64_position [of "int m" d "int n"] drop_split [of m n d] len by force
  consider "wt = 0" | "wt = 1" | "wt = 2" | "wt = 3" | "wt = 4" | "wt = 5"
    using assms(1) by (auto simp: skip_switch_def split: if_splits)
  then show ?thesis
  proof cases
    case 1
    with assms(1) obtain w where "k' = k" "readVarint f d (int m) = Ok (w, j)"
      by (auto simp: skip_switch_def outcome_simps pass_varint_read [where a = 0])
    then show ?thesis using 1 scalar assms(5) by (force simp: readVarint_iff scalar_def)
  next
    case 2
    with assms(1) show ?thesis using fixed [of 8] scalar by (force simp: skip_switch_def scalar_def)
  next
    case 3
    with assms(1) obtain v i where v: "k' = k" "readVarint f d (int m) = Ok (v, i)" "0 \<le> sint v"
        "j = int64 (i + sint v)"
      by (auto simp: skip_switch_def outcome_simps split: if_splits)
    then obtain ls post where ls: "drop m d = ls @ post" "varint_value 0 ls = Some v" "i = int (m + length ls)"
      using assms(5) by (auto simp: readVarint_iff)
    have "i \<le> go_len d" using read_varint_bounds [OF v(2)] by simp
    then have j: "j = i + sint v"
      using v assms(2) int64_position [of i d "sint v"] ls(3) sint_u64_less [of v] by auto
    have "int (m + length ls + nat (sint v)) \<le> int (length d)" using assms(3) j ls(3) v(3) by simp
    then have "m + length ls + nat (sint v) \<le> length d" by (simp only: of_nat_le_iff)
    then obtain p where p: "drop (m + length ls) d = p @ drop (m + length ls + nat (sint v)) d"
        "length p = nat (sint v)"
      using drop_split by blast
    have "drop m d = (ls @ p) @ drop (m + length ls + nat (sint v)) d"
      using ls(1) p(1) drop_appendD [OF ls(1)] by simp
    then show ?thesis
      using 3 v j ls p by (intro scalar [of p "ls @ p"]) (auto simp: scalar_def)
  next
    case 4
    with assms(1) show ?thesis using opened by (auto simp: skip_switch_def)
  next
    case 5
    with assms(1) show ?thesis using closed by (auto simp: skip_switch_def split: if_splits)
  next
    case 6
    with assms(1) show ?thesis using fixed [of 4] scalar by (force simp: skip_switch_def scalar_def)
  qed
qed

lemma closing_item: "wire_item w p bs \<Longrightarrow> 0 < k \<Longrightarrow> closing k r \<Longrightarrow> closing k (bs @ r)"
  by (cases k) (auto intro: more, metis append.assoc more)

text \<open>
  What the loop has read when it returns within the slice: one field, or all that closes the groups
  that were open. The tag is that of the first field.
\<close>

lemma skip_loop_sound:
  "skip_loop f d i k = Ok n \<Longrightarrow> 0 \<le> i \<Longrightarrow> n \<le> int (length d) \<Longrightarrow> fits d \<Longrightarrow>
   \<exists>bs post. drop (nat i) d = bs @ post \<and> n = i + int (length bs) \<and>
     (if k = 0 then \<exists>w p. wire_item w p bs else closing k bs)"
proof (induction f d i k rule: skip_loop.induct)
  case (1 f d i k)
  from "1.prems"(1) obtain w m j k' where s: "i < go_len d" "readVarint f d i = Ok (w, m)"
      "skip_switch f d m k (uint (w AND 0x7)) = Ok (j, k')" "\<not> j < 0"
      "if k' = 0 then j = n else skip_loop f d j k' = Ok n"
    by (subst (asm) skip_loop.simps) (auto simp: outcome_simps split: if_splits)
  obtain i' where i': "i = int i'" using "1.prems"(2) by (rule nonneg_eq_int)
  obtain ts post where ts: "drop i' d = ts @ post" "varint_value 0 ts = Some w" "m = int (i' + length ts)"
    using s(2) "1.prems"(4) by (auto simp: i' readVarint_iff)
  let ?m = "i' + length ts"
  have m: "?m \<le> length d"
    using drop_eq_boundsD [OF ts(1)] varint_value_ne [OF ts(2)] by simp
  have jn: "j \<le> n" using s(5) skip_loop_progress [of f d j k' n] by (auto split: if_splits)
  have dm: "drop ?m d = post" using drop_appendD [OF ts(1)] by simp
  text \<open>the rest, which closes the groups open after this field\<close>
  have rest: "\<exists>r post'. drop (nat j) d = r @ post' \<and> n = j + int (length r) \<and> closing k' r"
  proof (cases "k' = 0")
    case True
    then show ?thesis using s(5) by auto
  next
    case False
    then show ?thesis using "1.IH" [OF _ s(2) refl s(3) refl s(4) False] s "1.prems"(3,4) by auto
  qed
  then obtain r post' where r: "drop (nat j) d = r @ post'" "n = j + int (length r)" "closing k' r"
    by blast
  have wt: "uint (w AND 0x7) = wire_type w" by (simp add: wire_type_def)
  have "j \<le> int (length d)" using jn "1.prems"(3) by simp
  from s(3) [unfolded ts(3) wt] s(4) this m "1.prems"(4) show ?case
  proof (cases rule: skip_switch_sound)
    case (scalar p b q)
    then have it: "wire_item w p (ts @ b)" using ts(2) by (auto intro: one)
    have "drop (nat j) d = q"
      using drop_appendD [OF scalar(3)] unfolding scalar(4) nat_int by blast
    then have d: "drop i' d = (ts @ b @ r) @ post'" using ts(1) dm scalar(3) r(1) by simp
    have "if k = 0 then \<exists>w p. wire_item w p (ts @ b @ r) else closing k (ts @ b @ r)"
      using it closing_item [OF it, of k r] r(3) scalar(1) by (cases "k = 0") (simp, blast, simp)
    then show ?thesis using d r(2) scalar(4) unfolding i'
      by (intro exI [of _ "ts @ b @ r"] exI [of _ post']) simp
  next
    case opened
    then obtain g r' where g: "r = g @ r'" "group_body g" "closing k r'" using r(3) by auto
    then have it: "wire_item w g (ts @ g)" using ts(2) opened by (auto intro: group)
    have d: "drop i' d = (ts @ r) @ post'" using ts(1) dm r(1) unfolding opened(3) nat_int by simp
    have "if k = 0 then \<exists>w p. wire_item w p (ts @ r) else closing k (ts @ r)"
      using it closing_item [OF it, of k r'] g by (cases "k = 0") (simp, blast, simp)
    then show ?thesis using d r(2) opened(3) unfolding i'
      by (intro exI [of _ "ts @ r"] exI [of _ post']) simp
  next
    case closed
    have "closing k (ts @ r)" using closed ts(2) r(3) by (auto intro: close)
    moreover have "drop i' d = (ts @ r) @ post'" using ts(1) dm r(1) unfolding closed(3) nat_int by simp
    ultimately show ?thesis using r(2) closed(2,3) unfolding i'
      by (intro exI [of _ "ts @ r"] exI [of _ post']) simp
  qed
qed

text \<open>Conversely, the loop passes over any field and closes any group.\<close>

lemma skip_switch_scalar:
  assumes "scalar wt p b" "drop m d = b @ post" "fits d"
  shows "skip_switch f d (int m) k wt = Ok (int (m + length b), k)"
proof -
  have "length (drop m d) = length b + length post" using assms(2) by simp
  then have le: "m + length b \<le> length d \<or> b = []" by (cases b) auto
  then have id: "b \<noteq> [] \<Longrightarrow> int64 (int (m + length b)) = int (m + length b)"
    using fits_int64 [OF assms(3), of "int (m + length b)"] by auto
  from assms(1) consider v where "wt = 0" "varint_value 0 b = Some v"
    | "wt = 1" "length b = 8" | "wt = 5" "length b = 4"
    | ls v where "wt = 2" "varint_value 0 ls = Some v" "sint v = int (length p)" "b = ls @ p"
    by (auto simp: scalar_def)
  then show ?thesis
  proof cases
    case 1
    then show ?thesis
      using readVarint_value [OF assms(3,2)] by (simp add: skip_switch_def pass_varint_read [where a = 0])
  next
    case 2
    then have "b \<noteq> []" by auto
    with 2 id show ?thesis by (simp add: skip_switch_def)
  next
    case 3
    then have "b \<noteq> []" by auto
    with 3 id show ?thesis by (simp add: skip_switch_def)
  next
    case 4
    then have "b \<noteq> []" using varint_value_ne by auto
    with 4 id show ?thesis
      using readVarint_value [OF assms(3), of m ls "p @ post"] assms(2)
      by (simp add: skip_switch_def add.assoc)
  qed
qed

lemma skip_loop_step:
  assumes "drop i d = ts @ post" "varint_value 0 ts = Some w" "fits d"
  shows "skip_loop f d (int i) k =
    chain (skip_switch f d (int (i + length ts)) k (wire_type w))
      (\<lambda>(j, k'). if j < 0 then Err (ErrInvalidLength f) else if k' = 0 then Ok j else skip_loop f d j k')"
  using readVarint_value [OF assms(3,1,2), of f] drop_eq_boundsD [OF assms(1) varint_value_ne [OF assms(2)]]
    assms(3)
  by (subst skip_loop.simps) (simp add: go_len_fits wire_type_def)

lemma skip_loop_complete:
  "wire_item w p bs \<Longrightarrow> fits d \<Longrightarrow> drop i d = bs @ post \<Longrightarrow>
     skip_loop f d (int i) k =
       (let j = int (i + length bs) in if k = 0 then Ok j else skip_loop f d j k)"
  "group_body g \<Longrightarrow> fits d \<Longrightarrow> drop i d = g @ post \<Longrightarrow>
     skip_loop f d (int i) (Suc k) =
       (let j = int (i + length g) in if k = 0 then Ok j else skip_loop f d j k)"
proof (induction w p bs and g arbitrary: i post k and i post k rule: wire_item_group_body.inducts)
  case (one ts w p b)
  have d: "drop i d = ts @ b @ post" using one.prems by simp
  show ?case
    using skip_loop_step [OF d one.hyps(1) one.prems(1), of f k]
      skip_switch_scalar [OF one.hyps(2) drop_appendD [OF d, THEN conjunct1] one.prems(1), of f k]
    by (simp add: Let_def add.assoc)
next
  case (group ts w g)
  have d: "drop i d = ts @ g @ post" using group.prems by simp
  show ?case
    using skip_loop_step [OF d group.hyps(1) group.prems(1), of f k] group.hyps(2)
      group.IH [OF group.prems(1) drop_appendD [OF d, THEN conjunct1]]
    by (simp add: skip_switch_def Let_def add.assoc)
next
  case (close ts w)
  then show ?case
    using skip_loop_step [OF close.prems(2) close.hyps(1) close.prems(1), of f "Suc k"]
    by (simp add: skip_switch_def Let_def)
next
  case (more w p bs g)
  have d: "drop i d = bs @ g @ post" using more.prems by simp
  show ?case
    using more.IH(1) [OF more.prems(1) d, of "Suc k"]
      more.IH(2) [OF more.prems(1) drop_appendD [OF d, THEN conjunct1]]
    by (simp add: Let_def add.assoc)
qed

lemma skip_iff:
  assumes "fits d" "n \<le> int (length d)"
  shows "skip f d = Ok n \<longleftrightarrow>
    (\<exists>w p bs post. wire_item w p bs \<and> d = bs @ post \<and> n = int (length bs))"
proof
  assume "skip f d = Ok n"
  from skip_loop_sound [OF this [unfolded skip_def] _ assms(2,1)]
  show "\<exists>w p bs post. wire_item w p bs \<and> d = bs @ post \<and> n = int (length bs)" by auto
next
  assume "\<exists>w p bs post. wire_item w p bs \<and> d = bs @ post \<and> n = int (length bs)"
  then obtain w p bs post where b: "wire_item w p bs" "d = bs @ post" "n = int (length bs)" by blast
  from skip_loop_complete(1) [OF b(1) assms(1), of 0 post f 0] b(2,3) show "skip f d = Ok n"
    by (simp add: skip_def)
qed

lemma item_le: "wire_item w p bs \<Longrightarrow> d = bs @ post \<Longrightarrow> int (length bs) \<le> int (length d)"
  by simp

lemma skip_within_iff:
  assumes "fits d"
  shows "skip f d = Ok n \<and> n \<le> int (length d) \<longleftrightarrow>
    (\<exists>w p bs post. wire_item w p bs \<and> d = bs @ post \<and> n = int (length bs))"
  using skip_iff [OF assms, of n f] item_le [of _ _ _ d] by blast

text \<open>The grammar contains the fields of canonical encoding.\<close>

lemma enc_field_item:
  assumes "field_ok x" "fits (enc_field x)"
  shows "\<exists>w p. wire_item w p (enc_field x)"
proof -
  have "skip TxPB (enc_field x) = Ok (int (length (enc_field x)))"
    using skip_field [of x "[]" TxPB] assms by simp
  then obtain w p bs post where "wire_item w p bs" "enc_field x = bs @ post" "length (enc_field x) = length bs"
    using skip_iff [OF assms(2)] by auto
  then show ?thesis by auto
qed

section \<open>Reading a message\<close>

text \<open>
  The meaning of a sequence of fields for a message: a field that is not known is ignored, one that is
  known has wire type 2, and its contents are a string or the bytes of an embedded message.
\<close>

definition apply_wire ::
  "'m field_table \<Rightarrow> u64 \<Rightarrow> bytes \<Rightarrow> 'm \<Rightarrow> 'm \<times> (wire_error, unit) outcome" where
  "apply_wire fields w p m =
     (case fields (field_num w) of
        None \<Rightarrow> (m, Ok ())
      | Some k \<Rightarrow>
          if wire_type w \<noteq> 2 then (m, Err (ErrWrongWireType (wire_type w) (field_name k)))
          else (case k of StrField n put \<Rightarrow> (put (string_of p) m, Ok ()) | MsgField n um \<Rightarrow> um p m))"

fun wire_interp ::
  "'m field_table \<Rightarrow> (u64 \<times> bytes) list \<Rightarrow> 'm \<Rightarrow> 'm \<times> (wire_error, unit) outcome" where
  "wire_interp fields [] m = (m, Ok ())"
| "wire_interp fields ((w, p) # xs) m = 
     (case apply_wire fields w p m of
        (m', Ok u) \<Rightarrow> wire_interp fields xs m'
      | (m', Err e) \<Rightarrow> (m', Err e)
      | (m', Panic q) \<Rightarrow> (m', Panic q))"

lemma item_tag: "wire_item w p bs \<Longrightarrow> \<exists>ts b. bs = ts @ b \<and> varint_value 0 ts = Some w"
  by (cases rule: wire_item.cases) auto

lemma item_type: "wire_item w p bs \<Longrightarrow> wire_type w \<noteq> 4"
  by (cases rule: wire_item.cases) (auto simp: scalar_def)

lemma item_ne: "wire_item w p bs \<Longrightarrow> bs \<noteq> []"
  using item_tag varint_value_ne by blast

lemma item_delimited:
  "wire_item w p bs \<Longrightarrow> wire_type w = 2 \<Longrightarrow>
   \<exists>ts ls v. bs = ts @ ls @ p \<and> varint_value 0 ts = Some w \<and> varint_value 0 ls = Some v \<and> sint v = int (length p)"
  by (cases rule: wire_item.cases) (auto simp: scalar_def)

lemma read_delimited_sound:
  assumes "read_delimited f d (int m) = Ok (p, j)" "fits d"
  shows "\<exists>ls v post. drop m d = ls @ p @ post \<and> varint_value 0 ls = Some v \<and> sint v = int (length p) \<and>
    j = int (m + length ls + length p)"
proof -
  from assms(1) obtain v i where v: "readVarint f d (int m) = Ok (v, i)" "0 \<le> sint v"
      "j = int64 (i + sint v)" "\<not> j < 0" "\<not> go_len d < j" "slice d i j = (Ok p :: (wire_error, bytes) outcome)"
    by (auto simp: read_delimited_def outcome_simps Let_def split: if_splits)
  then obtain ls post where ls: "drop m d = ls @ post" "varint_value 0 ls = Some v" "i = int (m + length ls)"
    using assms(2) by (auto simp: readVarint_iff)
  have "i \<le> go_len d" "0 \<le> i" using read_varint_bounds [OF v(1)] by simp_all
  then have j: "j = i + sint v"
    using v(2-4) int64_position [of i d "sint v"] sint_u64_less [of v] by auto
  then have p: "p = take (nat (sint v)) (drop (m + length ls) d)" "j \<le> int (length d)"
    using v(2,6) ls(3) by (auto simp: slice_def nat_add_distrib split: if_splits)
  then have "length p = nat (sint v)" using j ls(3) v(2) by auto
  moreover have "drop (m + length ls) d = p @ drop (nat (sint v)) (drop (m + length ls) d)"
    unfolding p(1) by (rule append_take_drop_id [symmetric])
  ultimately show ?thesis
    using ls v(2) j drop_appendD [OF ls(1)]
    by (intro exI [of _ ls] exI [of _ v] exI [of _ "drop (nat (sint v)) (drop (m + length ls) d)"]) simp
qed

lemma read_delimited_complete:
  assumes "drop m d = ls @ p @ post" "varint_value 0 ls = Some v" "sint v = int (length p)" "fits d"
  shows "read_delimited f d (int m) = Ok (p, int (m + length ls + length p))"
proof -
  have le: "m + length ls + length p \<le> length d"
    using drop_eq_boundsD [of m d "ls @ p" post] assms(1) varint_value_ne [OF assms(2)] by simp
  have "int64 (int (m + length ls) + sint v) = int (m + length ls + length p)"
    using fits_int64 [OF assms(4), of "int (m + length ls + length p)"] le assms(3) by simp
  moreover have "slice d (int (m + length ls)) (int (m + length ls + length p)) = (Ok p :: (wire_error, bytes) outcome)"
    using le drop_appendD [OF assms(1)] by (simp add: nat_add_distrib)
  ultimately show ?thesis
    using readVarint_value [OF assms(4,1,2), of f] le assms(3)
    by (simp add: read_delimited_def go_len_fits [OF assms(4)])
qed

lemma skip_unknown_iff:
  assumes "fits d" "i < length d"
  shows "skip_unknown f d (int i) = Ok j \<longleftrightarrow>
    (\<exists>w p bs post. wire_item w p bs \<and> drop i d = bs @ post \<and> j = int (i + length bs))"
proof -
  have f: "fits (drop i d)" using assms(1) by (rule fits_mono) simp
  have sl: "slice d (int i) (go_len d) = (Ok (drop i d) :: (wire_error, bytes) outcome)"
    using assms slice_to_end [of i d] by (simp add: go_len_fits)
  have u: "skip_unknown f d (int i) = chain (skip f (drop i d))
      (\<lambda>n. if n < 0 \<or> int64 (int i + n) < 0 then Err (ErrInvalidLength f)
         else if int64 (int i + n) > go_len d then Err ErrUnexpectedEOF else Ok (int64 (int i + n)))"
    by (simp add: skip_unknown_def sl)
  show ?thesis
  proof
    assume "skip_unknown f d (int i) = Ok j"
    then obtain n where n: "skip f (drop i d) = Ok n" "j = int64 (int i + n)" "\<not> j < 0" "j \<le> int (length d)"
      using assms(1) by (auto simp: u outcome_simps go_len_fits split: if_splits)
    have "0 < n" "n < 2 ^ 63"
      using skip_pos [OF n(1)] skip_loop_less [of f "drop i d" 0 0 n] n(1) by (auto simp: skip_def)
    then have j: "j = int i + n"
      using n(2,3) int64_position [of "int i" d n] assms by (simp add: go_len_fits)
    then have "n \<le> int (length (drop i d))" using n(4) assms(2) by simp
    from skip_iff [OF f this] n(1) obtain w p bs post where
      "wire_item w p bs" "drop i d = bs @ post" "n = int (length bs)" by blast
    then show "\<exists>w p bs post. wire_item w p bs \<and> drop i d = bs @ post \<and> j = int (i + length bs)"
      using j by (intro exI [of _ w] exI [of _ p] exI [of _ bs] exI [of _ post]) simp
  next
    assume "\<exists>w p bs post. wire_item w p bs \<and> drop i d = bs @ post \<and> j = int (i + length bs)"
    then obtain w p bs post where b: "wire_item w p bs" "drop i d = bs @ post" "j = int (i + length bs)" by blast
    have le: "i + length bs \<le> length d" using drop_eq_boundsD [OF b(2) item_ne [OF b(1)]] by simp
    have "skip f (drop i d) = Ok (int (length bs))"
      using skip_iff [OF f, of "int (length bs)"] b(1,2) by auto
    moreover have "int64 (int i + int (length bs)) = int (i + length bs)"
      using fits_int64 [OF assms(1), of "int (i + length bs)"] le by simp
    ultimately show "skip_unknown f d (int i) = Ok j"
      using le b(3) assms(1) by (simp add: u go_len_fits)
  qed
qed

lemma item_reads:
  assumes "fits d" "wire_item w p bs" "drop i d = bs @ post"
  shows "\<exists>k. readVarint f d (int i) = Ok (w, k)"
proof -
  from item_tag [OF assms(2)] obtain ts b where t: "bs = ts @ b" "varint_value 0 ts = Some w" by blast
  show ?thesis using readVarint_value [OF assms(1) _ t(2), of i "b @ post" f] assms(3) t(1) by auto
qed

text \<open>One turn of the loop of \<open>Unmarshal\<close> reads one field, whatever the message.\<close>

lemma unmarshal_field_iff:
  assumes "fits d" "i < length d"
  shows "unmarshal_field f name fields d (int i) m = (m', Ok j) \<longleftrightarrow>
    (\<exists>w p bs post. drop i d = bs @ post \<and> wire_item w p bs \<and> 0 < field_num w \<and>
       apply_wire fields w p m = (m', Ok ()) \<and> j = int (i + length bs))" (is "_ \<longleftrightarrow> ?item")
proof (cases "readVarint f d (int i)")
  case (Ok r)
  obtain w k where "r = (w, k)" by force
  with Ok obtain ts rest where ts: "drop i d = ts @ rest" "varint_value 0 ts = Some w"
      and rd: "readVarint f d (int i) = Ok (w, int (i + length ts))"
    using assms(1) by (auto simp: readVarint_iff)
  have tag: "w' = w" if "wire_item w' p bs" "drop i d = bs @ post" for w' p bs post
    using item_reads [OF assms(1) that, of f] rd by simp
  show ?thesis
  proof (cases "wire_type w = 4 \<or> field_num w \<le> 0")
    case True
    then have "\<not> ?item" using tag item_type by fastforce
    moreover have "unmarshal_field f name fields d (int i) m \<noteq> (m', Ok j)"
      using True rd by (auto simp: unmarshal_field_def Let_def)
    ultimately show ?thesis by blast
  next
    case known: False
    show ?thesis
    proof (cases "fields (field_num w)")
      case None
      then have "unmarshal_field f name fields d (int i) m = (m, skip_unknown f d (int i))"
        using known rd by (simp add: unmarshal_field_def Let_def)
      moreover have "?item \<longleftrightarrow> m' = m \<and>
          (\<exists>w p bs post. wire_item w p bs \<and> drop i d = bs @ post \<and> j = int (i + length bs))"
        using tag known None by (fastforce simp: apply_wire_def)
      ultimately show ?thesis using skip_unknown_iff [OF assms, of f j] by auto
    next
      case (Some kind)
      show ?thesis
      proof (cases "wire_type w = 2")
        case False
        then have "\<not> ?item" using tag Some by (fastforce simp: apply_wire_def)
        then show ?thesis using False known rd Some by (auto simp: unmarshal_field_def Let_def)
      next
        case True
        let ?k = "i + length ts"
        have u: "unmarshal_field f name fields d (int i) m = (m', Ok j) \<longleftrightarrow>
            (\<exists>p. read_delimited f d (int ?k) = Ok (p, j) \<and> apply_wire fields w p m = (m', Ok ()))"
          using True known rd Some
          by (cases "read_delimited f d (int ?k)")
            (auto simp: unmarshal_field_def apply_wire_def Let_def outcome_simps
              split: field_kind.splits prod.splits)
        show ?thesis
        proof
          assume "unmarshal_field f name fields d (int i) m = (m', Ok j)"
          then obtain p where p: "read_delimited f d (int ?k) = Ok (p, j)" "apply_wire fields w p m = (m', Ok ())"
            using u by blast
          from read_delimited_sound [OF p(1) assms(1)] obtain ls v post where
            l: "drop ?k d = ls @ p @ post" "varint_value 0 ls = Some v" "sint v = int (length p)"
              "j = int (?k + length ls + length p)" by blast
          have "wire_item w p (ts @ ls @ p)" using ts(2) l True by (intro one) (auto simp: scalar_def)
          moreover have "drop i d = (ts @ ls @ p) @ post" using ts(1) l(1) drop_appendD [OF ts(1)] by simp
          ultimately show ?item using p(2) l(4) known
            by (intro exI [of _ w] exI [of _ p] exI [of _ "ts @ ls @ p"] exI [of _ post]) auto
        next
          assume ?item
          then obtain p bs post where b: "drop i d = bs @ post" "wire_item w p bs"
              "apply_wire fields w p m = (m', Ok ())" "j = int (i + length bs)"
            using tag by blast
          from item_delimited [OF b(2) True] obtain ts' ls v where l: "bs = ts' @ ls @ p"
              "varint_value 0 ts' = Some w" "varint_value 0 ls = Some v" "sint v = int (length p)" by blast
          have "length ts' = length ts"
            using readVarint_value [OF assms(1) _ l(2), of i "ls @ p @ post" f] b(1) l(1) rd by simp
          moreover have "drop (i + length ts') d = ls @ p @ post"
            using drop_appendD [of i d ts' "ls @ p @ post"] b(1) l(1) by simp
          ultimately have "read_delimited f d (int ?k) = Ok (p, j)"
            using read_delimited_complete [OF _ l(3,4) assms(1), of ?k post f] b(4) l(1)
            by (simp add: add.assoc)
          then show "unmarshal_field f name fields d (int i) m = (m', Ok j)" using u b(3) by blast
        qed
      qed
    qed
  qed
next
  case (Err e)
  then have "\<not> ?item" using item_reads [OF assms(1)] by (metis outcome.distinct(1))
  then show ?thesis using Err by (simp add: unmarshal_field_def)
next
  case (Panic q)
  then have "\<not> ?item" using item_reads [OF assms(1)] by (metis outcome.distinct(3))
  then show ?thesis using Panic by (simp add: unmarshal_field_def)
qed

text \<open>
  The whole loop: success means that the bytes are a sequence of fields with positive numbers, and the
  receiver is what the meaning of the fields makes of it; and every such sequence is accepted.
\<close>

definition numbered :: "(u64 \<times> bytes) list \<Rightarrow> bool" where
  "numbered xs \<longleftrightarrow> list_all (\<lambda>(w, p). 0 < field_num w) xs"

lemma unmarshal_loop_iff:
  "fits d \<Longrightarrow> i \<le> length d \<Longrightarrow>
   unmarshal_loop f name fields d (int i) m = (m', Ok ()) \<longleftrightarrow>
     (\<exists>xs. wire_fields xs (drop i d) \<and> numbered xs \<and> wire_interp fields xs m = (m', Ok ()))"
proof (induction "length d - i" arbitrary: i m rule: less_induct)
  case less
  show ?case
  proof (cases "i < length d")
    case False
    then have "wire_fields xs (drop i d) \<longleftrightarrow> xs = []" for xs
      using item_ne by (cases xs) (auto simp: wire_fields_simps)
    then show ?thesis
      using False less.prems by (subst unmarshal_loop.simps) (auto simp: go_len_fits numbered_def)
  next
    case True
    obtain m1 r where mr: "unmarshal_field f name fields d (int i) m = (m1, r)" by force
    have step: "unmarshal_loop f name fields d (int i) m = (m', Ok ()) \<longleftrightarrow>
        (\<exists>j. r = Ok j \<and> unmarshal_loop f name fields d j m1 = (m', Ok ()))"
      using True less.prems(1) mr by (subst unmarshal_loop.simps) (auto simp: go_len_fits split: outcome.split)
    show ?thesis
    proof
      assume "unmarshal_loop f name fields d (int i) m = (m', Ok ())"
      then obtain j where j: "r = Ok j" "unmarshal_loop f name fields d j m1 = (m', Ok ())"
        using step by blast
      from unmarshal_field_iff [OF less.prems(1) True, of f name fields m m1 j] mr j(1)
      obtain w p bs post where b: "drop i d = bs @ post" "wire_item w p bs" "0 < field_num w"
          "apply_wire fields w p m = (m1, Ok ())" "j = int (i + length bs)" by auto
      have le: "i + length bs \<le> length d" "0 < length bs"
        using drop_eq_boundsD [OF b(1) item_ne [OF b(2)]] item_ne [OF b(2)] by simp_all
      have lt: "length d - (i + length bs) < length d - i" using le True by linarith
      obtain xs where "wire_fields xs (drop (i + length bs) d)" "numbered xs"
          "wire_interp fields xs m1 = (m', Ok ())"
        using less.hyps [OF lt less.prems(1) le(1), of m1] j(2) unfolding b(5) by blast
      then show "\<exists>xs. wire_fields xs (drop i d) \<and> numbered xs \<and> wire_interp fields xs m = (m', Ok ())"
        using b drop_appendD [OF b(1)]
        by (intro exI [of _ "(w, p) # xs"]) (auto simp: numbered_def intro: field)
    next
      assume "\<exists>xs. wire_fields xs (drop i d) \<and> numbered xs \<and> wire_interp fields xs m = (m', Ok ())"
      then obtain xs where x: "wire_fields xs (drop i d)" "numbered xs" "wire_interp fields xs m = (m', Ok ())"
        by blast
      then obtain w p ys bs post where b: "xs = (w, p) # ys" "drop i d = bs @ post" "wire_item w p bs"
          "wire_fields ys post"
        using True by (cases xs) (auto simp: wire_fields_simps)
      obtain m2 u where m2: "apply_wire fields w p m = (m2, Ok u)" "wire_interp fields ys m2 = (m', Ok ())"
        using x(3) b(1) by (auto split: prod.splits outcome.splits)
      have le: "i + length bs \<le> length d" "0 < length bs"
        using drop_eq_boundsD [OF b(2) item_ne [OF b(3)]] item_ne [OF b(3)] by simp_all
      have lt: "length d - (i + length bs) < length d - i" using le True by linarith
      have "unmarshal_field f name fields d (int i) m = (m2, Ok (int (i + length bs)))"
        unfolding unmarshal_field_iff [OF less.prems(1) True] using b m2(1) x(2)
        by (intro exI [of _ w] exI [of _ p] exI [of _ bs] exI [of _ post]) (simp add: numbered_def)
      then have "r = Ok (int (i + length bs))" "m1 = m2" using mr by simp_all
      moreover have "unmarshal_loop f name fields d (int (i + length bs)) m2 = (m', Ok ())"
        using less.hyps [OF lt less.prems(1) le(1), of m2] b m2(2) x(2) drop_appendD [OF b(2)]
        by (auto simp: numbered_def)
      ultimately show "unmarshal_loop f name fields d (int i) m = (m', Ok ())" using step by blast
    qed
  qed
qed

lemma unmarshal_iff:
  "fits d \<Longrightarrow> unmarshal f name fields d m = (m', Ok ()) \<longleftrightarrow>
     (\<exists>xs. wire_fields xs d \<and> numbered xs \<and> wire_interp fields xs m = (m', Ok ()))"
  using unmarshal_loop_iff [of d 0 f name fields m m'] by (simp add: unmarshal_def)

text \<open>The bytes that are a message at all, whatever its fields mean.\<close>

definition well_formed :: "bytes \<Rightarrow> bool" where
  "well_formed d \<longleftrightarrow> (\<exists>xs. wire_fields xs d \<and> numbered xs)"

lemma wire_interp_unknown: "(\<forall>n. fields n = None) \<Longrightarrow> wire_interp fields xs m = (m, Ok ())"
  by (induction xs) (auto simp: apply_wire_def)

lemma unmarshal_empty_iff:
  "fits d \<Longrightarrow> unmarshal f name (\<lambda>n. None) d m = (m', Ok ()) \<longleftrightarrow> m' = m \<and> well_formed d"
  by (auto simp: unmarshal_iff wire_interp_unknown well_formed_def)

text \<open>The contents of an item are no longer than its bytes.\<close>

lemma item_length:
  "wire_item w p bs \<Longrightarrow> length p \<le> length bs" "group_body g \<Longrightarrow> True"
  by (induction rule: wire_item_group_body.inducts) (auto simp: scalar_def)

lemma message_length: "wire_fields xs d \<Longrightarrow> (w, p) \<in> set xs \<Longrightarrow> length p \<le> length d"
  by (induction rule: wire_fields.induct) (auto dest: item_length(1))

end
