(* ===== verification/Wire_Language.thy ===== *)
theory Wire_Language
  imports Wire_Messages Wire_Grammar
begin

text \<open>
  The language and the meaning of each generated decoder, from the grammar of Wire_Grammar and the
  tables of Wire_Messages: which fields must be length-delimited, which of them must hold a message
  of their own, and what the receiver holds afterwards.
\<close>

text \<open>
  \<open>fields_of strs msgs xs\<close>: the fields \<open>xs\<close> have positive numbers, those with a number in \<open>strs\<close> or
  \<open>msgs\<close> are length-delimited, and the contents of those in \<open>msgs\<close> are a message.
\<close>

definition fields_of :: "int set \<Rightarrow> int set \<Rightarrow> (u64 \<times> bytes) list \<Rightarrow> bool" where
  "fields_of strs msgs xs \<longleftrightarrow>
     (\<forall>(w, p) \<in> set xs. 0 < field_num w \<and> (field_num w \<in> strs \<union> msgs \<longrightarrow> wire_type w = 2) \<and>
        (field_num w \<in> msgs \<longrightarrow> well_formed p))"

text \<open>The string that the last field with number \<open>n\<close> holds, or \<open>s\<close> when there is none.\<close>

definition last_string :: "int \<Rightarrow> (u64 \<times> bytes) list \<Rightarrow> string \<Rightarrow> string" where
  "last_string n xs s = fold (\<lambda>(w, p) a. if field_num w = n then string_of p else a) xs s"

lemma fields_of_Nil [simp]: "fields_of strs msgs []"
  by (simp add: fields_of_def)

lemma fields_of_Cons [simp]:
  "fields_of strs msgs ((w, p) # xs) \<longleftrightarrow>
     0 < field_num w \<and> (field_num w \<in> strs \<union> msgs \<longrightarrow> wire_type w = 2) \<and>
     (field_num w \<in> msgs \<longrightarrow> well_formed p) \<and> fields_of strs msgs xs"
  by (auto simp: fields_of_def)

lemma last_string_simps [simp]:
  "last_string n [] s = s"
  "last_string n ((w, p) # xs) s = last_string n xs (if field_num w = n then string_of p else s)"
  by (simp_all add: last_string_def)

text \<open>A table whose strings are put by \<open>put\<close> and whose embedded messages are all like Params.\<close>

definition table_of :: "int set \<Rightarrow> int set \<Rightarrow> (string \<Rightarrow> 'm \<Rightarrow> 'm) \<Rightarrow> 'm field_table \<Rightarrow> bool" where
  "table_of strs msgs put tbl \<longleftrightarrow> strs \<inter> msgs = {} \<and>
     (\<forall>n \<in> strs. \<exists>nm. tbl n = Some (StrField nm put)) \<and>
     (\<forall>n \<in> msgs. \<exists>nm um. tbl n = Some (MsgField nm um) \<and>
        (\<forall>p m m'. fits p \<longrightarrow> um p m = (m', Ok ()) \<longleftrightarrow> m' = m \<and> well_formed p)) \<and>
     (\<forall>n. n \<notin> strs \<longrightarrow> n \<notin> msgs \<longrightarrow> tbl n = None)"

text \<open>What such a table accepts, and what it makes of the receiver.\<close>

lemma wire_interp_iff:
  assumes "table_of strs msgs put tbl" "list_all (\<lambda>(w, p). fits p) xs" "numbered xs"
  shows "wire_interp tbl xs m = (m', Ok ()) \<longleftrightarrow>
    fields_of strs msgs xs \<and> m' = fold (\<lambda>(w, p) m. if field_num w \<in> strs then put (string_of p) m else m) xs m"
  using assms(2,3)
proof (induction xs arbitrary: m)
  case (Cons x xs)
  obtain w p where x: "x = (w, p)" by force
  have fp: "fits p" "0 < field_num w" using Cons.prems x by (auto simp: numbered_def)
  have rest: "wire_interp tbl xs m1 = (m', Ok ()) \<longleftrightarrow> fields_of strs msgs xs \<and>
      m' = fold (\<lambda>(w, p) m. if field_num w \<in> strs then put (string_of p) m else m) xs m1" for m1
    using Cons by (simp add: numbered_def)
  have ap: "apply_wire tbl w p m = (m1, Ok ()) \<longleftrightarrow>
      (field_num w \<in> strs \<union> msgs \<longrightarrow> wire_type w = 2) \<and> (field_num w \<in> msgs \<longrightarrow> well_formed p) \<and>
      m1 = (if field_num w \<in> strs then put (string_of p) m else m)" for m1
  proof -
    consider "field_num w \<in> strs" "field_num w \<notin> msgs" | "field_num w \<in> msgs" "field_num w \<notin> strs"
      | "field_num w \<notin> strs" "field_num w \<notin> msgs"
      using assms(1) unfolding table_of_def by blast
    then show ?thesis
    proof cases
      case 1
      then obtain nm where "tbl (field_num w) = Some (StrField nm put)"
        using assms(1) unfolding table_of_def by blast
      then show ?thesis using 1 by (auto simp: apply_wire_def split: if_splits)
    next
      case 2
      then obtain nm um where "tbl (field_num w) = Some (MsgField nm um)"
          "\<forall>m m'. um p m = (m', Ok ()) \<longleftrightarrow> m' = m \<and> well_formed p"
        using assms(1) fp(1) unfolding table_of_def by blast
      then show ?thesis using 2 by (auto simp: apply_wire_def)
    next
      case 3
      then show ?thesis using assms(1) by (auto simp: apply_wire_def table_of_def)
    qed
  qed
  have "wire_interp tbl (x # xs) m = (m', Ok ()) \<longleftrightarrow>
      (\<exists>m1. apply_wire tbl w p m = (m1, Ok ()) \<and> wire_interp tbl xs m1 = (m', Ok ()))"
    by (auto simp: x split: prod.splits outcome.splits)
  then show ?case unfolding ap rest using x fp(2) by (cases "field_num w \<in> strs") auto
qed auto

lemma message_fits: "wire_fields xs d \<Longrightarrow> fits d \<Longrightarrow> list_all (\<lambda>(w, p). fits p) xs"
  using message_length by (fastforce simp: list_all_iff fits_def)

lemma fields_of_numbered: "fields_of strs msgs xs \<Longrightarrow> numbered xs"
  by (auto simp: fields_of_def numbered_def list_all_iff)

text \<open>The same for the whole decoder of such a table.\<close>

lemma unmarshal_table_iff:
  assumes "table_of strs msgs put tbl" "fits d"
  shows "unmarshal f name tbl d m = (m', Ok ()) \<longleftrightarrow>
    (\<exists>xs. wire_fields xs d \<and> fields_of strs msgs xs \<and>
       m' = fold (\<lambda>(w, p) m. if field_num w \<in> strs then put (string_of p) m else m) xs m)"
proof -
  have "wire_fields xs d \<and> numbered xs \<and> wire_interp tbl xs m = (m', Ok ()) \<longleftrightarrow>
      wire_fields xs d \<and> fields_of strs msgs xs \<and>
      m' = fold (\<lambda>(w, p) m. if field_num w \<in> strs then put (string_of p) m else m) xs m" for xs
    using wire_interp_iff [OF assms(1), of xs m m'] message_fits [OF _ assms(2)] fields_of_numbered
    by blast
  then show ?thesis by (simp add: unmarshal_iff [OF assms(2)])
qed

section \<open>The decoders\<close>

lemma Params_Unmarshal_iff: "fits d \<Longrightarrow> Params_Unmarshal d p = (p', Ok ()) \<longleftrightarrow> p' = p \<and> well_formed d"
  unfolding Params_Unmarshal_def by (rule unmarshal_empty_iff)

lemma embedded_params_iff:
  assumes "\<And>m p. put m p = m"
  shows "fits p \<longrightarrow> (case Params_Unmarshal p (get m) of (q, r) \<Rightarrow> (put m q, r)) = (m', Ok ()) \<longleftrightarrow> m' = m \<and> well_formed p"
proof
  assume f: "fits p"
  obtain q u where u: "Params_Unmarshal p (get m) = (q, u)" by force
  then have "u = Ok () \<longleftrightarrow> well_formed p"
    using Params_Unmarshal_iff [OF f, of "get m"] by (metis prod.inject)
  then show "(case Params_Unmarshal p (get m) of (q, r) \<Rightarrow> (put m q, r)) = (m', Ok ()) \<longleftrightarrow> m' = m \<and> well_formed p"
    using u assms by auto
qed

lemma Params_unit: "(p :: Params) = q"
  by (cases p; cases q) simp

lemma params_field_unit:
  "m\<lparr>mup_Params := p\<rparr> = m" "g\<lparr>gs_Params := p\<rparr> = g" "q\<lparr>qpr_Params := p\<rparr> = q"
  using Params_unit [of p "mup_Params m"] Params_unit [of p "gs_Params g"] Params_unit [of p "qpr_Params q"]
  by simp_all

lemma MsgUpdateParams_Unmarshal_iff:
  assumes "fits d"
  shows "MsgUpdateParams_Unmarshal d m = (m', Ok ()) \<longleftrightarrow>
    (\<exists>xs. wire_fields xs d \<and> fields_of {1} {2} xs \<and>
       m' = m\<lparr>mup_Authority := last_string 1 xs (mup_Authority m)\<rparr>)"
proof -
  have "fold (\<lambda>(w, p) m. if field_num w \<in> {1} then m\<lparr>mup_Authority := string_of p\<rparr> else m) xs m =
      m\<lparr>mup_Authority := last_string 1 xs (mup_Authority m)\<rparr>" for xs and m :: MsgUpdateParams
    by (induction xs arbitrary: m) auto
  moreover have "MsgUpdateParams_Unmarshal d m = (m', Ok ()) \<longleftrightarrow>
    (\<exists>xs. wire_fields xs d \<and> fields_of {1} {2} xs \<and>
       m' = fold (\<lambda>(w, p) m. if field_num w \<in> {1} then m\<lparr>mup_Authority := string_of p\<rparr> else m) xs m)"
    unfolding MsgUpdateParams_Unmarshal_def
    by (rule unmarshal_table_iff [OF _ assms]) (auto simp: table_of_def MsgUpdateParams_fields_def
        embedded_params_iff [where put = "\<lambda>m p. m\<lparr>mup_Params := p\<rparr>", OF params_field_unit(1), rule_format])
  ultimately show ?thesis by simp
qed

lemma Module_Unmarshal_iff:
  assumes "fits d"
  shows "Module_Unmarshal d m = (m', Ok ()) \<longleftrightarrow>
    (\<exists>xs. wire_fields xs d \<and> fields_of {1} {} xs \<and> m' = \<lparr>mod_Authority = last_string 1 xs (mod_Authority m)\<rparr>)"
proof -
  have "fold (\<lambda>(w, p) m. if field_num w \<in> {1} then m\<lparr>mod_Authority := string_of p\<rparr> else m) xs m =
      \<lparr>mod_Authority = last_string 1 xs (mod_Authority m)\<rparr>" for xs and m :: Module
    by (induction xs arbitrary: m) auto
  moreover have "Module_Unmarshal d m = (m', Ok ()) \<longleftrightarrow>
    (\<exists>xs. wire_fields xs d \<and> fields_of {1} {} xs \<and>
       m' = fold (\<lambda>(w, p) m. if field_num w \<in> {1} then m\<lparr>mod_Authority := string_of p\<rparr> else m) xs m)"
    unfolding Module_Unmarshal_def
    by (rule unmarshal_table_iff [OF _ assms]) (auto simp: table_of_def Module_fields_def)
  ultimately show ?thesis by simp
qed

lemma fold_unchanged: "fold (\<lambda>(w, p) m. if field_num w \<in> {} then put (string_of p) m else m) xs m = m"
  by (induction xs) auto

lemma params_field_Unmarshal_iff:
  assumes "fits d"
  shows "GenesisState_Unmarshal d g = (g', Ok ()) \<longleftrightarrow> g' = g \<and> (\<exists>xs. wire_fields xs d \<and> fields_of {} {1} xs)"
    and "QueryParamsResponse_Unmarshal d q = (q', Ok ()) \<longleftrightarrow> q' = q \<and> (\<exists>xs. wire_fields xs d \<and> fields_of {} {1} xs)"
proof -
  have "GenesisState_Unmarshal d g = (g', Ok ()) \<longleftrightarrow>
    (\<exists>xs. wire_fields xs d \<and> fields_of {} {1} xs \<and>
       g' = fold (\<lambda>(w, p) m. if field_num w \<in> {} then undefined (string_of p) m else m) xs g)"
    unfolding GenesisState_Unmarshal_def
    by (rule unmarshal_table_iff [OF _ assms]) (auto simp: table_of_def GenesisState_fields_def
        embedded_params_iff [where put = "\<lambda>m p. m\<lparr>gs_Params := p\<rparr>", OF params_field_unit(2), rule_format])
  then show "GenesisState_Unmarshal d g = (g', Ok ()) \<longleftrightarrow> g' = g \<and> (\<exists>xs. wire_fields xs d \<and> fields_of {} {1} xs)"
    unfolding fold_unchanged by blast
  have "QueryParamsResponse_Unmarshal d q = (q', Ok ()) \<longleftrightarrow>
    (\<exists>xs. wire_fields xs d \<and> fields_of {} {1} xs \<and>
       q' = fold (\<lambda>(w, p) m. if field_num w \<in> {} then undefined (string_of p) m else m) xs q)"
    unfolding QueryParamsResponse_Unmarshal_def
    by (rule unmarshal_table_iff [OF _ assms]) (auto simp: table_of_def QueryParamsResponse_fields_def
        embedded_params_iff [where put = "\<lambda>m p. m\<lparr>qpr_Params := p\<rparr>", OF params_field_unit(3), rule_format])
  then show "QueryParamsResponse_Unmarshal d q = (q', Ok ()) \<longleftrightarrow>
      q' = q \<and> (\<exists>xs. wire_fields xs d \<and> fields_of {} {1} xs)"
    unfolding fold_unchanged by blast
qed

end
