(* ===== verification/Wire_Methods.thy ===== *)
theory Wire_Methods
  imports Wire_Messages
begin

text \<open>
  The methods by which the protobuf library drives a message: \<open>Reset\<close>, \<open>XXX_Size\<close> and
  \<open>XXX_Unmarshal\<close>, beside the \<open>XXX_Marshal\<close> of Wire_Messages. The library resets a receiver before it
  unmarshals into it, and marshals into a buffer that it makes from \<open>XXX_Size\<close>.

  \<open>survives\<close> is what the library needs of these methods, and holds for every message of the module.
\<close>

section \<open>The methods, message by message\<close>

definition Params_Reset :: "Params \<Rightarrow> Params" where
  "Params_Reset m = Params"

definition Params_XXX_Unmarshal ::
  "bytes \<Rightarrow> Params \<Rightarrow> Params \<times> (wire_error, unit) outcome" where
  "Params_XXX_Unmarshal b m = Params_Unmarshal b m"

definition Params_XXX_Size :: "Params option \<Rightarrow> int" where
  "Params_XXX_Size m = Params_Size m"

definition MsgUpdateParams_Reset :: "MsgUpdateParams \<Rightarrow> MsgUpdateParams" where
  "MsgUpdateParams_Reset m = MsgUpdateParams_zero"

definition MsgUpdateParams_XXX_Unmarshal ::
  "bytes \<Rightarrow> MsgUpdateParams \<Rightarrow> MsgUpdateParams \<times> (wire_error, unit) outcome" where
  "MsgUpdateParams_XXX_Unmarshal b m = MsgUpdateParams_Unmarshal b m"

definition MsgUpdateParams_XXX_Size :: "MsgUpdateParams option \<Rightarrow> int" where
  "MsgUpdateParams_XXX_Size m = MsgUpdateParams_Size m"

definition MsgUpdateParamsResponse_Reset :: "MsgUpdateParamsResponse \<Rightarrow> MsgUpdateParamsResponse" where
  "MsgUpdateParamsResponse_Reset m = MsgUpdateParamsResponse"

definition MsgUpdateParamsResponse_XXX_Unmarshal ::
  "bytes \<Rightarrow> MsgUpdateParamsResponse \<Rightarrow> MsgUpdateParamsResponse \<times> (wire_error, unit) outcome" where
  "MsgUpdateParamsResponse_XXX_Unmarshal b m = MsgUpdateParamsResponse_Unmarshal b m"

definition MsgUpdateParamsResponse_XXX_Size :: "MsgUpdateParamsResponse option \<Rightarrow> int" where
  "MsgUpdateParamsResponse_XXX_Size m = MsgUpdateParamsResponse_Size m"

definition QueryParamsRequest_Reset :: "QueryParamsRequest \<Rightarrow> QueryParamsRequest" where
  "QueryParamsRequest_Reset m = QueryParamsRequest"

definition QueryParamsRequest_XXX_Unmarshal ::
  "bytes \<Rightarrow> QueryParamsRequest \<Rightarrow> QueryParamsRequest \<times> (wire_error, unit) outcome" where
  "QueryParamsRequest_XXX_Unmarshal b m = QueryParamsRequest_Unmarshal b m"

definition QueryParamsRequest_XXX_Size :: "QueryParamsRequest option \<Rightarrow> int" where
  "QueryParamsRequest_XXX_Size m = QueryParamsRequest_Size m"

definition QueryParamsResponse_Reset :: "QueryParamsResponse \<Rightarrow> QueryParamsResponse" where
  "QueryParamsResponse_Reset m = \<lparr>qpr_Params = Params\<rparr>"

definition QueryParamsResponse_XXX_Unmarshal ::
  "bytes \<Rightarrow> QueryParamsResponse \<Rightarrow> QueryParamsResponse \<times> (wire_error, unit) outcome" where
  "QueryParamsResponse_XXX_Unmarshal b m = QueryParamsResponse_Unmarshal b m"

definition QueryParamsResponse_XXX_Size :: "QueryParamsResponse option \<Rightarrow> int" where
  "QueryParamsResponse_XXX_Size m = QueryParamsResponse_Size m"

definition GenesisState_Reset :: "GenesisState \<Rightarrow> GenesisState" where
  "GenesisState_Reset m = \<lparr>gs_Params = Params\<rparr>"

definition GenesisState_XXX_Unmarshal ::
  "bytes \<Rightarrow> GenesisState \<Rightarrow> GenesisState \<times> (wire_error, unit) outcome" where
  "GenesisState_XXX_Unmarshal b m = GenesisState_Unmarshal b m"

definition GenesisState_XXX_Size :: "GenesisState option \<Rightarrow> int" where
  "GenesisState_XXX_Size m = GenesisState_Size m"

definition Module_Reset :: "Module \<Rightarrow> Module" where
  "Module_Reset m = \<lparr>mod_Authority = []\<rparr>"

definition Module_XXX_Unmarshal ::
  "bytes \<Rightarrow> Module \<Rightarrow> Module \<times> (wire_error, unit) outcome" where
  "Module_XXX_Unmarshal b m = Module_Unmarshal b m"

definition Module_XXX_Size :: "Module option \<Rightarrow> int" where
  "Module_XXX_Size m = Module_Size m"

section \<open>What the library relies on\<close>

text \<open>
  The methods marshal the message to the bytes of its encoding, of exactly the announced size, in a
  buffer of that size whatever it held before; and unmarshalling these bytes into a receiver that was
  reset gives the message, whatever the receiver held.
\<close>

definition survives ::
  "('m option \<Rightarrow> (wire_error, bytes) outcome) \<Rightarrow> ('m option \<Rightarrow> int) \<Rightarrow>
   ('m option \<Rightarrow> bytes \<Rightarrow> bool \<Rightarrow> (wire_error, bytes) outcome) \<Rightarrow>
   (bytes \<Rightarrow> 'm \<Rightarrow> 'm \<times> (wire_error, unit) outcome) \<Rightarrow> ('m \<Rightarrow> 'm) \<Rightarrow> 'm \<Rightarrow> bool" where
  "survives marshal xxx_size xxx_marshal xxx_unmarshal reset m \<longleftrightarrow>
     (\<exists>e. marshal (Some m) = Ok e \<and> xxx_size (Some m) = int (length e) \<and>
        (\<forall>b. length b = length e \<longrightarrow> xxx_marshal (Some m) b False = Ok e) \<and>
        (\<forall>old. xxx_unmarshal e (reset old) = (m, Ok ())))"

context wire_message begin

lemma survives:
  assumes "small m" "\<And>old. reset old = zero"
  shows "survives (Marshal Size MarshalToSizedBuffer) Size (XXX_Marshal lib MarshalToSizedBuffer)
    (unmarshal pb name fields) reset m"
  unfolding survives_def
proof (intro exI conjI allI impI)
  show "Marshal Size MarshalToSizedBuffer (Some m) = Ok (enc_fields (field_list m))"
    by (rule Marshal_eq [OF assms(1)])
  show "Size (Some m) = int (length (enc_fields (field_list m)))" by (rule size [OF assms(1)])
next
  fix b :: bytes
  assume b: "length b = length (enc_fields (field_list m))"
  then have "fits b" using fits_enc [OF assms(1)] by (simp add: fits_def)
  from XXX_Marshal_eq [OF assms(1) this, of lib] b
  show "XXX_Marshal lib MarshalToSizedBuffer (Some m) b False = Ok (enc_fields (field_list m))" by simp
next
  fix old
  show "unmarshal pb name fields (enc_fields (field_list m)) (reset old) = (m, Ok ())"
    unfolding assms(2) by (rule decode [OF assms(1)])
qed

end

text \<open>The interpretations of \<open>wire_message\<close>, read with the names of the code.\<close>

lemma Params_survives:
  shows "survives Params_Marshal Params_XXX_Size (Params_XXX_Marshal lib) Params_XXX_Unmarshal Params_Reset m"
  using params.survives [where m = m and reset = Params_Reset and lib = lib] 
  by (simp add: Params_Marshal_def Params_XXX_Marshal_def Params_Unmarshal_def Params_Reset_def
      fun_eq_iff survives_def Params_XXX_Size_def Params_XXX_Unmarshal_def)

lemma MsgUpdateParams_survives:
  assumes "authority_small (mup_Authority m)"
  shows "survives MsgUpdateParams_Marshal MsgUpdateParams_XXX_Size (MsgUpdateParams_XXX_Marshal lib) MsgUpdateParams_XXX_Unmarshal MsgUpdateParams_Reset m"
  using msg_update_params.survives [where m = m and reset = MsgUpdateParams_Reset and lib = lib] assms
  by (simp add: MsgUpdateParams_Marshal_def MsgUpdateParams_XXX_Marshal_def MsgUpdateParams_Unmarshal_def MsgUpdateParams_Reset_def
      fun_eq_iff survives_def MsgUpdateParams_XXX_Size_def MsgUpdateParams_XXX_Unmarshal_def)

lemma MsgUpdateParamsResponse_survives:
  shows "survives MsgUpdateParamsResponse_Marshal MsgUpdateParamsResponse_XXX_Size (MsgUpdateParamsResponse_XXX_Marshal lib) MsgUpdateParamsResponse_XXX_Unmarshal MsgUpdateParamsResponse_Reset m"
  using msg_update_params_response.survives [where m = m and reset = MsgUpdateParamsResponse_Reset and lib = lib] 
  by (simp add: MsgUpdateParamsResponse_Marshal_def MsgUpdateParamsResponse_XXX_Marshal_def MsgUpdateParamsResponse_Unmarshal_def MsgUpdateParamsResponse_Reset_def
      fun_eq_iff survives_def MsgUpdateParamsResponse_XXX_Size_def MsgUpdateParamsResponse_XXX_Unmarshal_def)

lemma QueryParamsRequest_survives:
  shows "survives QueryParamsRequest_Marshal QueryParamsRequest_XXX_Size (QueryParamsRequest_XXX_Marshal lib) QueryParamsRequest_XXX_Unmarshal QueryParamsRequest_Reset m"
  using query_params_request.survives [where m = m and reset = QueryParamsRequest_Reset and lib = lib] 
  by (simp add: QueryParamsRequest_Marshal_def QueryParamsRequest_XXX_Marshal_def QueryParamsRequest_Unmarshal_def QueryParamsRequest_Reset_def
      fun_eq_iff survives_def QueryParamsRequest_XXX_Size_def QueryParamsRequest_XXX_Unmarshal_def)

lemma QueryParamsResponse_survives:
  shows "survives QueryParamsResponse_Marshal QueryParamsResponse_XXX_Size (QueryParamsResponse_XXX_Marshal lib) QueryParamsResponse_XXX_Unmarshal QueryParamsResponse_Reset m"
  using query_params_response.survives [where m = m and reset = QueryParamsResponse_Reset and lib = lib] 
  by (simp add: QueryParamsResponse_Marshal_def QueryParamsResponse_XXX_Marshal_def QueryParamsResponse_Unmarshal_def QueryParamsResponse_Reset_def
      fun_eq_iff survives_def QueryParamsResponse_XXX_Size_def QueryParamsResponse_XXX_Unmarshal_def)

lemma GenesisState_survives:
  shows "survives GenesisState_Marshal GenesisState_XXX_Size (GenesisState_XXX_Marshal lib) GenesisState_XXX_Unmarshal GenesisState_Reset m"
  using genesis_state.survives [where m = m and reset = GenesisState_Reset and lib = lib] 
  by (simp add: GenesisState_Marshal_def GenesisState_XXX_Marshal_def GenesisState_Unmarshal_def GenesisState_Reset_def
      fun_eq_iff survives_def GenesisState_XXX_Size_def GenesisState_XXX_Unmarshal_def)

lemma Module_survives:
  assumes "authority_small (mod_Authority m)"
  shows "survives Module_Marshal Module_XXX_Size (Module_XXX_Marshal lib) Module_XXX_Unmarshal Module_Reset m"
  using module_config.survives [where m = m and reset = Module_Reset and lib = lib] assms
  by (simp add: Module_Marshal_def Module_XXX_Marshal_def Module_Unmarshal_def Module_Reset_def
      fun_eq_iff survives_def Module_XXX_Size_def Module_XXX_Unmarshal_def)

end
