(* ===== verification/Wire_Properties.thy ===== *)
theory Wire_Properties
  imports Wire_Language Wire_Methods
begin

text \<open>
  The properties of the generated protobuf codec, over the definitions of the Wire theories; each
  property with hypotheses is followed by a witness that applies it at a concrete input.
\<close>

section \<open>Inputs for the witnesses\<close>

definition sample_update :: MsgUpdateParams where
  "sample_update = \<lparr>mup_Authority = ''gov'', mup_Params = Params\<rparr>"

lemma sample_small: "authority_small (mup_Authority sample_update)"
  by (simp add: sample_update_def authority_small_def)

text \<open>A field this version does not know: a group with a nested field.\<close>

definition sample_group :: wfield where
  "sample_group = WGroup 7 [WBytes 3 [1, 2]]"

lemma sample_group_facts:
  "enc_field sample_group = [0x3b, 0x1a, 2, 1, 2, 0x3c]"
  "field_ok sample_group" "number_of sample_group = 7"
  by (simp_all add: sample_group_def tag_def varint_of_small field_number_ok_def)

section \<open>Varints\<close>

text \<open>
  The reading loop inverts the encoding: wherever the encoding of a 64-bit value stands in a
  buffer, the loop returns the value and the position right after it.
\<close>

lemma varint_decode_encode:
  assumes "fits (pre @ varint v @ post)"
  shows "readVarint f (pre @ varint v @ post) (int (length pre)) =
    Ok (v, int (length pre + length (varint v)))"
  using readVarint_varint [of "length pre" "pre @ varint v @ post" v post f] assms by simp

section \<open>Passing over unknown fields\<close>

text \<open>
  \<open>skipTx\<close> (and so each generated copy of it) returns the exact length of the first field of its
  input, for every wire type, groups nested to any depth included, whatever bytes follow.
\<close>

lemma skip_exact_length:
  assumes "field_ok x" "fits (enc_field x @ rest)"
  shows "skipTx (enc_field x @ rest) = Ok (int (length (enc_field x)))"
  unfolding skipTx_def by (rule skip_field [OF assms])



text \<open>
  C26: on arbitrary bytes \<open>skip\<close> never panics, and a length it returns is positive, so that the
  decoders that call it always move forward.
\<close>

theorem skip_safe:
  "\<not> is_panic (skip f d) \<and> (case skip f d of Ok n \<Rightarrow> 0 < n | _ \<Rightarrow> True)"
  using skip_no_panic [of f d] skip_pos [of f d] by (auto split: outcome.split)

section \<open>Decoders\<close>

text \<open>
  C11: no byte sequence makes a decoder of the module panic, whatever message it decodes into: all
  seven \<open>Unmarshal\<close> functions end with a value or an error.
\<close>

theorem decoders_never_panic:
  "\<not> is_panic (snd (Params_Unmarshal d p)) \<and>
   \<not> is_panic (snd (MsgUpdateParams_Unmarshal d m)) \<and>
   \<not> is_panic (snd (MsgUpdateParamsResponse_Unmarshal d r)) \<and>
   \<not> is_panic (snd (QueryParamsRequest_Unmarshal d q)) \<and>
   \<not> is_panic (snd (QueryParamsResponse_Unmarshal d qr)) \<and>
   \<not> is_panic (snd (GenesisState_Unmarshal d g)) \<and>
   \<not> is_panic (snd (Module_Unmarshal d c))"
  unfolding Params_Unmarshal_def MsgUpdateParams_Unmarshal_def MsgUpdateParamsResponse_Unmarshal_def
    QueryParamsRequest_Unmarshal_def QueryParamsResponse_Unmarshal_def GenesisState_Unmarshal_def
    Module_Unmarshal_def
  by (intro conjI params.decode_no_panic msg_update_params.decode_no_panic
      msg_update_params_response.decode_no_panic query_params_request.decode_no_panic
      query_params_response.decode_no_panic genesis_state.decode_no_panic
      module_config.decode_no_panic)

text \<open>
  C10: what \<open>MsgUpdateParams.Unmarshal\<close> accepts and returns, for any bytes: it succeeds exactly on the
  sequences of fields with positive numbers in which the fields 1 and 2 are length-delimited and
  each field 2 holds a message itself; the authority is then the contents of the last field 1, or
  what it was when there is none, and nothing else changes.
\<close>

theorem update_decoder_language:
  assumes "fits d"
  shows "MsgUpdateParams_Unmarshal d m = (m', Ok ()) \<longleftrightarrow>
    (\<exists>xs. wire_fields xs d \<and> fields_of {1} {2} xs \<and>
       m' = m\<lparr>mup_Authority := last_string 1 xs (mup_Authority m)\<rparr>)"
  by (rule MsgUpdateParams_Unmarshal_iff [OF assms])

theorem update_decoder_language_witness:
  "MsgUpdateParams_Unmarshal [0x0a, 1, 0x61, 0x8a, 0, 1, 0x62] MsgUpdateParams_zero =
     (\<lparr>mup_Authority = ''b'', mup_Params = Params\<rparr>, Ok ())"
proof -
  have "wire_item 10 [0x61] ([0x0a] @ [1, 0x61])" "wire_item 10 [0x62] ([0x8a, 0] @ [1, 0x62])"
    by (rule one; simp add: wire_type_def scalar_def exI [of _ "[1]"])+
  from field [OF this(1) field [OF this(2) wire_fields.nothing]]
  have "wire_fields [(10, [0x61]), (10, [0x62])] [0x0a, 1, 0x61, 0x8a, 0, 1, 0x62]" by simp
  moreover have "field_num 10 = 1" by (simp add: field_num_def)
  moreover have "string_of [0x62] = ''b''" by (simp add: string_of_def) code_simp
  ultimately show ?thesis
    using update_decoder_language [of "[0x0a, 1, 0x61, 0x8a, 0, 1, 0x62]" MsgUpdateParams_zero]
    by (auto simp: fits_def wire_type_def MsgUpdateParams_zero_def intro!: exI [of _ "[(10, [0x61]), (10, [0x62])]"])
qed

text \<open>
  C14: the same for the other six decoders. The messages without fields accept every sequence of fields
  and keep the receiver; GenesisState and QueryParamsResponse need a message in field 1; the
  configuration of the module reads its authority from the last field 1.
\<close>

theorem decoders_language:
  assumes "fits d"
  shows "(Params_Unmarshal d p = (p', Ok ()) \<longleftrightarrow> p' = p \<and> well_formed d) \<and>
    (MsgUpdateParamsResponse_Unmarshal d r = (r', Ok ()) \<longleftrightarrow> r' = r \<and> well_formed d) \<and>
    (QueryParamsRequest_Unmarshal d q = (q', Ok ()) \<longleftrightarrow> q' = q \<and> well_formed d) \<and>
    (QueryParamsResponse_Unmarshal d s = (s', Ok ()) \<longleftrightarrow>
      s' = s \<and> (\<exists>xs. wire_fields xs d \<and> fields_of {} {1} xs)) \<and>
    (GenesisState_Unmarshal d g = (g', Ok ()) \<longleftrightarrow>
      g' = g \<and> (\<exists>xs. wire_fields xs d \<and> fields_of {} {1} xs)) \<and>
    (Module_Unmarshal d c = (c', Ok ()) \<longleftrightarrow>
      (\<exists>xs. wire_fields xs d \<and> fields_of {1} {} xs \<and>
         c' = \<lparr>mod_Authority = last_string 1 xs (mod_Authority c)\<rparr>))"
  unfolding MsgUpdateParamsResponse_Unmarshal_def QueryParamsRequest_Unmarshal_def
  by (intro conjI Params_Unmarshal_iff params_field_Unmarshal_iff Module_Unmarshal_iff
      unmarshal_empty_iff assms)

theorem decoders_language_witness:
  "GenesisState_Unmarshal [0x0a, 2, 0x18, 5, 0x10, 7] \<lparr>gs_Params = Params\<rparr> = (\<lparr>gs_Params = Params\<rparr>, Ok ())"
proof -
  have i: "wire_item 24 [5] ([0x18] @ [5])" "wire_item 10 [0x18, 5] ([0x0a] @ [2, 0x18, 5])"
    "wire_item 16 [7] ([0x10] @ [7])"
    by (rule one; simp add: wire_type_def scalar_def exI [of _ "[2]"])+
  have "wire_fields [(24, [5])] [0x18, 5]" using field [OF i(1) wire_fields.nothing] by simp
  moreover have d: "wire_fields [(10, [0x18, 5]), (16, [7])] [0x0a, 2, 0x18, 5, 0x10, 7]"
    using field [OF i(2) field [OF i(3) wire_fields.nothing]] by simp
  moreover have n: "field_num 10 = 1" "field_num 24 = 3" "field_num 16 = 2" by (simp_all add: field_num_def)
  ultimately have "well_formed [0x18, 5]"
    by (auto simp: well_formed_def numbered_def intro!: exI [of _ "[(24, [5])]"])
  then have "fields_of {} {1} [(10, [0x18, 5]), (16, [7])]" using n by (simp add: wire_type_def)
  then show ?thesis
    using decoders_language [of "[0x0a, 2, 0x18, 5, 0x10, 7]"] d by (fastforce simp: fits_def)
qed

text \<open>
  C9: on the encoding of any sequence of wire fields, \<open>MsgUpdateParams.Unmarshal\<close> does what the
  abstract decoder does that reads the message as a list of fields: it applies them in order,
  ignores those it does not know, lets a later authority replace an earlier one, and stops with
  the error of the first field of a wrong type, keeping what it has read.
\<close>

theorem update_decoder_refines:
  assumes "list_all field_ok xs" "fits (enc_fields xs)"
  shows "MsgUpdateParams_Unmarshal (enc_fields xs) m = interp MsgUpdateParams_fields xs m"
  unfolding MsgUpdateParams_Unmarshal_def by (rule unmarshal_eq_interp [OF assms])

theorem update_decoder_refines_witness:
  "MsgUpdateParams_Unmarshal [0x0a, 1, 0x61, 0x0a, 1, 0x62, 0x11, 0, 0, 0, 0, 0, 0, 0, 0] MsgUpdateParams_zero =
     (\<lparr>mup_Authority = ''b'', mup_Params = Params\<rparr>, Err (ErrWrongWireType 1 ''Params''))"
proof -
  have a: "string_of [0x61] = ''a''" "string_of [0x62] = ''b''"
    by (simp_all add: string_of_def) code_simp+
  show ?thesis
    using update_decoder_refines
      [of "[WBytes 1 [0x61], WBytes 1 [0x62], WFixed64 2 [0, 0, 0, 0, 0, 0, 0, 0]]" MsgUpdateParams_zero] a
    by (simp add: fits_def field_number_ok_def tag_def varint_of_small apply_field_def
        MsgUpdateParams_fields_def MsgUpdateParams_zero_def)
qed

section \<open>Messages\<close>

text \<open>
  C12: every message of the module survives the protobuf library's way of sending it (an update and a
  configuration with an authority of less than \<open>2 ^ 62\<close> bytes). \<open>XXX_Size\<close> announces the length of
  the encoding; \<open>XXX_Marshal\<close> into a buffer of that size returns the bytes of \<open>Marshal\<close>, whatever the
  buffer held; and \<open>XXX_Unmarshal\<close> of them after \<open>Reset\<close> gives the message back, whatever the receiver
  held. Nothing on the way fails or panics.
\<close>

theorem messages_survive:
  assumes "authority_small (mup_Authority u)" "authority_small (mod_Authority c)"
  shows "survives MsgUpdateParams_Marshal MsgUpdateParams_XXX_Size (MsgUpdateParams_XXX_Marshal lib1)
      MsgUpdateParams_XXX_Unmarshal MsgUpdateParams_Reset u \<and>
    survives Module_Marshal Module_XXX_Size (Module_XXX_Marshal lib2) Module_XXX_Unmarshal Module_Reset c \<and>
    survives Params_Marshal Params_XXX_Size (Params_XXX_Marshal lib3) Params_XXX_Unmarshal Params_Reset p \<and>
    survives GenesisState_Marshal GenesisState_XXX_Size (GenesisState_XXX_Marshal lib4)
      GenesisState_XXX_Unmarshal GenesisState_Reset g \<and>
    survives MsgUpdateParamsResponse_Marshal MsgUpdateParamsResponse_XXX_Size
      (MsgUpdateParamsResponse_XXX_Marshal lib5) MsgUpdateParamsResponse_XXX_Unmarshal
      MsgUpdateParamsResponse_Reset ur \<and>
    survives QueryParamsRequest_Marshal QueryParamsRequest_XXX_Size (QueryParamsRequest_XXX_Marshal lib6)
      QueryParamsRequest_XXX_Unmarshal QueryParamsRequest_Reset q \<and>
    survives QueryParamsResponse_Marshal QueryParamsResponse_XXX_Size (QueryParamsResponse_XXX_Marshal lib7)
      QueryParamsResponse_XXX_Unmarshal QueryParamsResponse_Reset qr"
  by (intro conjI MsgUpdateParams_survives Module_survives Params_survives GenesisState_survives
      MsgUpdateParamsResponse_survives QueryParamsRequest_survives QueryParamsResponse_survives assms)

theorem messages_survive_witness:
  "\<exists>e. MsgUpdateParams_Marshal (Some sample_update) = Ok e \<and>
     MsgUpdateParams_XXX_Marshal (\<lambda>m b. Ok b) (Some sample_update) (replicate (length e) 7) False = Ok e \<and>
     MsgUpdateParams_XXX_Unmarshal e (MsgUpdateParams_Reset \<lparr>mup_Authority = ''old'', mup_Params = Params\<rparr>) =
       (sample_update, Ok ())"
  using messages_survive [of sample_update "\<lparr>mod_Authority = ''gov''\<rparr>" "\<lambda>m b. Ok b", THEN conjunct1]
    sample_small
  by (auto simp: survives_def authority_small_def)

text \<open>
  A parameter update with any authority of less than \<open>2 ^ 62\<close> bytes is marshalled without error
  or panic, to as many bytes as \<open>Size\<close> announces, and unmarshalling these bytes gives the same
  message back.
\<close>

lemma update_message_roundtrip:
  assumes "authority_small (mup_Authority m)"
  shows "\<exists>b. MsgUpdateParams_Marshal (Some m) = Ok b \<and> MsgUpdateParams_Size (Some m) = int (length b) \<and>
    MsgUpdateParams_Unmarshal b MsgUpdateParams_zero = (m, Ok ())"
  using msg_update_params.Marshal_eq [OF assms] msg_update_params.size [OF assms]
    msg_update_params.decode [OF assms]
  by (simp add: MsgUpdateParams_Marshal_def MsgUpdateParams_Unmarshal_def)

text \<open>
  The module configuration, the genesis state and the query response survive the same way, for
  every value (the configuration for authorities of less than \<open>2 ^ 62\<close> bytes).
\<close>

lemma module_messages_roundtrip:
  assumes "authority_small (mod_Authority c)"
  shows "(\<exists>b. Module_Marshal (Some c) = Ok b \<and> Module_Unmarshal b \<lparr>mod_Authority = []\<rparr> = (c, Ok ())) \<and>
    (\<exists>b. GenesisState_Marshal (Some g) = Ok b \<and> GenesisState_Unmarshal b \<lparr>gs_Params = Params\<rparr> = (g, Ok ())) \<and>
    (\<exists>b. QueryParamsResponse_Marshal (Some q) = Ok b \<and>
       QueryParamsResponse_Unmarshal b \<lparr>qpr_Params = Params\<rparr> = (q, Ok ()))"
  using module_config.Marshal_eq [OF assms] module_config.decode [OF assms]
    genesis_state.Marshal_eq [of g] genesis_state.decode [of g]
    query_params_response.Marshal_eq [of q] query_params_response.decode [of q]
  by (auto simp only: Module_Marshal_def Module_Unmarshal_def GenesisState_Marshal_def
      GenesisState_Unmarshal_def QueryParamsResponse_Marshal_def QueryParamsResponse_Unmarshal_def)

text \<open>
  Forward compatibility. Fields that a newer sender appends after those of an update message,
  of any number other than 1 and 2 and of any wire type, do not change what is decoded.
\<close>

lemma update_unknown_fields:
  assumes "authority_small (mup_Authority m)" "list_all field_ok xs"
    and "list_all (\<lambda>x. number_of x \<noteq> 1 \<and> number_of x \<noteq> 2) xs"
    and "MsgUpdateParams_Marshal (Some m) = Ok b" "fits (b @ enc_fields xs)"
  shows "MsgUpdateParams_Unmarshal (b @ enc_fields xs) MsgUpdateParams_zero = (m, Ok ())"
proof -
  have b: "b = enc_fields (MsgUpdateParams_field_list m)"
    using msg_update_params.Marshal_eq [OF assms(1)] assms(4) by (simp add: MsgUpdateParams_Marshal_def)
  have "\<forall>x \<in> set xs. MsgUpdateParams_fields (int (number_of x)) = None"
    using assms(3) by (auto simp: MsgUpdateParams_fields_def list_all_iff)
  from msg_update_params.decode_unknown [OF assms(1,2) this] show ?thesis
    using assms(5) by (simp add: b MsgUpdateParams_Unmarshal_def)
qed

text \<open>
  Field numbers are truncated. A tag whose number is \<open>2 ^ 32\<close> larger than that of the authority,
  outside the numbers of the wire format, is decoded as the authority.
\<close>

lemma field_number_alias:
  assumes "n < 2 ^ 61" "wt < 8"
  shows "field_num (word_of_nat (8 * n + wt)) = sint (word_of_nat n :: 32 word) \<and>
    MsgUpdateParams_fields (field_num (word_of_nat (8 * (n mod 2 ^ 32) + wt))) =
      MsgUpdateParams_fields (field_num (word_of_nat (8 * n + wt)))"
proof -
  have "n mod 2 ^ 32 < 2 ^ 61" using assms(1) by (meson le_less_trans mod_less_eq_dividend)
  moreover have "(word_of_nat (n mod 2 ^ 32) :: 32 word) = word_of_nat n"
    by (simp add: word_unat_eq_iff unat_of_nat take_bit_eq_mod)
  ultimately show ?thesis using assms by (simp only: field_num_tag simp_thms)
qed

text \<open>
  The non-deterministic \<open>XXX_Marshal\<close> relies on a buffer whose capacity is exactly the size of
  the message. The encoder fills the buffer from its end, and the function returns the first bytes
  of the buffer: with a larger capacity these are old bytes of the buffer, followed by what fits
  of the encoding.
\<close>

lemma XXX_Marshal_capacity:
  assumes "authority_small (mup_Authority m)" "fits b"
    and "MsgUpdateParams_Marshal (Some m) = Ok e" "length e \<le> length b"
  shows "MsgUpdateParams_XXX_Marshal lib (Some m) b False =
    Ok (take (length e) (take (length b - length e) b @ e))"
proof -
  have e: "e = enc_fields (MsgUpdateParams_field_list m)"
    using msg_update_params.Marshal_eq [OF assms(1)] assms(3) by (simp add: MsgUpdateParams_Marshal_def)
  show ?thesis
    using msg_update_params.XXX_Marshal_eq [OF assms(1,2), of lib] assms(4)
    by (simp add: e MsgUpdateParams_XXX_Marshal_def)
qed

end
