(* ===== verification/Pulsar_Keeper.thy ===== *)
theory Pulsar_Keeper
  imports Wire_Messages
begin

text \<open>
  x/pulsar/types (keys.go, params.go, genesis.go, errors.go) and x/pulsar/keeper (keeper.go,
  genesis.go, msg_server.go, msg_update_params.go, query.go, query_params.go).

  The SDK is not part of the repository. The address codec and the \<open>collections.Item\<close> that holds
  the parameters are values of interface types in Go; here they are records of functions, fields
  of the keeper, so that every statement is about an arbitrary SDK. \<open>'s\<close> is the state behind the
  Go context. What a lemma needs of the item is the predicate \<open>lawful_item\<close>, and the
  locale \<open>params_keeper\<close> collects what follows from it; \<open>kv_item\<close> is an item over a key-value
  store that keeps the bytes of the modelled codec under \<open>ParamsKey\<close>, and interprets the locale.
\<close>

section \<open>Errors\<close>

datatype grpc_code = InvalidArgument | Internal | Unimplemented

datatype go_error =
    LibError string
  | Registered string nat string
  | Wrapped string go_error
  | Status grpc_code string
  | Decoding wire_error

text \<open>\<open>errors.Is\<close>: the error itself or one it wraps.\<close>

fun errors_Is :: "go_error \<Rightarrow> go_error \<Rightarrow> bool" where
  "errors_Is (Wrapped m e) target = (Wrapped m e = target \<or> errors_Is e target)"
| "errors_Is e target = (e = target)"

text \<open>
  The text of an error (\<open>err.Error()\<close>), as it enters panic messages. The texts of the decoder's
  errors, which print numbers, are not spelled out.
\<close>

fun error_text :: "go_error \<Rightarrow> string" where
  "error_text (LibError s) = s"
| "error_text (Registered m c s) = s"
| "error_text (Wrapped m e) = m @ '': '' @ error_text e"
| "error_text (Status c s) = s"
| "error_text (Decoding e) = ''proto''"

definition ModuleName :: string where "ModuleName = ''pulsar''"
definition StoreKey :: string where "StoreKey = ModuleName"
definition GovModuleName :: string where "GovModuleName = ''gov''"
definition ParamsKey :: string where "ParamsKey = ''p_pulsar''"

definition ErrInvalidSigner :: go_error where
  "ErrInvalidSigner =
     Registered ModuleName 1100 ''expected gov account as only signer for proposal message''"

section \<open>Parameters and genesis\<close>

definition NewParams :: Params where "NewParams = Params"
definition DefaultParams :: Params where "DefaultParams = NewParams"

definition Params_Validate :: "Params \<Rightarrow> go_error option" where
  "Params_Validate p = None"

definition DefaultGenesis :: GenesisState where
  "DefaultGenesis = \<lparr>gs_Params = DefaultParams\<rparr>"

definition GenesisState_Validate :: "GenesisState \<Rightarrow> go_error option" where
  "GenesisState_Validate gs = Params_Validate (gs_Params gs)"

section \<open>The keeper\<close>

text \<open>\<open>address.Codec\<close>; both functions return a value and an error, as in Go.\<close>

record address_codec =
  StringToBytes :: "string \<Rightarrow> bytes \<times> go_error option"
  BytesToString :: "bytes \<Rightarrow> string \<times> go_error option"

text \<open>\<open>collections.Item[types.Params]\<close>.\<close>

record 's params_item =
  item_Get :: "'s \<Rightarrow> (go_error, Params) outcome"
  item_Set :: "'s \<Rightarrow> Params \<Rightarrow> (go_error, unit) outcome \<times> 's"

record 's Keeper =
  k_addressCodec :: address_codec
  k_authority :: bytes
  k_Schema :: "(string \<times> string) list"
  k_Params :: "'s params_item"

text \<open>
  \<open>new_item\<close> is \<open>collections.NewItem\<close> for the given store service and codec, and \<open>build\<close> is
  \<open>SchemaBuilder.Build\<close> on the registered prefixes and names.
\<close>

definition NewKeeper ::
  "(string \<Rightarrow> string \<Rightarrow> 's params_item) \<Rightarrow> ((string \<times> string) list \<Rightarrow> go_error option) \<Rightarrow>
   address_codec \<Rightarrow> bytes \<Rightarrow> (go_error, 's Keeper) outcome" where
  "NewKeeper new_item build addressCodec authority =
     (case snd (BytesToString addressCodec authority) of
        Some e \<Rightarrow>
          Panic (''invalid authority address '' @ string_of authority @ '': '' @ error_text e)
      | None \<Rightarrow>
          (let item = new_item ParamsKey ''params'';
               registered = [(ParamsKey, ''params'')]
           in case build registered of
                Some e \<Rightarrow> Panic (error_text e)
              | None \<Rightarrow> Ok \<lparr>k_addressCodec = addressCodec, k_authority = authority,
                            k_Schema = registered, k_Params = item\<rparr>))"

definition GetAuthority :: "'s Keeper \<Rightarrow> bytes" where
  "GetAuthority k = k_authority k"

definition Keeper_InitGenesis ::
  "'s Keeper \<Rightarrow> 's \<Rightarrow> GenesisState \<Rightarrow> (go_error, unit) outcome \<times> 's" where
  "Keeper_InitGenesis k ctx genState = item_Set (k_Params k) ctx (gs_Params genState)"

definition Keeper_ExportGenesis :: "'s Keeper \<Rightarrow> 's \<Rightarrow> (go_error, GenesisState) outcome" where
  "Keeper_ExportGenesis k ctx =
     (let genesis = DefaultGenesis
      in chain (item_Get (k_Params k) ctx) (\<lambda>p. Ok (genesis\<lparr>gs_Params := p\<rparr>)))"

section \<open>The message server\<close>

definition wrong_authority :: "string \<Rightarrow> string \<Rightarrow> go_error" where
  "wrong_authority expected got =
     Wrapped (''invalid authority; expected '' @ expected @ '', got '' @ got) ErrInvalidSigner"

definition UpdateParams ::
  "'s Keeper \<Rightarrow> 's \<Rightarrow> MsgUpdateParams option \<Rightarrow>
   (go_error, MsgUpdateParamsResponse) outcome \<times> 's" where
  "UpdateParams k ctx req =
     (case req of
        None \<Rightarrow> (Panic nil_panic, ctx)
      | Some r \<Rightarrow>
          (case StringToBytes (k_addressCodec k) (mup_Authority r) of
             (authority, Some e) \<Rightarrow> (Err (Wrapped ''invalid authority address'' e), ctx)
           | (authority, None) \<Rightarrow>
               if GetAuthority k \<noteq> authority then
                 (let expected = fst (BytesToString (k_addressCodec k) (GetAuthority k))
                  in (Err (wrong_authority expected (mup_Authority r)), ctx))
               else
                 (case Params_Validate (mup_Params r) of
                    Some e \<Rightarrow> (Err e, ctx)
                  | None \<Rightarrow>
                      chain_st (item_Set (k_Params k) ctx (mup_Params r))
                        (\<lambda>_ ctx'. (Ok MsgUpdateParamsResponse, ctx')))))"

section \<open>The query server\<close>

definition Query_Params ::
  "go_error \<Rightarrow> 's Keeper \<Rightarrow> 's \<Rightarrow> QueryParamsRequest option \<Rightarrow>
   (go_error, QueryParamsResponse) outcome" where
  "Query_Params ErrNotFound k ctx req =
     (case req of
        None \<Rightarrow> Err (Status InvalidArgument ''invalid request'')
      | Some r \<Rightarrow>
          (case item_Get (k_Params k) ctx of
             Ok params \<Rightarrow> Ok \<lparr>qpr_Params = params\<rparr>
           | Panic p \<Rightarrow> Panic p
           | Err e \<Rightarrow>
               if \<not> errors_Is e ErrNotFound then Err (Status Internal ''internal error'')
               else Ok \<lparr>qpr_Params = Params\<rparr>))"

section \<open>Every branch of the message server\<close>

definition authorised :: "'s Keeper \<Rightarrow> MsgUpdateParams \<Rightarrow> bool" where
  "authorised k r \<longleftrightarrow> StringToBytes (k_addressCodec k) (mup_Authority r) = (k_authority k, None)"

lemma UpdateParams_authorised:
  "authorised k r \<Longrightarrow>
   UpdateParams k ctx (Some r) =
     chain_st (item_Set (k_Params k) ctx (mup_Params r)) (\<lambda>_ ctx'. (Ok MsgUpdateParamsResponse, ctx'))"
  by (simp add: UpdateParams_def authorised_def GetAuthority_def Params_Validate_def)

lemma UpdateParams_unauthorised:
  "\<not> authorised k r \<Longrightarrow>
   \<exists>e. UpdateParams k ctx (Some r) = (Err e, ctx) \<and>
     (errors_Is e ErrInvalidSigner \<or>
      (\<exists>c. snd (StringToBytes (k_addressCodec k) (mup_Authority r)) = Some c \<and>
           e = Wrapped ''invalid authority address'' c))"
  by (auto simp: UpdateParams_def authorised_def GetAuthority_def wrong_authority_def
      Params_Validate_def Let_def ErrInvalidSigner_def split: prod.splits option.splits)

lemma UpdateParams_frame: "(\<forall>r. req = Some r \<longrightarrow> \<not> authorised k r) \<Longrightarrow> snd (UpdateParams k ctx req) = ctx"
  using UpdateParams_unauthorised [of k _ ctx]
  by (cases req) (simp add: UpdateParams_def, metis snd_conv)

section \<open>Items that keep what they are given\<close>

text \<open>
  The documented behaviour of \<open>collections.Item\<close>: after a successful \<open>Set\<close>, \<open>Get\<close> returns the
  value; a failed \<open>Set\<close> leaves what \<open>Get\<close> returns as it was.
\<close>

definition lawful_item :: "'s params_item \<Rightarrow> bool" where
  "lawful_item it \<longleftrightarrow>
     (\<forall>s p s'. item_Set it s p = (Ok (), s') \<longrightarrow> item_Get it s' = Ok p) \<and>
     (\<forall>s p s'. \<not> is_ok (fst (item_Set it s p)) \<longrightarrow> item_Set it s p = (fst (item_Set it s p), s') \<longrightarrow>
        item_Get it s' = item_Get it s)"

text \<open>The state of the module holds readable parameters.\<close>

definition readable :: "'s Keeper \<Rightarrow> 's \<Rightarrow> bool" where
  "readable k s \<longleftrightarrow> is_ok (item_Get (k_Params k) s)"

locale params_keeper =
  fixes k :: "'s Keeper"
  assumes lawful: "lawful_item (k_Params k)"
begin

lemma set_get: "item_Set (k_Params k) s p = (Ok (), s') \<Longrightarrow> item_Get (k_Params k) s' = Ok p"
  using lawful by (simp add: lawful_item_def)

lemma set_readable:
  assumes "readable k s"
  shows "readable k (snd (item_Set (k_Params k) s p))"
proof (cases "is_ok (fst (item_Set (k_Params k) s p))")
  case True
  then obtain s' where "item_Set (k_Params k) s p = (Ok (), s')"
    by (cases "item_Set (k_Params k) s p") (auto simp: is_ok_iff)
  then show ?thesis by (simp add: readable_def set_get)
next
  case False
  then show ?thesis
    using lawful assms by (metis lawful_item_def prod.collapse readable_def)
qed

lemma init_export:
  assumes "Keeper_InitGenesis k s gs = (Ok (), s')"
  shows "Keeper_ExportGenesis k s' = Ok gs"
  using assms set_get by (simp add: Keeper_InitGenesis_def Keeper_ExportGenesis_def DefaultGenesis_def)

lemma update_query:
  assumes "UpdateParams k s (Some r) = (Ok resp, s')"
  shows "Query_Params nf k s' (Some q) = Ok \<lparr>qpr_Params = mup_Params r\<rparr>" and "authorised k r"
proof -
  show a: "authorised k r"
    using UpdateParams_unauthorised [of k r s] assms by auto
  then have "item_Set (k_Params k) s (mup_Params r) = (Ok (), s')"
    using assms by (auto simp: UpdateParams_authorised outcome_simps)
  then show "Query_Params nf k s' (Some q) = Ok \<lparr>qpr_Params = mup_Params r\<rparr>"
    by (simp add: Query_Params_def set_get)
qed

lemma update_readable: "readable k s \<Longrightarrow> readable k (snd (UpdateParams k s req))"
proof (cases "\<exists>r. req = Some r \<and> authorised k r")
  case True
  then obtain r where r: "req = Some r" "authorised k r" by blast
  obtain q s' where q: "item_Set (k_Params k) s (mup_Params r) = (q, s')" by force
  then have "snd (UpdateParams k s req) = s'"
    using r by (cases q) (simp_all add: UpdateParams_authorised)
  moreover assume "readable k s"
  ultimately show ?thesis using set_readable [of s "mup_Params r"] q by simp
next
  case False
  moreover assume "readable k s"
  ultimately show ?thesis using UpdateParams_frame [of req k s] by simp
qed

end

section \<open>An item over a key-value store\<close>

text \<open>
  The module's store as a map from keys to bytes; the item keeps the Params codec's bytes under
  its prefix.
\<close>

type_synonym kv_store = "bytes \<rightharpoonup> bytes"

definition kv_ErrNotFound :: go_error where
  "kv_ErrNotFound = LibError ''collections: not found''"

definition kv_item :: "string \<Rightarrow> string \<Rightarrow> kv_store params_item" where
  "kv_item prefix name =
     \<lparr>item_Get = (\<lambda>s. case s (bytes_of prefix) of
          None \<Rightarrow> Err kv_ErrNotFound
        | Some b \<Rightarrow> (case Params_Unmarshal b Params of
              (p, Ok u) \<Rightarrow> Ok p
            | (p, Err e) \<Rightarrow> Err (Decoding e)
            | (p, Panic q) \<Rightarrow> Panic q)),
      item_Set = (\<lambda>s p. case Params_Marshal (Some p) of
          Ok b \<Rightarrow> (Ok (), s(bytes_of prefix \<mapsto> b))
        | Err e \<Rightarrow> (Err (Decoding e), s)
        | Panic q \<Rightarrow> (Panic q, s))\<rparr>"

text \<open>An address codec for evaluation: an address string is its bytes, and \<open>""\<close> is refused.\<close>

definition plain_codec :: address_codec where
  "plain_codec =
     \<lparr>StringToBytes = (\<lambda>s. if s = [] then ([], Some (LibError ''empty address'')) else (bytes_of s, None)),
      BytesToString = (\<lambda>b. if b = [] then ([], Some (LibError ''empty address'')) else (string_of b, None))\<rparr>"

definition kv_keeper :: "bytes \<Rightarrow> kv_store Keeper" where
  "kv_keeper authority =
     \<lparr>k_addressCodec = plain_codec, k_authority = authority,
      k_Schema = [(ParamsKey, ''params'')], k_Params = kv_item ParamsKey ''params''\<rparr>"

lemma NewKeeper_kv: "a \<noteq> [] \<Longrightarrow> NewKeeper kv_item (\<lambda>_. None) plain_codec a = Ok (kv_keeper a)"
  by (simp add: NewKeeper_def kv_keeper_def plain_codec_def Let_def)

lemma Params_Marshal_eq: "Params_Marshal (Some p) = Ok []"
  using params.Marshal_eq [of p] by (simp add: Params_Marshal_def)

lemma kv_item_set: "item_Set (kv_item pre nm) s p = (Ok (), s(bytes_of pre \<mapsto> []))"
  by (simp add: kv_item_def Params_Marshal_eq)

lemma kv_item_lawful: "lawful_item (kv_item pre nm)"
  unfolding lawful_item_def kv_item_set
  by (auto simp: kv_item_def Params_Unmarshal_empty) (metis Params.exhaust)

interpretation kv: params_keeper "kv_keeper a" for a
  by unfold_locales (simp add: kv_keeper_def kv_item_lawful)

end
