(* ===== verification/Pulsar_Grpc.thy ===== *)
theory Pulsar_Grpc
  imports Pulsar_Keeper
begin

text \<open>
  The service layer generated for x/pulsar: the gRPC clients, handlers, service descriptions and
  unimplemented servers of tx.pb.go and query.pb.go, and the HTTP gateway of query.pb.gw.go.

  A server is a function of the state behind its context and a request pointer. What the gRPC
  library passes in (the decoding function, the interceptor, the connection's \<open>Invoke\<close>, the dialer)
  is an argument. \<open>loopback_Msg\<close> and \<open>loopback_Query\<close> are specifications: a connection that
  finds the handler in a service description by its method path, and carries requests and
  responses as bytes of the modelled codec.
\<close>

section \<open>Servers\<close>

type_synonym ('s, 'i, 'o) rpc = "'s \<Rightarrow> 'i option \<Rightarrow> (go_error, 'o) outcome \<times> 's"
type_synonym 's MsgServer = "('s, MsgUpdateParams, MsgUpdateParamsResponse) rpc"
type_synonym 's QueryServer = "('s, QueryParamsRequest, QueryParamsResponse) rpc"

definition NewMsgServerImpl :: "'s Keeper \<Rightarrow> 's MsgServer" where
  "NewMsgServerImpl keeper = UpdateParams keeper"

definition NewQueryServerImpl :: "go_error \<Rightarrow> 's Keeper \<Rightarrow> 's QueryServer" where
  "NewQueryServerImpl ErrNotFound k ctx req = (Query_Params ErrNotFound k ctx req, ctx)"

definition UnimplementedMsgServer_UpdateParams :: "'s MsgServer" where
  "UnimplementedMsgServer_UpdateParams ctx req =
     (Err (Status Unimplemented ''method UpdateParams not implemented''), ctx)"

definition UnimplementedQueryServer_Params :: "'s QueryServer" where
  "UnimplementedQueryServer_Params ctx req =
     (Err (Status Unimplemented ''method Params not implemented''), ctx)"

section \<open>Handlers\<close>

text \<open>A value of type \<open>interface{}\<close> that holds a request.\<close>

datatype dyn_request =
    DynMsgUpdateParams "MsgUpdateParams option"
  | DynQueryParamsRequest "QueryParamsRequest option"
  | DynOther string

record 'srv UnaryServerInfo =
  info_Server :: 'srv
  info_FullMethod :: string

type_synonym ('s, 'srv, 'o) interceptor =
  "'s \<Rightarrow> dyn_request \<Rightarrow> 'srv UnaryServerInfo \<Rightarrow>
   ('s \<Rightarrow> dyn_request \<Rightarrow> (go_error, 'o) outcome \<times> 's) \<Rightarrow> (go_error, 'o) outcome \<times> 's"

definition conversion_panic :: string where
  "conversion_panic = ''interface conversion''"

definition Msg_UpdateParams_Handler ::
  "'s MsgServer \<Rightarrow> 's \<Rightarrow> (MsgUpdateParams \<Rightarrow> MsgUpdateParams \<times> (go_error, unit) outcome) \<Rightarrow>
   ('s, 's MsgServer, MsgUpdateParamsResponse) interceptor option \<Rightarrow>
   (go_error, MsgUpdateParamsResponse) outcome \<times> 's" where
  "Msg_UpdateParams_Handler srv ctx dec interceptor =
     (case dec MsgUpdateParams_zero of
        (req, Err err) \<Rightarrow> (Err err, ctx)
      | (req, Panic p) \<Rightarrow> (Panic p, ctx)
      | (req, Ok u) \<Rightarrow>
          (case interceptor of
             None \<Rightarrow> srv ctx (Some req)
           | Some intercept \<Rightarrow>
               (let info = \<lparr>info_Server = srv, info_FullMethod = ''/pulsar.pulsar.v1.Msg/UpdateParams''\<rparr>;
                    handler = (\<lambda>ctx req.
                      case req of
                        DynMsgUpdateParams r \<Rightarrow> srv ctx r
                      | _ \<Rightarrow> (Panic conversion_panic, ctx))
                in intercept ctx (DynMsgUpdateParams (Some req)) info handler)))"

definition Query_Params_Handler ::
  "'s QueryServer \<Rightarrow> 's \<Rightarrow>
   (QueryParamsRequest \<Rightarrow> QueryParamsRequest \<times> (go_error, unit) outcome) \<Rightarrow>
   ('s, 's QueryServer, QueryParamsResponse) interceptor option \<Rightarrow>
   (go_error, QueryParamsResponse) outcome \<times> 's" where
  "Query_Params_Handler srv ctx dec interceptor =
     (case dec QueryParamsRequest of
        (req, Err err) \<Rightarrow> (Err err, ctx)
      | (req, Panic p) \<Rightarrow> (Panic p, ctx)
      | (req, Ok u) \<Rightarrow>
          (case interceptor of
             None \<Rightarrow> srv ctx (Some req)
           | Some intercept \<Rightarrow>
               (let info = \<lparr>info_Server = srv, info_FullMethod = ''/pulsar.pulsar.v1.Query/Params''\<rparr>;
                    handler = (\<lambda>ctx req.
                      case req of
                        DynQueryParamsRequest r \<Rightarrow> srv ctx r
                      | _ \<Rightarrow> (Panic conversion_panic, ctx))
                in intercept ctx (DynQueryParamsRequest (Some req)) info handler)))"

record 'h ServiceDesc =
  sd_ServiceName :: string
  sd_HandlerType :: string
  sd_Methods :: "(string \<times> 'h) list"
  sd_Metadata :: string

definition Msg_ServiceName :: string where "Msg_ServiceName = ''pulsar.pulsar.v1.Msg''"
definition Query_ServiceName :: string where "Query_ServiceName = ''pulsar.pulsar.v1.Query''"

definition Msg_serviceDesc where
  "Msg_serviceDesc =
     \<lparr>sd_ServiceName = Msg_ServiceName, sd_HandlerType = ''MsgServer'',
      sd_Methods = [(''UpdateParams'', Msg_UpdateParams_Handler)],
      sd_Metadata = ''pulsar/pulsar/v1/tx.proto''\<rparr>"

definition Query_serviceDesc where
  "Query_serviceDesc =
     \<lparr>sd_ServiceName = Query_ServiceName, sd_HandlerType = ''QueryServer'',
      sd_Methods = [(''Params'', Query_Params_Handler)],
      sd_Metadata = ''pulsar/pulsar/v1/query.proto''\<rparr>"

section \<open>Clients\<close>

text \<open>
  \<open>cc.Invoke\<close> gets the method path, the request and the response object to fill; it returns the
  object as it leaves it, the error, and the state behind the connection.
\<close>

type_synonym ('s, 'i, 'o) Invoke =
  "'s \<Rightarrow> string \<Rightarrow> 'i option \<Rightarrow> 'o \<Rightarrow> 'o \<times> (go_error, unit) outcome \<times> 's"

definition msgClient_UpdateParams ::
  "('s, MsgUpdateParams, MsgUpdateParamsResponse) Invoke \<Rightarrow> 's MsgServer" where
  "msgClient_UpdateParams Invoke ctx req =
     (case Invoke ctx ''/pulsar.pulsar.v1.Msg/UpdateParams'' req MsgUpdateParamsResponse of
        (out, Err err, ctx') \<Rightarrow> (Err err, ctx')
      | (out, Panic p, ctx') \<Rightarrow> (Panic p, ctx')
      | (out, Ok u, ctx') \<Rightarrow> (Ok out, ctx'))"

definition queryClient_Params ::
  "('s, QueryParamsRequest, QueryParamsResponse) Invoke \<Rightarrow> 's QueryServer" where
  "queryClient_Params Invoke ctx req =
     (case Invoke ctx ''/pulsar.pulsar.v1.Query/Params'' req \<lparr>qpr_Params = Params\<rparr> of
        (out, Err err, ctx') \<Rightarrow> (Err err, ctx')
      | (out, Panic p, ctx') \<Rightarrow> (Panic p, ctx')
      | (out, Ok u, ctx') \<Rightarrow> (Ok out, ctx'))"

section \<open>A loopback connection\<close>

primrec lift_wire :: "(wire_error, 'a) outcome \<Rightarrow> (go_error, 'a) outcome" where
  "lift_wire (Ok a) = Ok a"
| "lift_wire (Err e) = Err (Decoding e)"
| "lift_wire (Panic p) = Panic p"

definition method_path :: "'h ServiceDesc \<Rightarrow> string \<Rightarrow> string" where
  "method_path sd name = ''/'' @ sd_ServiceName sd @ ''/'' @ name"

definition find_method :: "'h ServiceDesc \<Rightarrow> string \<Rightarrow> 'h option" where
  "find_method sd path =
     map_option snd (List.find (\<lambda>(name, h). method_path sd name = path) (sd_Methods sd))"

text \<open>
  \<open>loopback encode decode sd srv encode_resp decode_resp\<close>: encode the request, find the handler,
  let it decode the bytes and call the server, encode the response and decode it into the
  object of the client.
\<close>

definition loopback ::
  "('i option \<Rightarrow> (wire_error, bytes) outcome) \<Rightarrow> (bytes \<Rightarrow> 'i \<Rightarrow> 'i \<times> (wire_error, unit) outcome) \<Rightarrow>
   ('srv \<Rightarrow> 's \<Rightarrow> ('i \<Rightarrow> 'i \<times> (go_error, unit) outcome) \<Rightarrow>
      ('s, 'srv, 'o) interceptor option \<Rightarrow> (go_error, 'o) outcome \<times> 's) ServiceDesc \<Rightarrow>
   'srv \<Rightarrow>
   ('o option \<Rightarrow> (wire_error, bytes) outcome) \<Rightarrow> (bytes \<Rightarrow> 'o \<Rightarrow> 'o \<times> (wire_error, unit) outcome) \<Rightarrow>
   ('s, 'i, 'o) Invoke" where
  "loopback encode decode sd srv encode_resp decode_resp ctx path req out =
     (case find_method sd path of
        None \<Rightarrow> (out, Err (Status Unimplemented path), ctx)
      | Some h \<Rightarrow>
          (case lift_wire (encode req) of
             Err e \<Rightarrow> (out, Err e, ctx)
           | Panic p \<Rightarrow> (out, Panic p, ctx)
           | Ok b \<Rightarrow>
               (case h srv ctx (\<lambda>m. apsnd lift_wire (decode b m)) None of
                  (Err e, ctx') \<Rightarrow> (out, Err e, ctx')
                | (Panic p, ctx') \<Rightarrow> (out, Panic p, ctx')
                | (Ok resp, ctx') \<Rightarrow>
                    (case lift_wire (encode_resp (Some resp)) of
                       Err e \<Rightarrow> (out, Err e, ctx')
                     | Panic p \<Rightarrow> (out, Panic p, ctx')
                     | Ok rb \<Rightarrow> (case apsnd lift_wire (decode_resp rb out) of
                         (out', r) \<Rightarrow> (out', r, ctx'))))))"

definition loopback_Msg ::
  "'s MsgServer \<Rightarrow> ('s, MsgUpdateParams, MsgUpdateParamsResponse) Invoke" where
  "loopback_Msg srv =
     loopback MsgUpdateParams_Marshal
       MsgUpdateParams_Unmarshal Msg_serviceDesc srv
       MsgUpdateParamsResponse_Marshal
       MsgUpdateParamsResponse_Unmarshal"

definition loopback_Query ::
  "'s QueryServer \<Rightarrow> ('s, QueryParamsRequest, QueryParamsResponse) Invoke" where
  "loopback_Query srv =
     loopback QueryParamsRequest_Marshal
       QueryParamsRequest_Unmarshal Query_serviceDesc srv
       QueryParamsResponse_Marshal
       QueryParamsResponse_Unmarshal"

lemma find_UpdateParams:
  "find_method Msg_serviceDesc ''/pulsar.pulsar.v1.Msg/UpdateParams'' = Some Msg_UpdateParams_Handler"
  by (simp add: find_method_def Msg_serviceDesc_def method_path_def Msg_ServiceName_def)

lemma find_Params:
  "find_method Query_serviceDesc ''/pulsar.pulsar.v1.Query/Params'' = Some Query_Params_Handler"
  by (simp add: find_method_def Query_serviceDesc_def method_path_def Query_ServiceName_def)

text \<open>What travels: a request that a client may send arrives as it was.\<close>

lemma decode_MsgUpdateParams:
  "authority_small (mup_Authority m) \<Longrightarrow>
   MsgUpdateParams_Unmarshal (enc_fields (MsgUpdateParams_field_list m)) MsgUpdateParams_zero = (m, Ok ())"
  using msg_update_params.decode [of m] by (simp add: MsgUpdateParams_Unmarshal_def)

lemma Marshal_simps:
  "authority_small (mup_Authority m) \<Longrightarrow>
     MsgUpdateParams_Marshal (Some m) = Ok (enc_fields (MsgUpdateParams_field_list m))"
  "MsgUpdateParamsResponse_Marshal (Some r) = Ok []"
  using msg_update_params.Marshal_eq [of m] msg_update_params_response.Marshal_eq [of r]
  by (simp_all only: MsgUpdateParams_Marshal_def MsgUpdateParamsResponse_Marshal_def enc_fields_simps(1))

lemma loopback_UpdateParams:
  assumes "authority_small (mup_Authority m)"
  shows "msgClient_UpdateParams (loopback_Msg srv) ctx (Some m) = srv ctx (Some m)"
proof -
  have resp: "MsgUpdateParamsResponse_Unmarshal [] MsgUpdateParamsResponse = (r, Ok ())" for r
    using msg_update_params_response.decode [of r]
    by (simp add: MsgUpdateParamsResponse_Unmarshal_def)
  obtain out ctx' where "srv ctx (Some m) = (out, ctx')" by fastforce
  then show ?thesis
    using assms
    by (cases out)
      (simp_all add: msgClient_UpdateParams_def loopback_Msg_def loopback_def find_UpdateParams
        Marshal_simps
        Msg_UpdateParams_Handler_def decode_MsgUpdateParams
        resp [of "case out of Ok r \<Rightarrow> r"])
qed

lemma loopback_Params:
  "queryClient_Params (loopback_Query srv) ctx (Some q) = srv ctx (Some q)"
proof -
  have req: "QueryParamsRequest_Unmarshal (enc_fields []) QueryParamsRequest = (q, Ok ())"
    using query_params_request.decode [of q] by (simp only: QueryParamsRequest_Unmarshal_def)
  have resp: "QueryParamsResponse_Unmarshal (enc_fields [WBytes 1 []]) \<lparr>qpr_Params = Params\<rparr> = (r, Ok ())" for r
    using query_params_response.decode [of r] by (simp add: QueryParamsResponse_Unmarshal_def)
  have m: "QueryParamsRequest_Marshal (Some q) = Ok (enc_fields [])"
    "QueryParamsResponse_Marshal (Some r) = Ok (enc_fields [WBytes 1 []])" for r
    using query_params_request.Marshal_eq [of q] query_params_response.Marshal_eq [of r]
    by (simp_all only: QueryParamsRequest_Marshal_def QueryParamsResponse_Marshal_def)
  obtain out ctx' where "srv ctx (Some q) = (out, ctx')" by fastforce
  then show ?thesis
    by (cases out)
      (simp_all only: queryClient_Params_def loopback_Query_def loopback_def find_Params
        m Query_Params_Handler_def req option.case outcome.case
        prod.case lift_wire.simps apsnd_conv resp [of "case out of Ok r \<Rightarrow> r"])
qed

section \<open>The HTTP gateway\<close>

datatype 'r http_reply = HTTPError go_error | Forward 'r

record ('q, 's) route =
  rt_method :: string
  rt_ops :: "nat list"
  rt_pool :: "string list"
  rt_handler :: "'q \<Rightarrow> (go_error, QueryParamsResponse http_reply) outcome \<times> 's option"

definition pattern_Query_Params_0 :: "nat list \<times> string list" where
  "pattern_Query_Params_0 = ([2, 0, 2, 0, 2, 1, 2, 2], [''pulsar'', ''v1'', ''params''])"

definition request_Query_Params_0 ::
  "'s QueryServer \<Rightarrow> 's \<Rightarrow> (go_error, QueryParamsResponse) outcome \<times> 's" where
  "request_Query_Params_0 client ctx = client ctx (Some QueryParamsRequest)"

definition local_request_Query_Params_0 ::
  "'s QueryServer \<Rightarrow> 's \<Rightarrow> (go_error, QueryParamsResponse) outcome \<times> 's" where
  "local_request_Query_Params_0 server ctx = server ctx (Some QueryParamsRequest)"

text \<open>
  The function literal passed to \<open>mux.Handle\<close>: annotate the incoming request (the library's
  \<open>AnnotateContext\<close> or \<open>AnnotateIncomingContext\<close>), make the request, reply.
\<close>

definition query_http_handler ::
  "('q \<Rightarrow> go_error + 's) \<Rightarrow> ('s \<Rightarrow> (go_error, QueryParamsResponse) outcome \<times> 's) \<Rightarrow> 'q \<Rightarrow>
   (go_error, QueryParamsResponse http_reply) outcome \<times> 's option" where
  "query_http_handler annotate request req =
     (case annotate req of
        Inl err \<Rightarrow> (Ok (HTTPError err), None)
      | Inr rctx \<Rightarrow>
          (case request rctx of
             (Err err, s) \<Rightarrow> (Ok (HTTPError err), Some s)
           | (Panic p, s) \<Rightarrow> (Panic p, Some s)
           | (Ok resp, s) \<Rightarrow> (Ok (Forward resp), Some s)))"

definition RegisterQueryHandlerServer ::
  "('q \<Rightarrow> go_error + 's) \<Rightarrow> ('q, 's) route list \<Rightarrow> 's QueryServer \<Rightarrow>
   ('q, 's) route list \<times> go_error option" where
  "RegisterQueryHandlerServer annotate mux server =
     (mux @ [\<lparr>rt_method = ''GET'', rt_ops = fst pattern_Query_Params_0,
              rt_pool = snd pattern_Query_Params_0,
              rt_handler = query_http_handler annotate (local_request_Query_Params_0 server)\<rparr>],
      None)"

definition RegisterQueryHandlerClient ::
  "('q \<Rightarrow> go_error + 's) \<Rightarrow> ('q, 's) route list \<Rightarrow> 's QueryServer \<Rightarrow>
   ('q, 's) route list \<times> go_error option" where
  "RegisterQueryHandlerClient annotate mux client =
     (mux @ [\<lparr>rt_method = ''GET'', rt_ops = fst pattern_Query_Params_0,
              rt_pool = snd pattern_Query_Params_0,
              rt_handler = query_http_handler annotate (request_Query_Params_0 client)\<rparr>],
      None)"

definition RegisterQueryHandler ::
  "('q \<Rightarrow> go_error + 's) \<Rightarrow> ('q, 's) route list \<Rightarrow>
   ('s, QueryParamsRequest, QueryParamsResponse) Invoke \<Rightarrow>
   ('q, 's) route list \<times> go_error option" where
  "RegisterQueryHandler annotate mux conn =
     RegisterQueryHandlerClient annotate mux (queryClient_Params conn)"

text \<open>What the deferred function of \<open>RegisterQueryHandlerFromEndpoint\<close> does with the connection.\<close>

datatype conn_fate = NeverOpened | CloseNow | CloseWhenDone

definition RegisterQueryHandlerFromEndpoint ::
  "(string \<Rightarrow> go_error + ('s, QueryParamsRequest, QueryParamsResponse) Invoke) \<Rightarrow>
   ('q \<Rightarrow> go_error + 's) \<Rightarrow> ('q, 's) route list \<Rightarrow> string \<Rightarrow>
   (('q, 's) route list \<times> go_error option) \<times> conn_fate" where
  "RegisterQueryHandlerFromEndpoint Dial annotate mux endpoint =
     (case Dial endpoint of
        Inl err \<Rightarrow> ((mux, Some err), NeverOpened)
      | Inr conn \<Rightarrow>
          (case RegisterQueryHandler annotate mux conn of
             (mux', err) \<Rightarrow> ((mux', err), if err \<noteq> None then CloseNow else CloseWhenDone)))"

text \<open>
  Served over a connection or in process, the route answers a query with the same reply.
\<close>

lemma gateway_request:
  "request_Query_Params_0 (queryClient_Params (loopback_Query srv)) = local_request_Query_Params_0 srv"
  by (simp add: fun_eq_iff request_Query_Params_0_def local_request_Query_Params_0_def loopback_Params)

lemma gateway_agrees:
  "rt_handler (last (fst (RegisterQueryHandler annotate mux (loopback_Query srv)))) =
   rt_handler (last (fst (RegisterQueryHandlerServer annotate mux' srv)))"
  by (simp add: RegisterQueryHandler_def RegisterQueryHandlerClient_def
      RegisterQueryHandlerServer_def gateway_request)

end
