(* ===== verification/Pulsar_Module.thy ===== *)
theory Pulsar_Module
  imports Pulsar_Grpc
begin

text \<open>
  x/pulsar/module (module.go, depinject.go, simulation.go, autocli.go): the module object the
  application runs, its dependency injection, and the histories of the module's state.

  The JSON codec, the address helpers of x/auth and the two expected keepers are arguments. The
  step relation \<open>module_step\<close> has one rule for each entry point of the module by which the
  application can reach its state while blocks are produced; \<open>module_run\<close> is a history of steps.
\<close>

section \<open>The module object\<close>

text \<open>The JSON side of \<open>codec.Codec\<close>, for the module's genesis state.\<close>

record json_codec =
  MarshalJSON :: "GenesisState \<Rightarrow> (go_error, string) outcome"
  MustMarshalJSON :: "GenesisState \<Rightarrow> (go_error, string) outcome"
  UnmarshalJSON :: "string \<Rightarrow> GenesisState \<Rightarrow> GenesisState \<times> (go_error, unit) outcome"

record ('s, 'ak, 'bk) AppModule =
  am_cdc :: json_codec
  am_keeper :: "'s Keeper"
  am_authKeeper :: 'ak
  am_bankKeeper :: 'bk

definition NewAppModule :: "json_codec \<Rightarrow> 's Keeper \<Rightarrow> 'ak \<Rightarrow> 'bk \<Rightarrow> ('s, 'ak, 'bk) AppModule" where
  "NewAppModule cdc keeper authKeeper bankKeeper =
     \<lparr>am_cdc = cdc, am_keeper = keeper, am_authKeeper = authKeeper, am_bankKeeper = bankKeeper\<rparr>"

definition AppModule_Name :: string where "AppModule_Name = ModuleName"

definition ConsensusVersion :: u64 where "ConsensusVersion = 1"

text \<open>\<open>fmt.Errorf("failed to ... %s genesis state: %w", types.ModuleName, err)\<close>\<close>

definition genesis_failure :: "string \<Rightarrow> go_error \<Rightarrow> go_error" where
  "genesis_failure verb err = Wrapped (''failed to '' @ verb @ '' '' @ ModuleName @ '' genesis state'') err"

definition zero_GenesisState :: GenesisState where
  "zero_GenesisState = \<lparr>gs_Params = Params\<rparr>"

definition AppModule_DefaultGenesis :: "('s, 'ak, 'bk) AppModule \<Rightarrow> (go_error, string) outcome" where
  "AppModule_DefaultGenesis am = MustMarshalJSON (am_cdc am) DefaultGenesis"

definition AppModule_ValidateGenesis ::
  "('s, 'ak, 'bk) AppModule \<Rightarrow> string \<Rightarrow> (go_error, unit) outcome" where
  "AppModule_ValidateGenesis am bz =
     (case UnmarshalJSON (am_cdc am) bz zero_GenesisState of
        (genState, Err err) \<Rightarrow> Err (genesis_failure ''unmarshal'' err)
      | (genState, Panic p) \<Rightarrow> Panic p
      | (genState, Ok u) \<Rightarrow>
          (case GenesisState_Validate genState of Some err \<Rightarrow> Err err | None \<Rightarrow> Ok ()))"

definition AppModule_InitGenesis ::
  "('s, 'ak, 'bk) AppModule \<Rightarrow> 's \<Rightarrow> string \<Rightarrow> (go_error, unit) outcome \<times> 's" where
  "AppModule_InitGenesis am ctx gs =
     (case UnmarshalJSON (am_cdc am) gs zero_GenesisState of
        (genState, Err err) \<Rightarrow> (Panic (error_text (genesis_failure ''unmarshal'' err)), ctx)
      | (genState, Panic p) \<Rightarrow> (Panic p, ctx)
      | (genState, Ok u) \<Rightarrow>
          (case Keeper_InitGenesis (am_keeper am) ctx genState of
             (Err err, ctx') \<Rightarrow> (Panic (error_text (genesis_failure ''initialize'' err)), ctx')
           | r \<Rightarrow> r))"

definition AppModule_ExportGenesis ::
  "('s, 'ak, 'bk) AppModule \<Rightarrow> 's \<Rightarrow> (go_error, string) outcome" where
  "AppModule_ExportGenesis am ctx =
     (case Keeper_ExportGenesis (am_keeper am) ctx of
        Err err \<Rightarrow> Panic (error_text (genesis_failure ''export'' err))
      | Panic p \<Rightarrow> Panic p
      | Ok genState \<Rightarrow>
          (case MarshalJSON (am_cdc am) genState of
             Err err \<Rightarrow> Panic (error_text (genesis_failure ''marshal'' err))
           | r \<Rightarrow> r))"

definition BeginBlock :: "('s, 'ak, 'bk) AppModule \<Rightarrow> 's \<Rightarrow> (go_error, unit) outcome \<times> 's" where
  "BeginBlock am ctx = (Ok (), ctx)"

definition EndBlock :: "('s, 'ak, 'bk) AppModule \<Rightarrow> 's \<Rightarrow> (go_error, unit) outcome \<times> 's" where
  "EndBlock am ctx = (Ok (), ctx)"

text \<open>
  \<open>RegisterServices\<close>: the registrar is what it has been given so far, service by service.
\<close>

datatype 's service =
    MsgService "('s MsgServer \<Rightarrow> 's \<Rightarrow> (MsgUpdateParams \<Rightarrow> MsgUpdateParams \<times> (go_error, unit) outcome) \<Rightarrow>
      ('s, 's MsgServer, MsgUpdateParamsResponse) interceptor option \<Rightarrow>
      (go_error, MsgUpdateParamsResponse) outcome \<times> 's) ServiceDesc" "'s MsgServer"
  | QueryService "('s QueryServer \<Rightarrow> 's \<Rightarrow> (QueryParamsRequest \<Rightarrow> QueryParamsRequest \<times> (go_error, unit) outcome) \<Rightarrow>
      ('s, 's QueryServer, QueryParamsResponse) interceptor option \<Rightarrow>
      (go_error, QueryParamsResponse) outcome \<times> 's) ServiceDesc" "'s QueryServer"

definition RegisterMsgServer :: "'s service list \<Rightarrow> 's MsgServer \<Rightarrow> 's service list" where
  "RegisterMsgServer s srv = s @ [MsgService Msg_serviceDesc srv]"

definition RegisterQueryServer :: "'s service list \<Rightarrow> 's QueryServer \<Rightarrow> 's service list" where
  "RegisterQueryServer s srv = s @ [QueryService Query_serviceDesc srv]"

definition RegisterServices ::
  "go_error \<Rightarrow> ('s, 'ak, 'bk) AppModule \<Rightarrow> 's service list \<Rightarrow> (go_error, unit) outcome \<times> 's service list" where
  "RegisterServices ErrNotFound am registrar =
     (let registrar = RegisterMsgServer registrar (NewMsgServerImpl (am_keeper am));
          registrar = RegisterQueryServer registrar (NewQueryServerImpl ErrNotFound (am_keeper am))
      in (Ok (), registrar))"

text \<open>
  \<open>RegisterInterfaces\<close>: an interface registry is the messages it knows as \<open>sdk.Msg\<close>, by type URL, and
  the message services of which it has the descriptions. \<open>RegisterLegacyAminoCodec\<close> registers
  nothing.
\<close>

record interface_registry =
  ir_msgs :: "string list"
  ir_services :: "string list"

definition types_RegisterInterfaces :: "interface_registry \<Rightarrow> interface_registry" where
  "types_RegisterInterfaces registrar =
     (let registrar = registrar\<lparr>ir_msgs := ir_msgs registrar @ [''/pulsar.pulsar.v1.MsgUpdateParams'']\<rparr>
      in registrar\<lparr>ir_services := ir_services registrar @ [Msg_ServiceName]\<rparr>)"

definition AppModule_RegisterInterfaces ::
  "('s, 'ak, 'bk) AppModule \<Rightarrow> interface_registry \<Rightarrow> interface_registry" where
  "AppModule_RegisterInterfaces am registrar = types_RegisterInterfaces registrar"

definition RegisterLegacyAminoCodec :: "('s, 'ak, 'bk) AppModule \<Rightarrow> 'amino \<Rightarrow> 'amino" where
  "RegisterLegacyAminoCodec am cdc = cdc"

text \<open>The gateway routes of the module: an error of the registration panics.\<close>

definition RegisterGRPCGatewayRoutes ::
  "('s, 'ak, 'bk) AppModule \<Rightarrow> ('q \<Rightarrow> go_error + 's) \<Rightarrow>
   ('s, QueryParamsRequest, QueryParamsResponse) Invoke \<Rightarrow> ('q, 's) route list \<Rightarrow>
   (go_error, ('q, 's) route list) outcome" where
  "RegisterGRPCGatewayRoutes am annotate conn mux =
     (case RegisterQueryHandlerClient annotate mux (queryClient_Params conn) of
        (mux', None) \<Rightarrow> Ok mux'
      | (mux', Some err) \<Rightarrow> Panic (error_text err))"

section \<open>Dependency injection\<close>

record ('s, 'ak, 'bk) ModuleInputs =
  in_Config :: "Module option"
  in_StoreService :: "string \<Rightarrow> string \<Rightarrow> 's params_item"
  in_Cdc :: json_codec
  in_AddressCodec :: address_codec
  in_AuthKeeper :: 'ak
  in_BankKeeper :: 'bk

record ('s, 'ak, 'bk) ModuleOutputs =
  out_PulsarKeeper :: "'s Keeper"
  out_Module :: "('s, 'ak, 'bk) AppModule"

text \<open>
  \<open>NewModuleAddress\<close> and \<open>NewModuleAddressOrBech32Address\<close> are x/auth's; \<open>build\<close> is as in
  \<open>NewKeeper\<close>. A nil configuration is dereferenced.
\<close>

definition ProvideModule ::
  "(string \<Rightarrow> bytes) \<Rightarrow> (string \<Rightarrow> bytes) \<Rightarrow> ((string \<times> string) list \<Rightarrow> go_error option) \<Rightarrow>
   ('s, 'ak, 'bk) ModuleInputs \<Rightarrow> (go_error, ('s, 'ak, 'bk) ModuleOutputs) outcome" where
  "ProvideModule NewModuleAddress NewModuleAddressOrBech32Address build inputs =
     (case in_Config inputs of
        None \<Rightarrow> Panic nil_panic
      | Some config \<Rightarrow>
          (let authority =
             (if mod_Authority config \<noteq> []
              then NewModuleAddressOrBech32Address (mod_Authority config)
              else NewModuleAddress GovModuleName)
           in chain (NewKeeper (in_StoreService inputs) build (in_AddressCodec inputs) authority)
             (\<lambda>k. let m = NewAppModule (in_Cdc inputs) k (in_AuthKeeper inputs) (in_BankKeeper inputs)
                  in Ok \<lparr>out_PulsarKeeper = k, out_Module = m\<rparr>)))"

section \<open>Simulation\<close>

record sim_state =
  sim_Accounts :: "string list"
  sim_GenState :: "string \<rightharpoonup> string"

definition GenerateGenesisState ::
  "json_codec \<Rightarrow> sim_state \<Rightarrow> (go_error, sim_state) outcome" where
  "GenerateGenesisState cdc simState =
     (let pulsarGenesis = \<lparr>gs_Params = DefaultParams\<rparr>
      in chain (MustMarshalJSON cdc pulsarGenesis)
        (\<lambda>bz. Ok (simState\<lparr>sim_GenState := (sim_GenState simState)(ModuleName \<mapsto> bz)\<rparr>)))"

definition WeightedOperations :: "sim_state \<Rightarrow> (string \<times> nat) list" where
  "WeightedOperations simState = []"

definition ProposalMsgs :: "sim_state \<Rightarrow> (string \<times> nat) list" where
  "ProposalMsgs simState = []"

section \<open>Automatic command line\<close>

record RpcCommandOptions =
  rpc_RpcMethod :: string
  rpc_Use :: string
  rpc_Short :: string
  rpc_Skip :: bool

record ServiceCommandDescriptor =
  scd_Service :: string
  scd_EnhanceCustomCommand :: bool
  scd_RpcCommandOptions :: "RpcCommandOptions list"

record ModuleOptions =
  mo_Query :: ServiceCommandDescriptor
  mo_Tx :: ServiceCommandDescriptor

definition AutoCLIOptions :: ModuleOptions where
  "AutoCLIOptions =
     \<lparr>mo_Query = \<lparr>scd_Service = Query_ServiceName, scd_EnhanceCustomCommand = False,
        scd_RpcCommandOptions =
          [\<lparr>rpc_RpcMethod = ''Params'', rpc_Use = ''params'',
            rpc_Short = ''Shows the parameters of the module'', rpc_Skip = False\<rparr>]\<rparr>,
      mo_Tx = \<lparr>scd_Service = Msg_ServiceName, scd_EnhanceCustomCommand = True,
        scd_RpcCommandOptions =
          [\<lparr>rpc_RpcMethod = ''UpdateParams'', rpc_Use = [], rpc_Short = [], rpc_Skip = True\<rparr>]\<rparr>\<rparr>"

section \<open>Genesis through JSON\<close>

text \<open>
  What the SDK documents of its JSON codec: \<open>MustMarshalJSON\<close> is \<open>MarshalJSON\<close> with a panic for
  an error, and decoding what was encoded gives the value back.
\<close>

definition lawful_json :: "json_codec \<Rightarrow> bool" where
  "lawful_json cdc \<longleftrightarrow>
     (\<forall>g bz. MarshalJSON cdc g = Ok bz \<longrightarrow>
        MustMarshalJSON cdc g = Ok bz \<and> UnmarshalJSON cdc bz zero_GenesisState = (g, Ok ())) \<and>
     (\<forall>g e. MarshalJSON cdc g = Err e \<longrightarrow> MustMarshalJSON cdc g = Panic (error_text e)) \<and>
     (\<forall>g p. MarshalJSON cdc g = Panic p \<longrightarrow> MustMarshalJSON cdc g = Panic p)"

lemma lawful_json_must:
  "lawful_json cdc \<Longrightarrow> MustMarshalJSON cdc g = Ok bz \<longleftrightarrow> MarshalJSON cdc g = Ok bz"
  unfolding lawful_json_def by (cases "MarshalJSON cdc g") auto

lemma lawful_json_back:
  "lawful_json cdc \<Longrightarrow> MarshalJSON cdc g = Ok bz \<Longrightarrow>
   UnmarshalJSON cdc bz zero_GenesisState = (g, Ok ())"
  unfolding lawful_json_def by blast

text \<open>The module as the application builds it, over a keeper whose item is lawful.\<close>

locale pulsar_module = params_keeper "am_keeper am"
  for am :: "('s, 'ak, 'bk) AppModule" +
  assumes json: "lawful_json (am_cdc am)"
begin

lemma default_valid:
  "AppModule_DefaultGenesis am = Ok bz \<Longrightarrow> AppModule_ValidateGenesis am bz = Ok ()"
  by (simp add: AppModule_DefaultGenesis_def AppModule_ValidateGenesis_def
      lawful_json_must [OF json] lawful_json_back [OF json] GenesisState_Validate_def
      Params_Validate_def)

lemma init_then_export:
  assumes "MarshalJSON (am_cdc am) g = Ok bz" and "AppModule_InitGenesis am s bz = (Ok (), s')"
  shows "AppModule_ExportGenesis am s' = Ok bz"
proof -
  have "Keeper_InitGenesis (am_keeper am) s g = (Ok (), s')"
    using assms(2) lawful_json_back [OF json assms(1)]
    by (auto simp: AppModule_InitGenesis_def split: prod.splits outcome.splits)
  then show ?thesis
    using init_export [of s g s'] assms(1) by (simp add: AppModule_ExportGenesis_def)
qed

lemma init_default_export:
  assumes "AppModule_DefaultGenesis am = Ok bz" and "AppModule_InitGenesis am s bz = (Ok (), s')"
  shows "AppModule_ExportGenesis am s' = Ok bz"
  using init_then_export [OF _ assms(2)] assms(1)
  by (simp add: AppModule_DefaultGenesis_def lawful_json_must [OF json])

lemma init_readable:
  "AppModule_InitGenesis am s bz = (Ok (), s') \<Longrightarrow> readable (am_keeper am) s'"
  by (auto simp: AppModule_InitGenesis_def Keeper_InitGenesis_def readable_def
      split: prod.splits outcome.splits dest: set_get)

end

text \<open>
  \<open>InitGenesis\<close> never returns an error: it succeeds or panics, and an undecodable genesis panics
  before the state is touched.
\<close>

lemma InitGenesis_no_error: "fst (AppModule_InitGenesis am s bz) \<noteq> Err e"
  by (auto simp: AppModule_InitGenesis_def split: prod.splits outcome.splits)

lemma InitGenesis_undecodable:
  "\<not> is_ok (snd (UnmarshalJSON (am_cdc am) bz zero_GenesisState)) \<Longrightarrow>
   is_panic (fst (AppModule_InitGenesis am s bz)) \<and> snd (AppModule_InitGenesis am s bz) = s"
  by (auto simp: AppModule_InitGenesis_def split: prod.splits outcome.splits)

section \<open>Histories of the module's state\<close>

datatype entry =
    ServeUpdateParams "MsgUpdateParams \<Rightarrow> MsgUpdateParams \<times> (go_error, unit) outcome"
  | ServeQueryParams "QueryParamsRequest \<Rightarrow> QueryParamsRequest \<times> (go_error, unit) outcome"
  | RunBeginBlock
  | RunEndBlock
  | RunExport

text \<open>
  One rule per entry point. The handlers run without interceptor, as baseapp runs them for a
  message whose bytes \<open>dec\<close> decodes.
\<close>

inductive module_step ::
  "go_error \<Rightarrow> ('s, 'ak, 'bk) AppModule \<Rightarrow> 's \<Rightarrow> entry \<Rightarrow> 's \<Rightarrow> bool" for nf am where
  update: "Msg_UpdateParams_Handler (NewMsgServerImpl (am_keeper am)) s dec None = (r, s') \<Longrightarrow>
     module_step nf am s (ServeUpdateParams dec) s'"
| query: "Query_Params_Handler (NewQueryServerImpl nf (am_keeper am)) s dec' None = (r', s') \<Longrightarrow>
     module_step nf am s (ServeQueryParams dec') s'"
| begin_block: "BeginBlock am s = (u, s') \<Longrightarrow> module_step nf am s RunBeginBlock s'"
| end_block: "EndBlock am s = (u, s') \<Longrightarrow> module_step nf am s RunEndBlock s'"
| export: "AppModule_ExportGenesis am s = x \<Longrightarrow> module_step nf am s RunExport s"

inductive module_run ::
  "go_error \<Rightarrow> ('s, 'ak, 'bk) AppModule \<Rightarrow> 's \<Rightarrow> entry list \<Rightarrow> 's \<Rightarrow> bool" for nf am where
  stop: "module_run nf am s [] s"
| step: "module_step nf am s e s' \<Longrightarrow> module_run nf am s' es s'' \<Longrightarrow> module_run nf am s (e # es) s''"

inductive_simps module_run_simps: "module_run nf am s [] t" "module_run nf am s (e # es) t"
inductive_cases module_stepE: "module_step nf am s e t"
inductive_simps module_step_update: "module_step nf am s (ServeUpdateParams dec) t"

text \<open>An entry that can change the parameters: an update that decodes to an authorised request.\<close>

fun authorised_entry :: "'s Keeper \<Rightarrow> entry \<Rightarrow> bool" where
  "authorised_entry k (ServeUpdateParams dec) =
     (case dec MsgUpdateParams_zero of (m, Ok u) \<Rightarrow> authorised k m | _ \<Rightarrow> False)"
| "authorised_entry k _ = False"

lemma Msg_UpdateParams_Handler_plain:
  "Msg_UpdateParams_Handler (NewMsgServerImpl k) s dec None =
     (case dec MsgUpdateParams_zero of
        (m, Ok u) \<Rightarrow> UpdateParams k s (Some m)
      | (m, Err e) \<Rightarrow> (Err e, s)
      | (m, Panic p) \<Rightarrow> (Panic p, s))"
  by (auto simp: Msg_UpdateParams_Handler_def NewMsgServerImpl_def split: prod.splits outcome.splits)

lemma module_step_frame:
  assumes "module_step nf am s e t" and "\<not> authorised_entry (am_keeper am) e"
  shows "t = s"
proof (cases e)
  case (ServeUpdateParams dec)
  then show ?thesis
    using assms UpdateParams_frame [of "Some m" "am_keeper am" s for m]
    by (force simp: module_step_update Msg_UpdateParams_Handler_plain split: prod.splits outcome.splits)
qed (use assms(1) in \<open>auto elim!: module_stepE simp: Query_Params_Handler_def
    NewQueryServerImpl_def BeginBlock_def EndBlock_def split: prod.splits outcome.splits\<close>)

lemma module_run_frame:
  assumes "module_run nf am s es t" and "\<forall>e \<in> set es. \<not> authorised_entry (am_keeper am) e"
  shows "t = s"
  using assms by (induction rule: module_run.induct) (auto dest: module_step_frame)

context pulsar_module begin

lemma step_readable:
  assumes "module_step nf am s e t" and "readable (am_keeper am) s"
  shows "readable (am_keeper am) t"
proof (cases "authorised_entry (am_keeper am) e")
  case True
  then obtain dec m u where "e = ServeUpdateParams dec" "dec MsgUpdateParams_zero = (m, Ok u)"
    by (cases e) (auto split: prod.splits outcome.splits)
  then show ?thesis
    using assms update_readable [of s "Some m"]
    by (auto simp: module_step_update Msg_UpdateParams_Handler_plain)
next
  case False
  then show ?thesis using module_step_frame [OF assms(1)] assms(2) by simp
qed

lemma run_readable:
  "module_run nf am s es t \<Longrightarrow> readable (am_keeper am) s \<Longrightarrow> readable (am_keeper am) t"
  by (induction rule: module_run.induct) (auto dest: step_readable)

text \<open>Once genesis has run, every query is answered, after any history.\<close>

lemma run_query:
  assumes "AppModule_InitGenesis am s bz = (Ok (), s1)" and "module_run nf am s1 es t"
  shows "\<exists>p. Query_Params nf (am_keeper am) t (Some q) = Ok \<lparr>qpr_Params = p\<rparr>"
  using run_readable [OF assms(2) init_readable [OF assms(1)]]
  by (auto simp: readable_def is_ok_iff Query_Params_def)

end

section \<open>The module over a key-value store\<close>

text \<open>
  The JSON text of the module's genesis state, whose only field is the empty parameters object.
\<close>

definition genesis_json :: string where
  "genesis_json = [CHR 0x7B] @ [CHR 0x22] @ ''params'' @ [CHR 0x22] @ '':{}}''"

definition kv_json :: json_codec where
  "kv_json =
     \<lparr>MarshalJSON = (\<lambda>g. Ok genesis_json),
      MustMarshalJSON = (\<lambda>g. Ok genesis_json),
      UnmarshalJSON = (\<lambda>bz g. if bz = genesis_json then (zero_GenesisState, Ok ())
                             else (g, Err (LibError ''unexpected JSON'')))\<rparr>"

lemma GenesisState_unique: "(g :: GenesisState) = zero_GenesisState"
  by (cases g; cases "gs_Params g") (simp add: zero_GenesisState_def)

lemma kv_json_lawful: "lawful_json kv_json"
  using GenesisState_unique [symmetric] by (auto simp: lawful_json_def kv_json_def)

definition kv_module :: "bytes \<Rightarrow> (kv_store, unit, unit) AppModule" where
  "kv_module a = NewAppModule kv_json (kv_keeper a) () ()"

interpretation kvm: pulsar_module "kv_module a" for a
  by unfold_locales (simp_all add: kv_module_def NewAppModule_def kv_json_lawful kv.lawful)

definition kv_inputs :: "string \<Rightarrow> (kv_store, unit, unit) ModuleInputs" where
  "kv_inputs authority =
     \<lparr>in_Config = Some \<lparr>mod_Authority = authority\<rparr>, in_StoreService = kv_item, in_Cdc = kv_json,
      in_AddressCodec = plain_codec, in_AuthKeeper = (), in_BankKeeper = ()\<rparr>"

text \<open>Dependency injection builds exactly this module, with the authority of the configuration.\<close>

lemma ProvideModule_kv:
  assumes "bytes_of (if authority = [] then GovModuleName else authority) \<noteq> []"
  shows "ProvideModule bytes_of bytes_of (\<lambda>_. None) (kv_inputs authority) =
    Ok \<lparr>out_PulsarKeeper = kv_keeper (bytes_of (if authority = [] then GovModuleName else authority)),
        out_Module = kv_module (bytes_of (if authority = [] then GovModuleName else authority))\<rparr>"
  using assms
  by (simp add: ProvideModule_def kv_inputs_def NewKeeper_kv kv_module_def Let_def split: if_splits)

text \<open>What dependency injection decides: the authority, and whether the keeper can be built.\<close>

lemma ProvideModule_Ok_iff:
  "ProvideModule nma nmab build i = Ok out \<longleftrightarrow>
     (\<exists>c. in_Config i = Some c \<and>
       (let a = (if mod_Authority c = [] then nma ''gov'' else nmab (mod_Authority c));
            k = \<lparr>k_addressCodec = in_AddressCodec i, k_authority = a,
                 k_Schema = [(''p_pulsar'', ''params'')],
                 k_Params = in_StoreService i ''p_pulsar'' ''params''\<rparr>
        in snd (BytesToString (in_AddressCodec i) a) = None \<and>
           build [(''p_pulsar'', ''params'')] = None \<and>
           out = \<lparr>out_PulsarKeeper = k,
             out_Module = NewAppModule (in_Cdc i) k (in_AuthKeeper i) (in_BankKeeper i)\<rparr>))"
proof (cases "in_Config i")
  case (Some c)
  then show ?thesis
    unfolding ProvideModule_def NewKeeper_def GovModuleName_def ParamsKey_def Let_def
    by (auto simp: eq_commute [of _ out] split: option.split)
qed (simp add: ProvideModule_def)

lemma ProvideModule_no_error: "ProvideModule nma nmab build i \<noteq> Err e"
  by (auto simp: ProvideModule_def NewKeeper_def Let_def split: option.splits)

end
