(* ===== verification/Pulsar_Register.thy ===== *)
theory Pulsar_Register
  imports Pulsar_Module
begin

text \<open>
  What the x/pulsar module promises, without stores, codecs and services: an authorised register. The
  machine \<open>spec_run\<close> holds the parameters, or nothing before they were ever stored, and gives a
  reply to each request. The section on the module makes its entry points reply (\<open>serve\<close>) and
  shows, inside \<open>params_keeper\<close>'s extension \<open>pulsar_module\<close>, that every history of the module is one of
  the register.
\<close>

section \<open>The register\<close>

text \<open>
  \<open>Put\<close> carries whether its sender is the authority. A store may fail, so an authorised update may be
  refused; a refused one changes nothing. Reading an empty register gives the zero parameters,
  but an empty register has no genesis to export.
\<close>

datatype request = Put bool Params | Read | Dump | Tick | Garbled

datatype reply = Updated | Answered Params | Dumped string | Done | Refused

inductive spec_step ::
  "(Params \<Rightarrow> string option) \<Rightarrow> Params option \<Rightarrow> request \<Rightarrow> reply \<Rightarrow> Params option \<Rightarrow> bool" for print where
  put: "spec_step print reg (Put True p) Updated (Some p)"
| put_refused: "spec_step print reg (Put a p) Refused reg"
| read: "spec_step print reg Read (Answered (case reg of Some p \<Rightarrow> p | None \<Rightarrow> Params)) reg"
| dump: "print p = Some text \<Longrightarrow> spec_step print (Some p) Dump (Dumped text) (Some p)"
| dump_refused: "Option.bind reg print = None \<Longrightarrow> spec_step print reg Dump Refused reg"
| tick: "spec_step print reg Tick Done reg"
| garbled: "spec_step print reg Garbled Refused reg"

inductive spec_run ::
  "(Params \<Rightarrow> string option) \<Rightarrow> Params option \<Rightarrow> request list \<Rightarrow> reply list \<Rightarrow> Params option \<Rightarrow> bool" for print where
  stop: "spec_run print reg [] [] reg"
| step: "spec_step print reg q r reg' \<Longrightarrow> spec_run print reg' qs rs reg'' \<Longrightarrow>
    spec_run print reg (q # qs) (r # rs) reg''"

inductive_cases spec_stepE: "spec_step print reg q r reg'"
inductive_simps spec_run_simps: "spec_run print reg [] rs reg'" "spec_run print reg (q # qs) rs reg'"

text \<open>The last accepted update decides what the register holds.\<close>

fun held :: "Params option \<Rightarrow> request list \<Rightarrow> reply list \<Rightarrow> Params option" where
  "held reg (Put a p # qs) (Updated # rs) = held (Some p) qs rs"
| "held reg (q # qs) (r # rs) = held reg qs rs"
| "held reg qs rs = reg"

lemma spec_run_held: "spec_run print reg qs rs reg' \<Longrightarrow> reg' = held reg qs rs"
  by (induction rule: spec_run.induct) (auto elim!: spec_stepE)

text \<open>Without an update of the authority, nothing is ever accepted.\<close>

lemma spec_run_unauthorised:
  assumes "spec_run print reg qs rs reg'" and "\<forall>p. Put True p \<notin> set qs"
  shows "reg' = reg \<and> Updated \<notin> set rs"
  using assms by (induction rule: spec_run.induct) (auto elim!: spec_stepE)

section \<open>The module as a register\<close>

text \<open>The request that an entry carries, and the reply that its caller gets.\<close>

fun request_of :: "'s Keeper \<Rightarrow> entry \<Rightarrow> request" where
  "request_of k (ServeUpdateParams dec) =
     (case dec MsgUpdateParams_zero of (m, Ok u) \<Rightarrow> Put (authorised k m) (mup_Params m) | _ \<Rightarrow> Garbled)"
| "request_of k (ServeQueryParams dec) =
     (case dec QueryParamsRequest of (q, Ok u) \<Rightarrow> Read | _ \<Rightarrow> Garbled)"
| "request_of k RunExport = Dump"
| "request_of k RunBeginBlock = Tick"
| "request_of k RunEndBlock = Tick"

definition reply_with :: "('a \<Rightarrow> reply) \<Rightarrow> (go_error, 'a) outcome \<times> 's \<Rightarrow> reply \<times> 's" where
  "reply_with f x = (case x of (Ok a, s) \<Rightarrow> (f a, s) | (_, s) \<Rightarrow> (Refused, s))"

fun serve :: "go_error \<Rightarrow> ('s, 'ak, 'bk) AppModule \<Rightarrow> 's \<Rightarrow> entry \<Rightarrow> reply \<times> 's" where
  "serve nf am s (ServeUpdateParams dec) =
     reply_with (\<lambda>_. Updated) (Msg_UpdateParams_Handler (NewMsgServerImpl (am_keeper am)) s dec None)"
| "serve nf am s (ServeQueryParams dec) =
     reply_with (\<lambda>r. Answered (qpr_Params r))
       (Query_Params_Handler (NewQueryServerImpl nf (am_keeper am)) s dec None)"
| "serve nf am s RunBeginBlock = reply_with (\<lambda>_. Done) (BeginBlock am s)"
| "serve nf am s RunEndBlock = reply_with (\<lambda>_. Done) (EndBlock am s)"
| "serve nf am s RunExport = reply_with Dumped (AppModule_ExportGenesis am s, s)"

fun serve_all :: "go_error \<Rightarrow> ('s, 'ak, 'bk) AppModule \<Rightarrow> 's \<Rightarrow> entry list \<Rightarrow> reply list \<times> 's" where
  "serve_all nf am s [] = ([], s)"
| "serve_all nf am s (e # es) =
     (case serve nf am s e of (r, s1) \<Rightarrow> (case serve_all nf am s1 es of (rs, t) \<Rightarrow> (r # rs, t)))"

lemma reply_with_snd: "snd (reply_with f x) = snd x"
  by (auto simp: reply_with_def split: prod.split outcome.split)

lemma module_step_serve: "module_step nf am s e t \<longleftrightarrow> t = snd (serve nf am s e)"
  by (cases e) (auto elim!: module_stepE simp: reply_with_snd intro: module_step.export
      module_step.update [OF surjective_pairing] module_step.query [OF surjective_pairing]
      module_step.begin_block [OF surjective_pairing] module_step.end_block [OF surjective_pairing])

lemma module_run_serve: "module_run nf am s es t \<longleftrightarrow> t = snd (serve_all nf am s es)"
  by (induction es arbitrary: s) (auto simp: module_run_simps module_step_serve split: prod.split)

text \<open>
  The abstraction: what the item holds. The refinement needs that the item, if it does not give
  parameters, says that there are none.
\<close>

definition register_of :: "('s, 'ak, 'bk) AppModule \<Rightarrow> 's \<Rightarrow> Params option" where
  "register_of am s = (case item_Get (k_Params (am_keeper am)) s of Ok p \<Rightarrow> Some p | _ \<Rightarrow> None)"

definition settled :: "go_error \<Rightarrow> ('s, 'ak, 'bk) AppModule \<Rightarrow> 's \<Rightarrow> bool" where
  "settled nf am s \<longleftrightarrow>
     (case item_Get (k_Params (am_keeper am)) s of Ok p \<Rightarrow> True | Err e \<Rightarrow> errors_Is e nf | Panic p \<Rightarrow> False)"

definition genesis_text :: "('s, 'ak, 'bk) AppModule \<Rightarrow> Params \<Rightarrow> string option" where
  "genesis_text am p =
     (case MarshalJSON (am_cdc am) \<lparr>gs_Params = p\<rparr> of Ok text \<Rightarrow> Some text | _ \<Rightarrow> None)"

context pulsar_module begin

lemma update_simulated:
  assumes "UpdateParams (am_keeper am) s (Some m) = (r, t)"
  shows "spec_step print (register_of am s) (Put (authorised (am_keeper am) m) (mup_Params m))
      (if is_ok r then Updated else Refused) (register_of am t)"
    and "settled nf am s \<Longrightarrow> settled nf am t"
proof -
  let ?set = "item_Set (k_Params (am_keeper am))"
  obtain x u where x: "?set s (mup_Params m) = (x, u)" by force
  have "(is_ok r \<and> authorised (am_keeper am) m \<and> item_Get (k_Params (am_keeper am)) t = Ok (mup_Params m)) \<or>
      (\<not> is_ok r \<and> item_Get (k_Params (am_keeper am)) t = item_Get (k_Params (am_keeper am)) s)"
  proof (cases "authorised (am_keeper am) m")
    case True
    then have u: "t = u" "is_ok r = is_ok x"
      using assms x by (cases x; simp add: UpdateParams_authorised; auto)+
    show ?thesis
    proof (cases x)
      case (Ok a)
      then show ?thesis using True u set_get [of s "mup_Params m" u] x by simp
    next
      case (Err e)
      then show ?thesis using u x lawful unfolding lawful_item_def by (metis fst_conv is_ok.simps(2))
    next
      case (Panic p)
      then show ?thesis using u x lawful unfolding lawful_item_def by (metis fst_conv is_ok.simps(3))
    qed
  next
    case False
    then show ?thesis using UpdateParams_unauthorised [OF False, of s] assms by auto
  qed
  then show "spec_step print (register_of am s) (Put (authorised (am_keeper am) m) (mup_Params m))
      (if is_ok r then Updated else Refused) (register_of am t)"
    and "settled nf am s \<Longrightarrow> settled nf am t"
    by (auto simp: register_of_def settled_def intro: spec_step.intros)
qed

lemma query_simulated:
  "settled nf am s \<Longrightarrow>
   Query_Params nf (am_keeper am) s (Some q) =
     Ok \<lparr>qpr_Params = (case register_of am s of Some p \<Rightarrow> p | None \<Rightarrow> Params)\<rparr>"
  by (auto simp: Query_Params_def register_of_def settled_def split: outcome.splits)

lemma export_simulated:
  "spec_step (genesis_text am) (register_of am s) Dump
     (case AppModule_ExportGenesis am s of Ok text \<Rightarrow> Dumped text | _ \<Rightarrow> Refused) (register_of am s)"
  by (auto simp: AppModule_ExportGenesis_def Keeper_ExportGenesis_def DefaultGenesis_def
      register_of_def genesis_text_def intro: spec_step.intros split: outcome.splits)

lemma serve_simulated:
  assumes "serve nf am s e = (r, t)" "settled nf am s"
  shows "spec_step (genesis_text am) (register_of am s) (request_of (am_keeper am) e) r (register_of am t) \<and>
    settled nf am t"
proof (cases e)
  case (ServeUpdateParams dec)
  obtain m d where d: "dec MsgUpdateParams_zero = (m, d)" by force
  obtain x u where x: "UpdateParams (am_keeper am) s (Some m) = (x, u)" by force
  show ?thesis
    using assms ServeUpdateParams d x update_simulated [OF x]
    by (cases d; cases x)
      (auto simp: Msg_UpdateParams_Handler_plain reply_with_def intro: spec_step.intros)
next
  case (ServeQueryParams dec)
  obtain m d where d: "dec QueryParamsRequest = (m, d)" by force
  show ?thesis
    using assms ServeQueryParams d
    by (cases d) (auto simp: Query_Params_Handler_def NewQueryServerImpl_def reply_with_def
        query_simulated intro: spec_step.intros)
next
  case RunExport
  then show ?thesis
    using assms export_simulated [of s]
    by (cases "AppModule_ExportGenesis am s") (auto simp: reply_with_def)
qed (use assms in \<open>auto simp: BeginBlock_def EndBlock_def reply_with_def intro: spec_step.intros\<close>)

lemma run_simulated:
  assumes "serve_all nf am s es = (rs, t)" "settled nf am s"
  shows "spec_run (genesis_text am) (register_of am s) (map (request_of (am_keeper am)) es) rs (register_of am t)"
  using assms
proof (induction es arbitrary: s rs)
  case (Cons e es)
  obtain r s1 where e: "serve nf am s e = (r, s1)" by force
  obtain rs' t' where es: "serve_all nf am s1 es = (rs', t')" by force
  then show ?case
    using Cons.IH [OF _ conjunct2 [OF serve_simulated [OF e Cons.prems(2)]]] e Cons.prems(1)
      serve_simulated [OF e Cons.prems(2)]
    by (auto intro: spec_run.step)
qed (auto intro: spec_run.stop)

end

text \<open>The state behind the key-value keeper is settled when its key is absent or empty.\<close>

lemma kv_settled: "s (bytes_of ParamsKey) = None \<Longrightarrow> settled kv_ErrNotFound (kv_module a) s"
  by (simp add: settled_def kv_module_def NewAppModule_def kv_keeper_def kv_item_def kv_ErrNotFound_def)

end
