(* ===== verification/Pulsar_Properties.thy ===== *)
theory Pulsar_Properties
  imports Pulsar_Register Wire_Properties
begin

text \<open>
  The properties of the x/pulsar module: its keeper, its services, its module object and the
  histories of its state. The witnesses run on the key-value keeper of Pulsar_Keeper and the
  module over it.
\<close>

definition gov_bytes :: bytes where "gov_bytes = bytes_of ''gov''"

lemma gov_authorised: "authorised (kv_keeper gov_bytes) sample_update"
  by (simp add: authorised_def kv_keeper_def plain_codec_def sample_update_def gov_bytes_def)

lemma kv_update: "UpdateParams (kv_keeper gov_bytes) s (Some sample_update) =
    (Ok MsgUpdateParamsResponse, s(bytes_of ParamsKey \<mapsto> []))"
  unfolding UpdateParams_authorised [OF gov_authorised] by (simp add: kv_keeper_def kv_item_set)

section \<open>The message server\<close>

text \<open>
  Every outcome of \<open>UpdateParams\<close>. A nil request panics; an authority that does not convert
  gives its error, wrapped; another authority than the keeper's gives an error that wraps
  \<open>ErrInvalidSigner\<close>; otherwise the result is that of storing the parameters. In the first three
  cases the state is unchanged.
\<close>

lemma UpdateParams_branches:
  "UpdateParams k s req =
     (case req of
        None \<Rightarrow> (Panic nil_panic, s)
      | Some r \<Rightarrow>
          (case StringToBytes (k_addressCodec k) (mup_Authority r) of
             (b, Some e) \<Rightarrow> (Err (Wrapped ''invalid authority address'' e), s)
           | (b, None) \<Rightarrow>
               if b = k_authority k
               then chain_st (item_Set (k_Params k) s (mup_Params r)) (\<lambda>_ t. (Ok MsgUpdateParamsResponse, t))
               else (Err (wrong_authority (fst (BytesToString (k_addressCodec k) (k_authority k)))
                       (mup_Authority r)), s))) \<and>
   errors_Is (wrong_authority expected got) ErrInvalidSigner"
  by (auto simp: UpdateParams_def GetAuthority_def Params_Validate_def Let_def wrong_authority_def
      ErrInvalidSigner_def split: option.splits prod.splits)

lemma UpdateParams_changes:
  assumes "UpdateParams k s req = (r, t)" "t \<noteq> s \<or> is_ok r"
  shows "\<exists>m. req = Some m \<and> StringToBytes (k_addressCodec k) (mup_Authority m) = (k_authority k, None)"
proof (rule ccontr)
  assume "\<not> ?thesis"
  then have n: "\<forall>m. req = Some m \<longrightarrow> \<not> authorised k m" by (simp add: authorised_def)
  then have "t = s" using UpdateParams_frame [OF n, of s] assms(1) by simp
  moreover have "\<not> is_ok r"
  proof (cases req)
    case None
    then show ?thesis using assms(1) by (auto simp: UpdateParams_def)
  next
    case (Some m)
    then show ?thesis using n UpdateParams_unauthorised [of k m s] assms(1) by auto
  qed
  ultimately show False using assms(2) by simp
qed

text \<open>
  C1: only the module's authority changes the parameters. Whatever the keeper, the codec and the
  store are, if \<open>UpdateParams\<close> leaves another state than it found, or returns success, the request
  was signed by an address whose bytes are the keeper's authority.
\<close>

theorem UpdateParams_needs_authority:
  assumes "UpdateParams k s req = (r, t)" "t \<noteq> s \<or> is_ok r"
  shows "\<exists>m. req = Some m \<and> StringToBytes (k_addressCodec k) (mup_Authority m) = (k_authority k, None)"
  by (rule UpdateParams_changes [OF assms])

theorem UpdateParams_needs_authority_witness:
  "\<exists>m. Some sample_update = Some m \<and>
     StringToBytes (k_addressCodec (kv_keeper gov_bytes)) (mup_Authority m) = (gov_bytes, None)"
  using UpdateParams_needs_authority [OF kv_update [of Map.empty]] by (simp add: kv_keeper_def)

text \<open>
  An update is seen by the next query. With an item that keeps what it is given, a successful
  \<open>UpdateParams\<close> makes every following query of the same state return the request's parameters.
\<close>

lemma update_then_query:
  assumes "lawful_item (k_Params k)" "UpdateParams k s (Some r) = (Ok resp, t)"
  shows "Query_Params nf k t (Some q) = Ok \<lparr>qpr_Params = mup_Params r\<rparr>"
proof -
  have k: "params_keeper k" using assms(1) by (rule params_keeper.intro)
  show ?thesis by (rule params_keeper.update_query(1) [OF k assms(2)])
qed

text \<open>
  Every outcome of the parameters query. A nil request is refused with \<open>InvalidArgument\<close>;
  parameters that were never stored read as the zero parameters; any other read error becomes
  \<open>Internal\<close> without the original error; the state is not an output of the function.
\<close>

lemma Query_Params_branches:
  "Query_Params nf k s req =
     (case (req, item_Get (k_Params k) s) of
        (None, _) \<Rightarrow> Err (Status InvalidArgument ''invalid request'')
      | (Some r, Ok p) \<Rightarrow> Ok \<lparr>qpr_Params = p\<rparr>
      | (Some r, Panic p) \<Rightarrow> Panic p
      | (Some r, Err e) \<Rightarrow>
          (if errors_Is e nf then Ok \<lparr>qpr_Params = Params\<rparr>
           else Err (Status Internal ''internal error'')))"
  by (simp add: Query_Params_def split: option.split outcome.split)

section \<open>Services\<close>



text \<open>
  C2: from the bytes of a request to the state. Whatever bytes the handler of \<open>UpdateParams\<close> is given, if
  it succeeds or changes the state, then the bytes are a message, and the contents of its last
  field 1, the empty string when there is none, is an address with the authority's bytes.
\<close>

theorem bytes_need_authority:
  assumes "fits b"
    and "Msg_UpdateParams_Handler (NewMsgServerImpl k) s
      (\<lambda>m. apsnd lift_wire (MsgUpdateParams_Unmarshal b m)) None = (r, t)"
    and "t \<noteq> s \<or> is_ok r"
  shows "\<exists>xs. wire_fields xs b \<and> fields_of {1} {2} xs \<and>
    StringToBytes (k_addressCodec k) (last_string 1 xs []) = (k_authority k, None)"
proof -
  obtain m d where d: "MsgUpdateParams_Unmarshal b MsgUpdateParams_zero = (m, d)" by force
  have "d = Ok () \<and> UpdateParams k s (Some m) = (r, t)"
    using assms(2,3) d by (cases d) (auto simp: Msg_UpdateParams_Handler_plain)
  then have u: "d = Ok ()" "UpdateParams k s (Some m) = (r, t)" by simp_all
  then obtain xs where "wire_fields xs b" "fields_of {1} {2} xs" "mup_Authority m = last_string 1 xs []"
    using MsgUpdateParams_Unmarshal_iff [OF assms(1), of MsgUpdateParams_zero m] d
    by (auto simp: MsgUpdateParams_zero_def)
  moreover have "StringToBytes (k_addressCodec k) (mup_Authority m) = (k_authority k, None)"
    using UpdateParams_changes [OF u(2) assms(3)] by simp
  ultimately show ?thesis by auto
qed

theorem bytes_need_authority_witness:
  "\<exists>xs. wire_fields xs [0x0a, 3, 0x67, 0x6f, 0x76] \<and>
     StringToBytes plain_codec (last_string 1 xs []) = (gov_bytes, None)"
proof -
  have g: "string_of [0x67, 0x6f, 0x76] = ''gov''" by (simp add: string_of_def) code_simp
  have i: "wire_item 10 [0x67, 0x6f, 0x76] ([0x0a] @ [3, 0x67, 0x6f, 0x76])"
    by (rule one) (simp_all add: wire_type_def scalar_def exI [of _ "[3]"])
  have x: "wire_fields [(10, [0x67, 0x6f, 0x76])] [0x0a, 3, 0x67, 0x6f, 0x76]"
    using field [OF i wire_fields.nothing] by simp
  have "MsgUpdateParams_Unmarshal [0x0a, 3, 0x67, 0x6f, 0x76] MsgUpdateParams_zero = (sample_update, Ok ())"
    using MsgUpdateParams_Unmarshal_iff [of "[0x0a, 3, 0x67, 0x6f, 0x76]" MsgUpdateParams_zero sample_update] x g
    by (auto simp: fits_def wire_type_def field_num_def MsgUpdateParams_zero_def sample_update_def
        intro!: exI [of _ "[(10, [0x67, 0x6f, 0x76])]"])
  then have h: "Msg_UpdateParams_Handler (NewMsgServerImpl (kv_keeper gov_bytes)) Map.empty
      (\<lambda>m. apsnd lift_wire (MsgUpdateParams_Unmarshal [0x0a, 3, 0x67, 0x6f, 0x76] m)) None =
      (Ok MsgUpdateParamsResponse, [bytes_of ParamsKey \<mapsto> []])"
    by (simp add: Msg_UpdateParams_Handler_plain kv_update)
  from bytes_need_authority [OF _ h] show ?thesis by (auto simp: fits_def kv_keeper_def)
qed


section \<open>The module object\<close>

text \<open>
  Dependency injection succeeds exactly when there is a configuration, the address codec
  accepts the authority, and the schema builds; the authority is the governance module's address
  unless the configuration names one; the keeper and the module it returns are built from the
  inputs; and it never returns an error, only panics.
\<close>

lemma ProvideModule_spec:
  "(ProvideModule nma nmab build i = Ok out \<longleftrightarrow>
     (\<exists>c. in_Config i = Some c \<and>
       (let a = (if mod_Authority c = [] then nma ''gov'' else nmab (mod_Authority c));
            k = \<lparr>k_addressCodec = in_AddressCodec i, k_authority = a,
                 k_Schema = [(''p_pulsar'', ''params'')],
                 k_Params = in_StoreService i ''p_pulsar'' ''params''\<rparr>
        in snd (BytesToString (in_AddressCodec i) a) = None \<and>
           build [(''p_pulsar'', ''params'')] = None \<and>
           out = \<lparr>out_PulsarKeeper = k,
             out_Module = NewAppModule (in_Cdc i) k (in_AuthKeeper i) (in_BankKeeper i)\<rparr>))) \<and>
   ProvideModule nma nmab build i \<noteq> Err e"
  by (intro conjI ProvideModule_Ok_iff ProvideModule_no_error)



section \<open>Histories\<close>

text \<open>
  C4: the module is an authorised register. For every history of its entry points from a state whose
  item holds parameters or reports that there are none, the replies that the callers get and the
  parameters held at the end are those of the abstract register on the requests that the entries
  carry: only an update of the authority is accepted, an update that is refused changes nothing, a
  query returns the parameters held, or the zero ones, and an export returns their JSON, or panics
  when there is nothing to export. No other reply is possible.
\<close>

theorem module_refines_register:
  assumes "lawful_item (k_Params (am_keeper am))" "lawful_json (am_cdc am)"
    and "settled nf am s" "module_run nf am s es t"
  shows "\<exists>rs. serve_all nf am s es = (rs, t) \<and>
    spec_run (genesis_text am) (register_of am s) (map (request_of (am_keeper am)) es) rs (register_of am t)"
proof -
  have m: "pulsar_module am"
    using assms(1,2) by (intro pulsar_module.intro params_keeper.intro pulsar_module_axioms.intro)
  obtain rs where rs: "serve_all nf am s es = (rs, t)"
    using assms(4) by (metis module_run_serve prod.collapse)
  show ?thesis using pulsar_module.run_simulated [OF m rs assms(3)] rs by blast
qed

theorem module_refines_register_witness:
  "\<exists>rs. serve_all kv_ErrNotFound (kv_module gov_bytes) Map.empty
      [RunExport, ServeQueryParams (\<lambda>q. (q, Ok ())), ServeUpdateParams (\<lambda>m. (sample_update, Ok ()))] =
      (rs, [bytes_of ParamsKey \<mapsto> []]) \<and>
    spec_run (genesis_text (kv_module gov_bytes)) None [Dump, Read, Put True Params] rs (Some Params)"
proof -
  let ?es = "[RunExport, ServeQueryParams (\<lambda>q. (q, Ok ())), ServeUpdateParams (\<lambda>m. (sample_update, Ok ()))]"
  have k: "am_keeper (kv_module gov_bytes) = kv_keeper gov_bytes"
    by (simp add: kv_module_def NewAppModule_def)
  have r: "module_run kv_ErrNotFound (kv_module gov_bytes) Map.empty ?es [bytes_of ParamsKey \<mapsto> []]"
    unfolding module_run_serve
    by (simp add: reply_with_snd k Msg_UpdateParams_Handler_plain kv_update Query_Params_Handler_def
        NewQueryServerImpl_def reply_with_def split: prod.split outcome.split)
  show ?thesis
    using module_refines_register [OF _ kvm.json kv_settled r] kvm.lawful [of gov_bytes] gov_authorised
    by (simp add: k register_of_def kv_keeper_def kv_item_def Params_Unmarshal_empty sample_update_def)
qed

text \<open>
  C3: after genesis the module always answers. From the state a successful \<open>InitGenesis\<close> leaves, after
  any sequence of handled messages (authorised or not, decodable or not), queries, block
  boundaries and exports, a parameters query returns parameters and never an error.
\<close>

theorem query_always_answered:
  assumes "lawful_item (k_Params (am_keeper am))" "lawful_json (am_cdc am)"
    and "AppModule_InitGenesis am s bz = (Ok (), s1)" "module_run nf am s1 es t"
  shows "\<exists>p. Query_Params nf (am_keeper am) t (Some q) = Ok \<lparr>qpr_Params = p\<rparr>"
proof -
  have m: "pulsar_module am"
    using assms(1,2) by (intro pulsar_module.intro params_keeper.intro pulsar_module_axioms.intro)
  show ?thesis by (rule pulsar_module.run_query [OF m assms(3,4)])
qed

theorem query_always_answered_witness:
  "\<exists>p. Query_Params kv_ErrNotFound (kv_keeper gov_bytes) [bytes_of ParamsKey \<mapsto> []] (Some QueryParamsRequest) =
     Ok \<lparr>qpr_Params = p\<rparr>"
proof -
  let ?s = "[bytes_of ParamsKey \<mapsto> []]"
  have i: "AppModule_InitGenesis (kv_module gov_bytes) Map.empty genesis_json = (Ok (), ?s)"
    by (simp add: AppModule_InitGenesis_def kv_module_def NewAppModule_def kv_json_def
        Keeper_InitGenesis_def kv_keeper_def kv_item_set)
  have u: "module_step kv_ErrNotFound (kv_module gov_bytes) ?s (ServeUpdateParams (\<lambda>m. (sample_update, Ok ()))) ?s"
    by (simp add: module_step_update Msg_UpdateParams_Handler_plain kv_module_def NewAppModule_def kv_update)
  then have "module_run kv_ErrNotFound (kv_module gov_bytes) ?s
      [ServeUpdateParams (\<lambda>m. (sample_update, Ok ()))] ?s"
    by (auto simp: module_run_simps)
  from query_always_answered [OF _ kvm.json i this] kvm.lawful [of gov_bytes] show ?thesis
    by (simp add: kv_module_def NewAppModule_def)
qed

text \<open>
  In any history of the module's entry points that contains no update whose bytes decode to a
  request of the authority, the state behind the module never changes.
\<close>

lemma history_frame:
  assumes "module_run nf am s es t"
    and "list_all (\<lambda>e. \<not> authorised_entry (am_keeper am) e) es"
  shows "t = s"
  using module_run_frame [OF assms(1)] assms(2) by (simp add: list_all_iff)

end
