(* ===== verification/Sdk_Calls.thy ===== *)
theory Sdk_Calls
  imports Pulsar_Keeper
begin

text \<open>
  The shapes in which the application calls the SDK's keepers: a call gets the block height of the
  context and the state behind it, and returns an outcome and the state it leaves. A keeper's
  iterator gets a callback that says when to stop. The helpers are the error handling that
  app/export.go and cmd/pulsard/cmd/testnet.go put around such calls, and the data of the staking
  and slashing modules that these files construct or change.
\<close>

section \<open>Calls, callbacks and loops\<close>

type_synonym ('s, 'a) call = "int \<Rightarrow> 's \<Rightarrow> (go_error, 'a) outcome \<times> 's"
type_synonym ('s, 'x) iterator =
  "int \<Rightarrow> 's \<Rightarrow> ('x \<Rightarrow> 's \<Rightarrow> (go_error, bool) outcome \<times> 's) \<Rightarrow> (go_error, unit) outcome \<times> 's"

text \<open>\<open>if err != nil { panic(err) }\<close>\<close>

fun panic_on_err :: "(go_error, 'a) outcome \<times> 's \<Rightarrow> (go_error, 'a) outcome \<times> 's" where
  "panic_on_err (Err e, s) = (Panic (error_text e), s)"
| "panic_on_err r = r"

text \<open>\<open>_, _ = call(...)\<close>: the error is dropped, a panic is not.\<close>

fun drop_err :: "(go_error, 'a) outcome \<times> 's \<Rightarrow> (go_error, unit) outcome \<times> 's" where
  "drop_err (Panic p, s) = (Panic p, s)"
| "drop_err (r, s) = (Ok (), s)"

text \<open>An address conversion whose error panics.\<close>

definition must_bytes :: "(string \<Rightarrow> bytes \<times> go_error option) \<Rightarrow> string \<Rightarrow> (go_error, bytes) outcome" where
  "must_bytes conv a =
     (case conv a of (bz, None) \<Rightarrow> Ok bz | (bz, Some e) \<Rightarrow> Panic (error_text e))"

definition pure_call :: "(go_error, 'a) outcome \<Rightarrow> 's \<Rightarrow> (go_error, 'a) outcome \<times> 's" where
  "pure_call r s = (r, s)"

text \<open>\<open>for _, x := range xs { body }\<close>, where the body may leave the function.\<close>

fun for_each ::
  "('x \<Rightarrow> 's \<Rightarrow> ('e, unit) outcome \<times> 's) \<Rightarrow> 'x list \<Rightarrow> 's \<Rightarrow> ('e, unit) outcome \<times> 's" where
  "for_each body [] s = (Ok (), s)"
| "for_each body (x # xs) s = chain_st (body x s) (\<lambda>_ s'. for_each body xs s')"

text \<open>What a keeper's iterator is documented to do with the values it visits.\<close>

fun visit ::
  "('x \<Rightarrow> 's \<Rightarrow> ('e, bool) outcome \<times> 's) \<Rightarrow> 'x list \<Rightarrow> 's \<Rightarrow> ('e, unit) outcome \<times> 's" where
  "visit f [] s = (Ok (), s)"
| "visit f (x # xs) s = chain_st (f x s) (\<lambda>stop s'. if stop then (Ok (), s') else visit f xs s')"

definition iterates :: "('s, 'x) iterator \<Rightarrow> ('s \<Rightarrow> 'x list) \<Rightarrow> bool" where
  "iterates it items \<longleftrightarrow> (\<forall>h s f. it h s f = visit f (items s) s)"

lemma for_each_append:
  "for_each body (xs @ ys) s = chain_st (for_each body xs s) (\<lambda>_ s'. for_each body ys s')"
proof (induction xs arbitrary: s)
  case Nil
  then show ?case by simp
next
  case (Cons x xs)
  obtain r s' where "body x s = (r, s')" by force
  then show ?case using Cons by (cases r) simp_all
qed

lemma panic_on_err_Ok [outcome_simps]: "panic_on_err r = (Ok a, s) \<longleftrightarrow> r = (Ok a, s)"
  by (cases r rule: panic_on_err.cases) auto

lemma panic_on_err_no_Err [simp]: "panic_on_err r \<noteq> (Err e, s)"
  by (cases r rule: panic_on_err.cases) auto

lemma drop_err_Ok [outcome_simps]: "drop_err r = (Ok u, s) \<longleftrightarrow> snd r = s \<and> \<not> is_panic (fst r)"
  by (cases r rule: drop_err.cases) auto

lemma must_bytes_Ok [outcome_simps]: "must_bytes conv a = Ok bz \<longleftrightarrow> conv a = (bz, None)"
  by (auto simp: must_bytes_def split: prod.splits option.splits)

lemma must_bytes_no_Err [simp]: "must_bytes conv a \<noteq> Err e"
  by (auto simp: must_bytes_def split: prod.splits option.splits)

lemma pure_call_Ok [outcome_simps]: "pure_call r s = (Ok a, t) \<longleftrightarrow> r = Ok a \<and> t = s"
  by (auto simp: pure_call_def)

text \<open>
  A property of the state that the body keeps, and one that it establishes for each element and
  later bodies keep, hold after the loop.
\<close>

lemma visit_prefix:
  assumes "visit f xs s = (Ok (), t)" and "P [] s"
    and "\<And>done x rest s s'. xs = done @ x # rest \<Longrightarrow> P done s \<Longrightarrow> f x s = (Ok False, s') \<Longrightarrow>
      P (done @ [x]) s'"
    and "\<And>x s s'. x \<in> set xs \<Longrightarrow> f x s \<noteq> (Ok True, s')"
  shows "P xs t"
proof -
  have "P xs t" if "visit f rest s = (Ok (), t)" "xs = done @ rest" "P done s" for "done" rest s
    using that
  proof (induction rest arbitrary: s "done")
    case (Cons x rest)
    from Cons.prems(1) obtain stop s' where b: "f x s = (Ok stop, s')"
      and r: "(if stop then (Ok (), s') else visit f rest s') = (Ok (), t)"
      by (auto simp: outcome_simps)
    have "\<not> stop" using assms(4) [of x s s'] b Cons.prems(2) by auto
    with b r have f: "f x s = (Ok False, s')" and v: "visit f rest s' = (Ok (), t)" by auto
    have "P (done @ [x]) s'" using assms(3) [OF Cons.prems(2,3) f] .
    with Cons.IH [OF v _ this] Cons.prems(2) show ?case by simp
  qed simp
  from this [OF assms(1) _ assms(2)] show ?thesis by simp
qed

lemma visit_invariant:
  assumes "visit f xs s = (Ok (), t)" and "P [] s"
    and "\<And>done x s s'. P done s \<Longrightarrow> x \<in> set xs \<Longrightarrow> f x s = (Ok False, s') \<Longrightarrow> P (done @ [x]) s'"
    and "\<And>x s s'. x \<in> set xs \<Longrightarrow> f x s \<noteq> (Ok True, s')"
  shows "P xs t"
  by (rule visit_prefix [OF assms(1), where P = P]) (use assms in auto)

lemma for_each_prefix:
  assumes "for_each f xs s = (Ok (), t)" and "P [] s"
    and "\<And>done x rest s s'. xs = done @ x # rest \<Longrightarrow> P done s \<Longrightarrow> f x s = (Ok (), s') \<Longrightarrow>
      P (done @ [x]) s'"
  shows "P xs t"
proof -
  have "P xs t" if "for_each f rest s = (Ok (), t)" "xs = done @ rest" "P done s" for "done" rest s
    using that
  proof (induction rest arbitrary: s "done")
    case (Cons x rest)
    from Cons.prems(1) obtain s' where f: "f x s = (Ok (), s')" and v: "for_each f rest s' = (Ok (), t)"
      by (auto simp: outcome_simps)
    have "P (done @ [x]) s'" using assms(3) [OF Cons.prems(2,3) f] .
    with Cons.IH [OF v _ this] Cons.prems(2) show ?case by simp
  qed simp
  from this [OF assms(1) _ assms(2)] show ?thesis by simp
qed

text \<open>The loop returns when each body does, given what the earlier bodies left.\<close>

lemma for_each_returns:
  assumes "P xs s"
    and "\<And>x rest s. P (x # rest) s \<Longrightarrow> \<exists>s'. f x s = (Ok (), s') \<and> P rest s'"
  shows "\<exists>t. for_each f xs s = (Ok (), t) \<and> P [] t"
  using assms(1)
proof (induction xs arbitrary: s)
  case (Cons x xs)
  from assms(2) [OF Cons.prems] obtain s' where "f x s = (Ok (), s')" "P xs s'" by blast
  with Cons.IH [of s'] show ?case by simp
qed simp

text \<open>A call that succeeds in every state.\<close>

definition succeeds :: "('s \<Rightarrow> ('e, 'a) outcome \<times> 's) \<Rightarrow> bool" where
  "succeeds call \<longleftrightarrow> (\<forall>s. \<exists>r t. call s = (Ok r, t))"

lemma succeedsD: "succeeds call \<Longrightarrow> \<exists>r t. call s = (Ok r, t)"
  by (simp add: succeeds_def)

lemma succeeds_unitD: "succeeds call \<Longrightarrow> \<exists>t. call s = (Ok (), t)"
  by (metis (full_types) old.unit.exhaust succeedsD)

section \<open>Staking and slashing data\<close>

text \<open>Decimals (\<open>math.LegacyDec\<close>) are integers scaled by \<open>10^18\<close>.\<close>

type_synonym dec = int

definition dec_of :: "int \<Rightarrow> int \<Rightarrow> dec" where
  "dec_of n digits = n * 10 ^ nat (18 - digits)"

datatype bond_status = Unspecified | Unbonded | Unbonding | Bonded

record CommissionRates =
  cr_Rate :: dec
  cr_MaxRate :: dec
  cr_MaxChangeRate :: dec

record Validator =
  v_OperatorAddress :: string
  v_ConsensusPubkey :: bytes
  v_Jailed :: bool
  v_Status :: bond_status
  v_Tokens :: int
  v_DelegatorShares :: dec
  v_Moniker :: string
  v_UnbondingHeight :: int
  v_CommissionRates :: CommissionRates
  v_MinSelfDelegation :: int

record Delegation =
  d_DelegatorAddress :: string
  d_ValidatorAddress :: string

text \<open>Entries of redelegations and unbonding delegations; \<open>e_rest\<close> is what this code leaves alone.\<close>

record ubd_entry =
  e_CreationHeight :: int
  e_rest :: nat

record Redelegation =
  r_DelegatorAddress :: string
  r_ValidatorSrcAddress :: string
  r_ValidatorDstAddress :: string
  r_Entries :: "ubd_entry list"

record UnbondingDelegation =
  u_DelegatorAddress :: string
  u_ValidatorAddress :: string
  u_Entries :: "ubd_entry list"

record ValidatorSigningInfo =
  si_Address :: string
  si_StartHeight :: int
  si_Tombstoned :: bool
  si_rest :: nat

end
