(* ===== verification/App_Export.thy ===== *)
theory App_Export
  imports Sdk_Calls
begin

text \<open>
  app/export.go: the export of the application's state for a genesis file, and the preparation of a
  restart at height zero.

  The keepers of staking, distribution and slashing are records of functions over a state \<open>'s\<close>;
  \<open>'c\<close> is the type of decimal coins, whose \<open>Add\<close> is a field. \<open>prepForZeroHeightGenesis\<close> is the
  composition of one definition for each part of the Go function. The predicates \<open>lawful_...\<close>
  name what the lemmas need of the keepers.
\<close>

section \<open>The keepers the export uses\<close>

record 's staking_keeper =
  st_ValidatorAddressCodec :: address_codec
  st_IterateValidators :: "('s, Validator) iterator"
  st_GetAllDelegations :: "int \<Rightarrow> 's \<Rightarrow> (go_error, Delegation list) outcome"
  st_IterateRedelegations :: "('s, Redelegation) iterator"
  st_SetRedelegation :: "Redelegation \<Rightarrow> ('s, unit) call"
  st_IterateUnbondingDelegations :: "('s, UnbondingDelegation) iterator"
  st_SetUnbondingDelegation :: "UnbondingDelegation \<Rightarrow> ('s, unit) call"
  st_GetValidator :: "int \<Rightarrow> 's \<Rightarrow> bytes \<Rightarrow> (go_error, Validator) outcome"
  st_SetValidator :: "Validator \<Rightarrow> ('s, unit) call"
  st_ApplyAndReturnValidatorSetUpdates :: "('s, unit) call"

record ('s, 'c) distr_keeper =
  di_WithdrawValidatorCommission :: "bytes \<Rightarrow> ('s, 'c) call"
  di_WithdrawDelegationRewards :: "bytes \<Rightarrow> bytes \<Rightarrow> ('s, 'c) call"
  di_DeleteAllValidatorSlashEvents :: "int \<Rightarrow> 's \<Rightarrow> 's"
  di_DeleteAllValidatorHistoricalRewards :: "int \<Rightarrow> 's \<Rightarrow> 's"
  di_GetValidatorOutstandingRewardsCoins :: "int \<Rightarrow> 's \<Rightarrow> bytes \<Rightarrow> (go_error, 'c) outcome"
  di_FeePool_Get :: "int \<Rightarrow> 's \<Rightarrow> (go_error, 'c) outcome"
  di_FeePool_Set :: "'c \<Rightarrow> ('s, unit) call"
  di_AfterValidatorCreated :: "bytes \<Rightarrow> ('s, unit) call"
  di_BeforeDelegationCreated :: "bytes \<Rightarrow> bytes \<Rightarrow> ('s, unit) call"
  di_AfterDelegationModified :: "bytes \<Rightarrow> bytes \<Rightarrow> ('s, unit) call"

record 's slashing_keeper =
  sl_IterateValidatorSigningInfos :: "('s, bytes \<times> ValidatorSigningInfo) iterator"
  sl_SetValidatorSigningInfo :: "bytes \<Rightarrow> ValidatorSigningInfo \<Rightarrow> ('s, unit) call"

text \<open>
  The parts of the application object the export reads. \<open>ex_ValidatorsReverse\<close> are the addresses
  in the keys that the reverse prefix iterator over the validators' keys yields, and
  \<open>ex_CloseIterator\<close> is the error of its \<open>Close\<close>.
\<close>

record ('s, 'c, 'g) export_app =
  ex_LastBlockHeight :: int
  ex_signingValidatorCodec :: "string \<Rightarrow> bytes \<times> go_error option"
  ex_signingAddressCodec :: "string \<Rightarrow> bytes \<times> go_error option"
  ex_Add :: "'c \<Rightarrow> 'c \<Rightarrow> 'c"
  ex_Staking :: "'s staking_keeper"
  ex_Distr :: "('s, 'c) distr_keeper"
  ex_Slashing :: "'s slashing_keeper"
  ex_ValidatorsReverse :: "'s \<Rightarrow> bytes list"
  ex_CloseIterator :: "'s \<Rightarrow> go_error option"
  ex_ExportGenesisForModules :: "int \<Rightarrow> 's \<Rightarrow> string list \<Rightarrow> (go_error, 'g) outcome"
  ex_MarshalIndent :: "'g \<Rightarrow> (go_error, string) outcome"
  ex_WriteValidators :: "int \<Rightarrow> 's \<Rightarrow> string list \<times> go_error option"
  ex_GetConsensusParams :: "int \<Rightarrow> 's \<Rightarrow> string"

section \<open>Preparation for height zero\<close>

text \<open>The set of allowed addresses (\<open>map[string]bool\<close>, false where nothing was put).\<close>

fun allowed_map ::
  "(string \<Rightarrow> bytes \<times> go_error option) \<Rightarrow> string list \<Rightarrow> (string \<Rightarrow> bool) \<Rightarrow>
   (go_error, string \<Rightarrow> bool) outcome" where
  "allowed_map conv [] m = Ok m"
| "allowed_map conv (addr # addrs) m =
     chain (must_bytes conv addr) (\<lambda>_. allowed_map conv addrs (m(addr := True)))"

definition withdraw_commissions :: "('s, 'c, 'g) export_app \<Rightarrow> ('s, unit) call" where
  "withdraw_commissions app h s =
     panic_on_err (st_IterateValidators (ex_Staking app) h s
       (\<lambda>val s. chain_st (pure_call (must_bytes
              (StringToBytes (st_ValidatorAddressCodec (ex_Staking app))) (v_OperatorAddress val)) s)
          (\<lambda>valBz s. chain_st (drop_err (di_WithdrawValidatorCommission (ex_Distr app) valBz h s))
            (\<lambda>_ s. (Ok False, s)))))"

text \<open>The two conversions at the start of both loops over the delegations.\<close>

definition delegation_addrs ::
  "('s, 'c, 'g) export_app \<Rightarrow> Delegation \<Rightarrow> (go_error, bytes \<times> bytes) outcome" where
  "delegation_addrs app del =
     chain (must_bytes (ex_signingValidatorCodec app) (d_ValidatorAddress del)) (\<lambda>valAddr.
     chain (must_bytes (ex_signingAddressCodec app) (d_DelegatorAddress del)) (\<lambda>delAddr.
     Ok (delAddr, valAddr)))"

definition withdraw_rewards :: "('s, 'c, 'g) export_app \<Rightarrow> Delegation list \<Rightarrow> ('s, unit) call" where
  "withdraw_rewards app dels h =
     for_each (\<lambda>del s. chain_st (pure_call (delegation_addrs app del) s)
       (\<lambda>(delAddr, valAddr) s.
          drop_err (di_WithdrawDelegationRewards (ex_Distr app) delAddr valAddr h s))) dels"

definition reinit_validator ::
  "('s, 'c, 'g) export_app \<Rightarrow> int \<Rightarrow> Validator \<Rightarrow> 's \<Rightarrow> (go_error, bool) outcome \<times> 's" where
  "reinit_validator app h val s =
     chain_st (pure_call (must_bytes
         (StringToBytes (st_ValidatorAddressCodec (ex_Staking app))) (v_OperatorAddress val)) s)
       (\<lambda>valBz s.
     chain_st (panic_on_err (di_GetValidatorOutstandingRewardsCoins (ex_Distr app) h s valBz, s))
       (\<lambda>rewards s.
     chain_st (panic_on_err (di_FeePool_Get (ex_Distr app) h s, s))
       (\<lambda>pool s.
     chain_st (panic_on_err (di_FeePool_Set (ex_Distr app) (ex_Add app pool rewards) h s))
       (\<lambda>_ s.
     chain_st (panic_on_err (di_AfterValidatorCreated (ex_Distr app) valBz h s))
       (\<lambda>_ s. (Ok False, s))))))"

definition reinit_validators :: "('s, 'c, 'g) export_app \<Rightarrow> ('s, unit) call" where
  "reinit_validators app h s =
     panic_on_err (st_IterateValidators (ex_Staking app) h s (reinit_validator app h))"

fun wrap_err :: "string \<Rightarrow> (go_error, 'a) outcome \<times> 's \<Rightarrow> (go_error, 'a) outcome \<times> 's" where
  "wrap_err m (Err e, s) = (Err (Wrapped m e), s)"
| "wrap_err m r = r"

definition reinit_delegations :: "('s, 'c, 'g) export_app \<Rightarrow> Delegation list \<Rightarrow> ('s, unit) call" where
  "reinit_delegations app dels h =
     for_each (\<lambda>del s. chain_st (pure_call (delegation_addrs app del) s)
       (\<lambda>(delAddr, valAddr) s.
          chain_st (panic_on_err (wrap_err ''error while incrementing period''
              (di_BeforeDelegationCreated (ex_Distr app) delAddr valAddr h s)))
            (\<lambda>_ s. panic_on_err (wrap_err ''error while creating a new delegation period record''
              (di_AfterDelegationModified (ex_Distr app) delAddr valAddr h s))))) dels"

text \<open>\<open>for i := range entries { entries[i].CreationHeight = 0 }\<close>\<close>

definition reset_entries :: "ubd_entry list \<Rightarrow> ubd_entry list" where
  "reset_entries es = map (\<lambda>e. e\<lparr>e_CreationHeight := 0\<rparr>) es"

definition reset_redelegations :: "('s, 'c, 'g) export_app \<Rightarrow> ('s, unit) call" where
  "reset_redelegations app h s =
     panic_on_err (st_IterateRedelegations (ex_Staking app) h s
       (\<lambda>red s. chain_st (panic_on_err (st_SetRedelegation (ex_Staking app)
            (red\<lparr>r_Entries := reset_entries (r_Entries red)\<rparr>) h s))
          (\<lambda>_ s. (Ok False, s))))"

definition reset_unbondings :: "('s, 'c, 'g) export_app \<Rightarrow> ('s, unit) call" where
  "reset_unbondings app h s =
     panic_on_err (st_IterateUnbondingDelegations (ex_Staking app) h s
       (\<lambda>ubd s. chain_st (panic_on_err (st_SetUnbondingDelegation (ex_Staking app)
            (ubd\<lparr>u_Entries := reset_entries (u_Entries ubd)\<rparr>) h s))
          (\<lambda>_ s. (Ok False, s))))"

definition reset_validator ::
  "('s, 'c, 'g) export_app \<Rightarrow> bool \<Rightarrow> (string \<Rightarrow> bool) \<Rightarrow> int \<Rightarrow> bytes \<Rightarrow> 's \<Rightarrow>
   (go_error, unit) outcome \<times> 's" where
  "reset_validator app applyAllowedAddrs allowed h addr s =
     (case st_GetValidator (ex_Staking app) h s addr of
        Err e \<Rightarrow> (Panic ''expected validator, not found'', s)
      | Panic p \<Rightarrow> (Panic p, s)
      | Ok validator \<Rightarrow>
          (case BytesToString (st_ValidatorAddressCodec (ex_Staking app)) addr of
             (valAddr, Some e) \<Rightarrow> (Panic (error_text e), s)
           | (valAddr, None) \<Rightarrow>
               (let validator = validator\<lparr>v_UnbondingHeight := 0\<rparr>;
                    validator = (if applyAllowedAddrs \<and> \<not> allowed valAddr
                                 then validator\<lparr>v_Jailed := True\<rparr> else validator)
                in panic_on_err (st_SetValidator (ex_Staking app) validator h s))))"

definition reset_validators ::
  "('s, 'c, 'g) export_app \<Rightarrow> bool \<Rightarrow> (string \<Rightarrow> bool) \<Rightarrow> ('s, unit) call" where
  "reset_validators app applyAllowedAddrs allowed h s =
     for_each (reset_validator app applyAllowedAddrs allowed h) (ex_ValidatorsReverse app s) s"

definition reset_signing_infos :: "('s, 'c, 'g) export_app \<Rightarrow> ('s, unit) call" where
  "reset_signing_infos app h s =
     panic_on_err (sl_IterateValidatorSigningInfos (ex_Slashing app) h s
       (\<lambda>(addr, info) s. chain_st (drop_err (sl_SetValidatorSigningInfo (ex_Slashing app) addr
            (info\<lparr>si_StartHeight := 0\<rparr>) h s))
          (\<lambda>_ s. (Ok False, s))))"

definition prepForZeroHeightGenesis ::
  "('s, 'c, 'g) export_app \<Rightarrow> string list \<Rightarrow> ('s, unit) call" where
  "prepForZeroHeightGenesis app jailAllowedAddrs height s =
     (let applyAllowedAddrs = length jailAllowedAddrs > 0;
          st = ex_Staking app; di = ex_Distr app
      in chain_st (pure_call (allowed_map (ex_signingValidatorCodec app) jailAllowedAddrs (\<lambda>_. False)) s)
           (\<lambda>allowed s.
         chain_st (withdraw_commissions app height s) (\<lambda>_ s.
         chain_st (panic_on_err (st_GetAllDelegations st height s, s)) (\<lambda>dels s.
         chain_st (withdraw_rewards app dels height s) (\<lambda>_ s.
         (let s = di_DeleteAllValidatorSlashEvents di height s;
              s = di_DeleteAllValidatorHistoricalRewards di height s
          in chain_st (reinit_validators app 0 s) (\<lambda>_ s.
             chain_st (reinit_delegations app dels 0 s) (\<lambda>_ s.
             chain_st (reset_redelegations app height s) (\<lambda>_ s.
             chain_st (reset_unbondings app height s) (\<lambda>_ s.
             chain_st (reset_validators app applyAllowedAddrs allowed height s) (\<lambda>_ s.
             (case ex_CloseIterator app s of
                Some e \<Rightarrow> (Ok (), s)
              | None \<Rightarrow>
                  chain_st (panic_on_err (st_ApplyAndReturnValidatorSetUpdates st height s))
                    (\<lambda>_ s. reset_signing_infos app height s)))))))))))))"

section \<open>The export\<close>

record ExportedApp =
  ea_AppState :: string
  ea_Validators :: "string list"
  ea_Height :: int
  ea_ConsensusParams :: string

definition zero_ExportedApp :: ExportedApp where
  "zero_ExportedApp =
     \<lparr>ea_AppState = [], ea_Validators = [], ea_Height = 0, ea_ConsensusParams = []\<rparr>"

text \<open>
  The function returns an exported application and an error: both are the value of the outcome,
  because a failure of \<open>WriteValidators\<close> returns the full result with the error.
\<close>

definition ExportAppStateAndValidators ::
  "('s, 'c, 'g) export_app \<Rightarrow> bool \<Rightarrow> string list \<Rightarrow> string list \<Rightarrow> 's \<Rightarrow>
   (go_error, ExportedApp \<times> go_error option) outcome \<times> 's" where
  "ExportAppStateAndValidators app forZeroHeight jailAllowedAddrs modulesToExport s =
     (let h = ex_LastBlockHeight app
      in chain_st (if forZeroHeight then prepForZeroHeightGenesis app jailAllowedAddrs h s else (Ok (), s))
        (\<lambda>_ s.
          (let height = (if forZeroHeight then 0 else int64 (ex_LastBlockHeight app + 1))
           in case ex_ExportGenesisForModules app h s modulesToExport of
                Panic p \<Rightarrow> (Panic p, s)
              | Err e \<Rightarrow> (Ok (zero_ExportedApp, Some e), s)
              | Ok genState \<Rightarrow>
                  (case ex_MarshalIndent app genState of
                     Panic p \<Rightarrow> (Panic p, s)
                   | Err e \<Rightarrow> (Ok (zero_ExportedApp, Some e), s)
                   | Ok appState \<Rightarrow>
                       (case ex_WriteValidators app h s of
                          (validators, err) \<Rightarrow>
                            (Ok (\<lparr>ea_AppState = appState, ea_Validators = validators,
                                  ea_Height = height,
                                  ea_ConsensusParams = ex_GetConsensusParams app h s\<rparr>, err), s))))))"

section \<open>Collections that are rewritten item by item\<close>

text \<open>
  Three of the parts are the same loop: visit the items of a collection and store each one again,
  changed. The interface is the collection as a map from keys to items.
\<close>

definition rewrite_item ::
  "('v \<Rightarrow> ('s, unit) call) \<Rightarrow> ('v \<Rightarrow> 'v) \<Rightarrow> int \<Rightarrow> 'v \<Rightarrow> 's \<Rightarrow> (go_error, bool) outcome \<times> 's" where
  "rewrite_item set_item g h v s = chain_st (panic_on_err (set_item (g v) h s)) (\<lambda>_ s. (Ok False, s))"

definition stores_items ::
  "('s \<Rightarrow> bool) \<Rightarrow> ('s \<Rightarrow> 'v list) \<Rightarrow> ('v \<Rightarrow> 'k) \<Rightarrow> ('v \<Rightarrow> ('s, unit) call) \<Rightarrow> bool" where
  "stores_items good items key set_item \<longleftrightarrow>
     (\<forall>s. good s \<longrightarrow> distinct (map key (items s))) \<and>
     (\<forall>v h s s'. good s \<longrightarrow> set_item v h s = (Ok (), s') \<longrightarrow>
        good s' \<and> (\<forall>k. map_of (map (\<lambda>v. (key v, v)) (items s')) k =
          (if k = key v then Some v else map_of (map (\<lambda>v. (key v, v)) (items s)) k)))"

locale item_store =
  fixes good :: "'s \<Rightarrow> bool"
    and items :: "'s \<Rightarrow> 'v list"
    and key :: "'v \<Rightarrow> 'k"
    and set_item :: "'v \<Rightarrow> ('s, unit) call"
  assumes stores: "stores_items good items key set_item"
begin

definition view :: "'s \<Rightarrow> 'k \<Rightarrow> 'v option" where
  "view s = map_of (map (\<lambda>v. (key v, v)) (items s))"

lemma keys_distinct: "good s \<Longrightarrow> distinct (map key (items s))"
  using stores by (simp add: stores_items_def)

lemma set_good: "good s \<Longrightarrow> set_item v h s = (Ok (), s') \<Longrightarrow> good s'"
  using stores unfolding stores_items_def by blast

lemma set_view: "good s \<Longrightarrow> set_item v h s = (Ok (), s') \<Longrightarrow> view s' = (view s)(key v \<mapsto> v)"
  using stores by (auto simp: stores_items_def view_def fun_eq_iff)

lemma view_item: "good s \<Longrightarrow> v \<in> set (items s) \<Longrightarrow> view s (key v) = Some v"
  using keys_distinct [of s] by (auto simp: view_def o_def intro!: map_of_is_SomeI)

lemma view_SomeD: "view s k = Some v \<Longrightarrow> v \<in> set (items s) \<and> key v = k"
  by (auto simp: view_def dest: map_of_SomeD)

lemma items_view: "good s \<Longrightarrow> v \<in> set (items s) \<longleftrightarrow> view s (key v) = Some v"
  using view_item view_SomeD by blast

lemma rewrite_all:
  assumes "good s" and key: "\<And>v. key (g v) = key v"
    and run: "visit (rewrite_item set_item g h) (items s) s = (Ok (), t)"
  shows "good t" and "view t = (\<lambda>k. map_option g (view s k))"
proof -
  let ?P = "\<lambda>done t. good t \<and>
    view t = (\<lambda>k. if k \<in> key ` set done then map_option g (view s k) else view s k)"
  have P: "?P (items s) t"
  proof (rule visit_invariant [OF run, where P = ?P])
    fix "done" v t t'
    assume P: "?P done t" and v: "v \<in> set (items s)"
      and r: "rewrite_item set_item g h v t = (Ok False, t')"
    from r have st: "set_item (g v) h t = (Ok (), t')"
      by (auto simp: rewrite_item_def outcome_simps)
    have "good t'" using set_good [OF _ st] P by blast
    moreover have "view t' = (view t)(key v \<mapsto> g v)"
      using set_view [OF _ st] P key by simp
    ultimately show "?P (done @ [v]) t'"
      using P view_item [OF assms(1) v] by (simp add: fun_eq_iff)
  next
    show "?P [] s" using assms(1) by simp
  next
    show "rewrite_item set_item g h v t \<noteq> (Ok True, t')" for v t t'
      by (simp add: rewrite_item_def outcome_simps)
  qed
  then show "good t" by simp
  from P have "view t k = map_option g (view s k)" for k
    using view_SomeD [of s k] by (cases "view s k") auto
  then show "view t = (\<lambda>k. map_option g (view s k))" by blast
qed

text \<open>So afterwards the items are exactly the changed ones.\<close>

lemma rewrite_items:
  assumes "good s" and "\<And>v. key (g v) = key v"
    and "visit (rewrite_item set_item g h) (items s) s = (Ok (), t)"
  shows "set (items t) = g ` set (items s)"
proof (rule set_eqI)
  fix w
  have w: "w \<in> set (items t) \<longleftrightarrow> map_option g (view s (key w)) = Some w"
    using items_view [OF rewrite_all(1) [OF assms]] rewrite_all(2) [OF assms] by simp
  show "w \<in> set (items t) \<longleftrightarrow> w \<in> g ` set (items s)"
  proof
    assume "w \<in> set (items t)"
    then obtain v where "view s (key w) = Some v" "w = g v" using w by auto
    then show "w \<in> g ` set (items s)" using view_SomeD [of s "key w" v] by simp
  next
    assume "w \<in> g ` set (items s)"
    then obtain v where v: "w = g v" "v \<in> set (items s)" by blast
    then show "w \<in> set (items t)" using w view_item [OF assms(1) v(2)] assms(2) by simp
  qed
qed

end

lemma reset_redelegations_visit:
  assumes "iterates (st_IterateRedelegations (ex_Staking app)) items"
  shows "reset_redelegations app h s =
    panic_on_err (visit (rewrite_item (st_SetRedelegation (ex_Staking app))
      (\<lambda>red. red\<lparr>r_Entries := reset_entries (r_Entries red)\<rparr>) h) (items s) s)"
  using assms by (simp add: reset_redelegations_def iterates_def rewrite_item_def [abs_def])

lemma reset_unbondings_visit:
  assumes "iterates (st_IterateUnbondingDelegations (ex_Staking app)) items"
  shows "reset_unbondings app h s =
    panic_on_err (visit (rewrite_item (st_SetUnbondingDelegation (ex_Staking app))
      (\<lambda>ubd. ubd\<lparr>u_Entries := reset_entries (u_Entries ubd)\<rparr>) h) (items s) s)"
  using assms by (simp add: reset_unbondings_def iterates_def rewrite_item_def [abs_def])

text \<open>Signing infos are set with their address; the error of the call is dropped.\<close>

definition set_info ::
  "('s, 'c, 'g) export_app \<Rightarrow> bytes \<times> ValidatorSigningInfo \<Rightarrow> ('s, unit) call" where
  "set_info app p h s = drop_err (sl_SetValidatorSigningInfo (ex_Slashing app) (fst p) (snd p) h s)"

lemma panic_on_drop_err [simp]: "panic_on_err (drop_err r) = drop_err r"
  by (cases r rule: drop_err.cases) auto

lemma reset_signing_infos_visit:
  assumes "iterates (sl_IterateValidatorSigningInfos (ex_Slashing app)) items"
  shows "reset_signing_infos app h s =
    panic_on_err (visit (rewrite_item (set_info app) (apsnd (\<lambda>i. i\<lparr>si_StartHeight := 0\<rparr>)) h) (items s) s)"
  using assms
  by (simp add: reset_signing_infos_def iterates_def rewrite_item_def [abs_def] set_info_def
      case_prod_beta')

section \<open>Which calls can touch which collection\<close>

text \<open>
  The states one call of the distribution keeper, or one of the staking calls that concern
  validators, can lead to.
\<close>

inductive keeper_move :: "('s, 'c, 'g) export_app \<Rightarrow> 's \<Rightarrow> 's \<Rightarrow> bool" for app where
  commission: "keeper_move app s (snd (di_WithdrawValidatorCommission (ex_Distr app) a h s))"
| rewards: "keeper_move app s (snd (di_WithdrawDelegationRewards (ex_Distr app) d a h s))"
| slash_events: "keeper_move app s (di_DeleteAllValidatorSlashEvents (ex_Distr app) h s)"
| historical: "keeper_move app s (di_DeleteAllValidatorHistoricalRewards (ex_Distr app) h s)"
| fee_pool: "keeper_move app s (snd (di_FeePool_Set (ex_Distr app) c h s))"
| created: "keeper_move app s (snd (di_AfterValidatorCreated (ex_Distr app) a h s))"
| before_del: "keeper_move app s (snd (di_BeforeDelegationCreated (ex_Distr app) d a h s))"
| after_del: "keeper_move app s (snd (di_AfterDelegationModified (ex_Distr app) d a h s))"
| set_validator: "keeper_move app s (snd (st_SetValidator (ex_Staking app) v h s))"
| updates: "keeper_move app s (snd (st_ApplyAndReturnValidatorSetUpdates (ex_Staking app) h s))"

abbreviation keeper_moves :: "('s, 'c, 'g) export_app \<Rightarrow> 's \<Rightarrow> 's \<Rightarrow> bool" where
  "keeper_moves app \<equiv> (keeper_move app)\<^sup>*\<^sup>*"

lemma chain_st_star:
  assumes "R\<^sup>*\<^sup>* s (snd m)" and "\<And>a. R\<^sup>*\<^sup>* (snd m) (snd (f a (snd m)))"
  shows "R\<^sup>*\<^sup>* s (snd (chain_st m f))"
proof (cases m)
  case (Pair r s')
  then show ?thesis using assms by (cases r) (auto intro: rtranclp_trans)
qed

lemma visit_star:
  "(\<And>x s. R\<^sup>*\<^sup>* s (snd (f x s))) \<Longrightarrow> R\<^sup>*\<^sup>* s (snd (visit f xs s))"
proof (induction xs arbitrary: s)
  case (Cons x xs)
  have "R\<^sup>*\<^sup>* s (snd (chain_st (f x s) (\<lambda>stop s'. if stop then (Ok (), s') else visit f xs s')))"
    using Cons by (intro chain_st_star) auto
  then show ?case by simp
qed simp

lemma for_each_star:
  "(\<And>x s. R\<^sup>*\<^sup>* s (snd (f x s))) \<Longrightarrow> R\<^sup>*\<^sup>* s (snd (for_each f xs s))"
proof (induction xs arbitrary: s)
  case (Cons x xs)
  have "R\<^sup>*\<^sup>* s (snd (chain_st (f x s) (\<lambda>_ s'. for_each f xs s')))"
    using Cons by (intro chain_st_star) auto
  then show ?case by simp
qed simp

lemma snd_panic_on_err [simp]: "snd (panic_on_err r) = snd r"
  by (cases r rule: panic_on_err.cases) auto

lemma snd_drop_err [simp]: "snd (drop_err r) = snd r"
  by (cases r rule: drop_err.cases) auto

lemma snd_wrap_err [simp]: "snd (wrap_err m r) = snd r"
  by (cases "(m, r)" rule: wrap_err.cases) auto

lemma snd_pure_call [simp]: "snd (pure_call r s) = s"
  by (simp add: pure_call_def)

lemma move_star: "keeper_move app s t \<Longrightarrow> keeper_moves app s t"
  by (rule r_into_rtranclp)

lemmas move_intros = keeper_move.intros [THEN move_star]

lemma withdraw_commissions_moves:
  assumes "iterates (st_IterateValidators (ex_Staking app)) vals"
  shows "keeper_moves app s (snd (withdraw_commissions app h s))"
  using assms unfolding withdraw_commissions_def iterates_def
  by (auto intro!: visit_star chain_st_star intro: move_intros)

lemma withdraw_rewards_moves: "keeper_moves app s (snd (withdraw_rewards app dels h s))"
  unfolding withdraw_rewards_def
  by (auto intro!: for_each_star chain_st_star intro: move_intros split: prod.split)

lemma reinit_validators_moves:
  assumes "iterates (st_IterateValidators (ex_Staking app)) vals"
  shows "keeper_moves app s (snd (reinit_validators app h s))"
  using assms unfolding reinit_validators_def iterates_def reinit_validator_def
  by (auto intro!: visit_star chain_st_star intro: move_intros)

lemma reinit_delegations_moves: "keeper_moves app s (snd (reinit_delegations app dels h s))"
  unfolding reinit_delegations_def
  by (auto intro!: for_each_star chain_st_star intro: move_intros split: prod.split)

lemma reset_validators_moves: "keeper_moves app s (snd (reset_validators app b m h s))"
  unfolding reset_validators_def
  by (intro for_each_star)
    (auto simp: reset_validator_def Let_def intro: move_intros split: outcome.split prod.split option.split)

section \<open>After the preparation every height is zero\<close>

text \<open>A successful preparation, cut where the collections are rewritten.\<close>

lemma prep_phases:
  assumes "prepForZeroHeightGenesis app addrs h s = (Ok (), t)"
    and "iterates (st_IterateValidators (ex_Staking app)) vals"
    and "\<And>s. ex_CloseIterator app s = None"
  obtains s1 s2 s3 s4 where "keeper_moves app s s1"
    "reset_redelegations app h s1 = (Ok (), s2)" "reset_unbondings app h s2 = (Ok (), s3)"
    "keeper_moves app s3 s4" "reset_signing_infos app h s4 = (Ok (), t)"
proof -
  from assms(1,3) obtain allowed a b c dels d e f g u where
    w: "withdraw_commissions app h s = (Ok (), a)" "withdraw_rewards app dels h a = (Ok (), b)"
    and c: "c = di_DeleteAllValidatorHistoricalRewards (ex_Distr app) h
      (di_DeleteAllValidatorSlashEvents (ex_Distr app) h b)"
    and r: "reinit_validators app 0 c = (Ok (), d)" "reinit_delegations app dels 0 d = (Ok (), e)"
    and i: "reset_redelegations app h e = (Ok (), f)" "reset_unbondings app h f = (Ok (), g)"
    and v: "reset_validators app (length addrs > 0) allowed h g = (Ok (), u)"
    and l: "chain_st (panic_on_err (st_ApplyAndReturnValidatorSetUpdates (ex_Staking app) h u))
      (\<lambda>_ s. reset_signing_infos app h s) = (Ok (), t)"
    by (auto simp: prepForZeroHeightGenesis_def Let_def chain_st_Ok_iff pure_call_def panic_on_err_Ok)
  from l obtain x where x: "st_ApplyAndReturnValidatorSetUpdates (ex_Staking app) h u = (Ok (), x)"
      "reset_signing_infos app h x = (Ok (), t)"
    by (auto simp: outcome_simps)
  have "keeper_moves app b c"
    unfolding c by (rule rtranclp_trans) (rule move_intros)+
  moreover have "keeper_moves app s a" "keeper_moves app a b" "keeper_moves app c d" "keeper_moves app d e"
    using withdraw_commissions_moves [OF assms(2), of s h] withdraw_rewards_moves [of app a dels h]
      reinit_validators_moves [OF assms(2), of c 0] reinit_delegations_moves [of app d dels 0] w r
    by simp_all
  ultimately have "keeper_moves app s e" by simp
  moreover have "keeper_moves app g x"
    using reset_validators_moves [of app g "length addrs > 0" allowed h] v x(1)
      move_intros(10) [of app u h] by simp
  ultimately show thesis using that i x(2) by blast
qed

abbreviation red_key :: "Redelegation \<Rightarrow> string \<times> string \<times> string" where
  "red_key r \<equiv> (r_DelegatorAddress r, r_ValidatorSrcAddress r, r_ValidatorDstAddress r)"

abbreviation ubd_key :: "UnbondingDelegation \<Rightarrow> string \<times> string" where
  "ubd_key u \<equiv> (u_DelegatorAddress u, u_ValidatorAddress u)"

text \<open>
  What the SDK documents of its keepers, as far as the preparation relies on it: the iterators
  visit the stored items, a set call stores under the item's key, and no call touches a
  collection that it is not about. \<open>good\<close> is the keepers' own invariant.
\<close>

definition lawful_keepers ::
  "('s, 'c, 'g) export_app \<Rightarrow> ('s \<Rightarrow> bool) \<Rightarrow> ('s \<Rightarrow> Validator list) \<Rightarrow> ('s \<Rightarrow> Redelegation list) \<Rightarrow>
   ('s \<Rightarrow> UnbondingDelegation list) \<Rightarrow> ('s \<Rightarrow> (bytes \<times> ValidatorSigningInfo) list) \<Rightarrow> bool" where
  "lawful_keepers app good vals reds ubds infos \<longleftrightarrow>
     iterates (st_IterateValidators (ex_Staking app)) vals \<and>
     iterates (st_IterateRedelegations (ex_Staking app)) reds \<and>
     iterates (st_IterateUnbondingDelegations (ex_Staking app)) ubds \<and>
     iterates (sl_IterateValidatorSigningInfos (ex_Slashing app)) infos \<and>
     stores_items good reds red_key (st_SetRedelegation (ex_Staking app)) \<and>
     stores_items good ubds ubd_key (st_SetUnbondingDelegation (ex_Staking app)) \<and>
     stores_items good infos fst (set_info app) \<and>
     (\<forall>s t. keeper_move app s t \<longrightarrow> good s \<longrightarrow>
        good t \<and> reds t = reds s \<and> ubds t = ubds s \<and> infos t = infos s) \<and>
     (\<forall>r h s t. st_SetRedelegation (ex_Staking app) r h s = (Ok (), t) \<longrightarrow>
        ubds t = ubds s \<and> infos t = infos s) \<and>
     (\<forall>u h s t. st_SetUnbondingDelegation (ex_Staking app) u h s = (Ok (), t) \<longrightarrow>
        reds t = reds s \<and> infos t = infos s) \<and>
     (\<forall>i h s t. set_info app i h s = (Ok (), t) \<longrightarrow> reds t = reds s \<and> ubds t = ubds s)"

lemma keeper_moves_frame:
  assumes "lawful_keepers app good vals reds ubds infos" and "keeper_moves app s t" and "good s"
  shows "good t \<and> reds t = reds s \<and> ubds t = ubds s \<and> infos t = infos s"
  using assms(2,3)
proof (induction rule: rtranclp_induct)
  case (step y z)
  then show ?case using assms(1) unfolding lawful_keepers_def by metis
qed simp

lemma visit_rewrite_frame:
  assumes "visit (rewrite_item set_item g h) xs s = (Ok (), t)"
    and "\<And>v s t. set_item v h s = (Ok (), t) \<Longrightarrow> view t = view s"
  shows "view t = view s"
proof (rule visit_invariant [OF assms(1), where P = "\<lambda>_ t. view t = view s"])
  show "view t' = view s"
    if "view t = view s" "rewrite_item set_item g h x t = (Ok False, t')" for x t t'
    using that assms(2) by (auto simp: rewrite_item_def outcome_simps)
qed (auto simp: rewrite_item_def outcome_simps)

locale zero_height =
  fixes app :: "('s, 'c, 'g) export_app"
    and good :: "'s \<Rightarrow> bool"
    and vals :: "'s \<Rightarrow> Validator list"
    and reds :: "'s \<Rightarrow> Redelegation list"
    and ubds :: "'s \<Rightarrow> UnbondingDelegation list"
    and infos :: "'s \<Rightarrow> (bytes \<times> ValidatorSigningInfo) list"
  assumes lawful: "lawful_keepers app good vals reds ubds infos"

sublocale zero_height \<subseteq> redelegations: item_store good reds red_key "st_SetRedelegation (ex_Staking app)"
  using lawful by unfold_locales (simp add: lawful_keepers_def)

sublocale zero_height \<subseteq> unbondings: item_store good ubds ubd_key "st_SetUnbondingDelegation (ex_Staking app)"
  using lawful by unfold_locales (simp add: lawful_keepers_def)

sublocale zero_height \<subseteq> signing_infos: item_store good infos fst "set_info app"
  using lawful by unfold_locales (simp add: lawful_keepers_def)

context zero_height begin

lemma iters:
  "iterates (st_IterateRedelegations (ex_Staking app)) reds"
  "iterates (st_IterateUnbondingDelegations (ex_Staking app)) ubds"
  "iterates (sl_IterateValidatorSigningInfos (ex_Slashing app)) infos"
  "iterates (st_IterateValidators (ex_Staking app)) vals"
  using lawful by (simp_all add: lawful_keepers_def)

lemma set_info_frame: "set_info app i h s = (Ok (), t) \<Longrightarrow> reds t = reds s \<and> ubds t = ubds s"
  using lawful unfolding lawful_keepers_def by blast

lemma reds_reset:
  assumes "good s" and "reset_redelegations app h s = (Ok (), t)"
  shows "good t \<and> set (reds t) = (\<lambda>r. r\<lparr>r_Entries := reset_entries (r_Entries r)\<rparr>) ` set (reds s) \<and>
    ubds t = ubds s \<and> infos t = infos s"
proof -
  have v: "visit (rewrite_item (st_SetRedelegation (ex_Staking app))
      (\<lambda>red. red\<lparr>r_Entries := reset_entries (r_Entries red)\<rparr>) h) (reds s) s = (Ok (), t)"
    using assms(2) unfolding reset_redelegations_visit [OF iters(1)] by (simp add: panic_on_err_Ok)
  show ?thesis
    using redelegations.rewrite_all(1) [OF assms(1) _ v] redelegations.rewrite_items [OF assms(1) _ v]
      visit_rewrite_frame [OF v, of ubds] visit_rewrite_frame [OF v, of infos] lawful
    by (simp add: lawful_keepers_def)
qed

lemma ubds_reset:
  assumes "good s" and "reset_unbondings app h s = (Ok (), t)"
  shows "good t \<and> set (ubds t) = (\<lambda>r. r\<lparr>u_Entries := reset_entries (u_Entries r)\<rparr>) ` set (ubds s) \<and>
    reds t = reds s \<and> infos t = infos s"
proof -
  have v: "visit (rewrite_item (st_SetUnbondingDelegation (ex_Staking app))
      (\<lambda>ubd. ubd\<lparr>u_Entries := reset_entries (u_Entries ubd)\<rparr>) h) (ubds s) s = (Ok (), t)"
    using assms(2) unfolding reset_unbondings_visit [OF iters(2)] by (simp add: panic_on_err_Ok)
  show ?thesis
    using unbondings.rewrite_all(1) [OF assms(1) _ v] unbondings.rewrite_items [OF assms(1) _ v]
      visit_rewrite_frame [OF v, of reds] visit_rewrite_frame [OF v, of infos] lawful
    by (simp add: lawful_keepers_def)
qed

lemma infos_reset:
  assumes "good s" and "reset_signing_infos app h s = (Ok (), t)"
  shows "good t \<and> set (infos t) = apsnd (\<lambda>i. i\<lparr>si_StartHeight := 0\<rparr>) ` set (infos s) \<and>
    reds t = reds s \<and> ubds t = ubds s"
proof -
  have v: "visit (rewrite_item (set_info app) (apsnd (\<lambda>i. i\<lparr>si_StartHeight := 0\<rparr>)) h)
      (infos s) s = (Ok (), t)"
    using assms(2) unfolding reset_signing_infos_visit [OF iters(3)] by (simp add: panic_on_err_Ok)
  show ?thesis
    using signing_infos.rewrite_all(1) [OF assms(1) _ v] signing_infos.rewrite_items [OF assms(1) _ v]
      visit_rewrite_frame [OF v, of reds] visit_rewrite_frame [OF v, of ubds]
    by (simp add: set_info_frame)
qed

lemma prep_resets:
  assumes "prepForZeroHeightGenesis app addrs h s = (Ok (), t)" and "good s"
    and "\<And>s. ex_CloseIterator app s = None"
  shows "set (reds t) = (\<lambda>r. r\<lparr>r_Entries := reset_entries (r_Entries r)\<rparr>) ` set (reds s)"
    and "set (ubds t) = (\<lambda>r. r\<lparr>u_Entries := reset_entries (u_Entries r)\<rparr>) ` set (ubds s)"
    and "set (infos t) = apsnd (\<lambda>i. i\<lparr>si_StartHeight := 0\<rparr>) ` set (infos s)"
proof -
  from prep_phases [OF assms(1) iters(4) assms(3)] obtain s1 s2 s3 s4 where m: "keeper_moves app s s1"
    and r: "reset_redelegations app h s1 = (Ok (), s2)" and u: "reset_unbondings app h s2 = (Ok (), s3)"
    and m': "keeper_moves app s3 s4" and i: "reset_signing_infos app h s4 = (Ok (), t)" .
  note f1 = keeper_moves_frame [OF lawful m assms(2)]
  note f2 = reds_reset [OF conjunct1 [OF f1] r]
  note f3 = ubds_reset [OF conjunct1 [OF f2] u]
  note f4 = keeper_moves_frame [OF lawful m' conjunct1 [OF f3]]
  note f5 = infos_reset [OF conjunct1 [OF f4] i]
  show "set (reds t) = (\<lambda>r. r\<lparr>r_Entries := reset_entries (r_Entries r)\<rparr>) ` set (reds s)"
    "set (ubds t) = (\<lambda>r. r\<lparr>u_Entries := reset_entries (u_Entries r)\<rparr>) ` set (ubds s)"
    "set (infos t) = apsnd (\<lambda>i. i\<lparr>si_StartHeight := 0\<rparr>) ` set (infos s)"
    using f1 f2 f3 f4 f5 by simp_all
qed

end

end
