(* ===== verification/App_Export_Facts.thy ===== *)
theory App_Export_Facts
  imports App_Export
begin

text \<open>
  What the parts of the zero-height preparation do to validators and to the fee pool, and what the
  export returns. The last section has keepers over an explicit state (\<open>mem\<close>), on which the
  locale of the preparation is interpreted and concrete exports are evaluated.
\<close>

section \<open>The allow list\<close>

lemma allowed_map_Ok_iff:
  "allowed_map conv addrs m = Ok m' \<longleftrightarrow>
     (\<forall>a \<in> set addrs. snd (conv a) = None) \<and> m' = (\<lambda>a. a \<in> set addrs \<or> m a)"
proof (induction addrs arbitrary: m)
  case Nil
  then show ?case by (auto simp: fun_eq_iff)
next
  case (Cons a addrs)
  then show ?case
    by (cases "conv a") (auto simp: outcome_simps fun_eq_iff)
qed

lemma allowed_map_panic:
  assumes "a \<in> set addrs" "snd (conv a) \<noteq> None"
  shows "\<exists>p. allowed_map conv addrs m = Panic p"
  using assms
proof (induction addrs arbitrary: m)
  case (Cons b addrs)
  obtain bz e where "conv b = (bz, e)" by force
  with Cons show ?case by (cases e) (auto simp: must_bytes_def)
qed simp

lemma prep_bad_address:
  assumes "a \<in> set addrs" "snd (ex_signingValidatorCodec app a) \<noteq> None"
  shows "is_panic (fst (prepForZeroHeightGenesis app addrs h s)) \<and>
    snd (prepForZeroHeightGenesis app addrs h s) = s"
  using assms allowed_map_panic [of a addrs "ex_signingValidatorCodec app" "\<lambda>_. False"]
  by (auto simp: prepForZeroHeightGenesis_def Let_def pure_call_def is_panic_iff)

section \<open>Validators\<close>

definition lawful_validators ::
  "('s, 'c, 'g) export_app \<Rightarrow> ('s \<Rightarrow> bytes \<Rightarrow> Validator option) \<Rightarrow> bool" where
  "lawful_validators app vals \<longleftrightarrow>
     (\<forall>h s a v. st_GetValidator (ex_Staking app) h s a = Ok v \<longleftrightarrow> vals s a = Some v) \<and>
     (\<forall>v h s s'. st_SetValidator (ex_Staking app) v h s = (Ok (), s') \<longrightarrow>
        vals s' = (vals s)
          (fst (StringToBytes (st_ValidatorAddressCodec (ex_Staking app)) (v_OperatorAddress v)) \<mapsto> v))"

text \<open>Validators are stored under the bytes of their operator address, and the iterator visits each.\<close>

definition well_keyed ::
  "('s, 'c, 'g) export_app \<Rightarrow> ('s \<Rightarrow> bytes \<Rightarrow> Validator option) \<Rightarrow> 's \<Rightarrow> bool" where
  "well_keyed app vals s \<longleftrightarrow>
     (\<forall>a v. vals s a = Some v \<longrightarrow>
        fst (StringToBytes (st_ValidatorAddressCodec (ex_Staking app)) (v_OperatorAddress v)) = a) \<and>
     distinct (ex_ValidatorsReverse app s) \<and> set (ex_ValidatorsReverse app s) = dom (vals s)"

definition reset_value ::
  "('s, 'c, 'g) export_app \<Rightarrow> bool \<Rightarrow> (string \<Rightarrow> bool) \<Rightarrow> bytes \<Rightarrow> Validator \<Rightarrow> Validator" where
  "reset_value app applies allowed a v =
     v\<lparr>v_UnbondingHeight := 0,
       v_Jailed := v_Jailed v \<or>
         applies \<and> \<not> allowed (fst (BytesToString (st_ValidatorAddressCodec (ex_Staking app)) a))\<rparr>"

lemma reset_validator_Ok:
  assumes "lawful_validators app vals" and "vals s a = Some v"
    and "fst (StringToBytes (st_ValidatorAddressCodec (ex_Staking app)) (v_OperatorAddress v)) = a"
    and "reset_validator app b m h a s = (Ok (), s')"
  shows "vals s' = (vals s)(a \<mapsto> reset_value app b m a v)"
proof -
  have g: "st_GetValidator (ex_Staking app) h s a = Ok v"
    using assms(1,2) by (simp add: lawful_validators_def)
  obtain w where w: "w = reset_value app b m a v" by simp
  have "st_SetValidator (ex_Staking app) w h s = (Ok (), s')"
    using assms(4) g
    by (auto simp: reset_validator_def Let_def panic_on_err_Ok w reset_value_def
        split: prod.splits option.splits if_splits)
  then show ?thesis
    using assms(1,3) by (simp add: lawful_validators_def w reset_value_def)
qed

lemma reset_validators_spec:
  assumes "lawful_validators app vals" and "well_keyed app vals s"
    and "reset_validators app b m h s = (Ok (), t)"
  shows "vals t = (\<lambda>a. map_option (reset_value app b m a) (vals s a))"
proof -
  let ?P = "\<lambda>done t. vals t =
    (\<lambda>a. if a \<in> set done then map_option (reset_value app b m a) (vals s a) else vals s a)"
  have "?P (ex_ValidatorsReverse app s) t"
  proof (rule for_each_prefix [OF assms(3) [unfolded reset_validators_def], where P = ?P])
    fix "done" a rest u u'
    assume keys: "ex_ValidatorsReverse app s = done @ a # rest" and P: "?P done u"
      and body: "reset_validator app b m h a u = (Ok (), u')"
    have "a \<in> dom (vals s)" and new: "a \<notin> set done"
      using assms(2) keys by (auto simp: well_keyed_def)
    then obtain v where v: "vals s a = Some v" by blast
    then have "vals u' = (vals u)(a \<mapsto> reset_value app b m a v)"
      using reset_validator_Ok [OF assms(1) _ _ body, of v] P new assms(2)
      by (simp add: well_keyed_def)
    then show "?P (done @ [a]) u'" using P v by (simp add: fun_eq_iff)
  qed simp
  then show ?thesis
    using assms(2) by (auto simp: well_keyed_def fun_eq_iff domIff)
qed

text \<open>The loop reaches its end when addresses convert and validators can be stored.\<close>

lemma reset_validators_returns:
  assumes "lawful_validators app vals" and "well_keyed app vals s"
    and "\<And>a. a \<in> dom (vals s) \<Longrightarrow>
      snd (BytesToString (st_ValidatorAddressCodec (ex_Staking app)) a) = None"
    and "\<And>v h s. is_ok (fst (st_SetValidator (ex_Staking app) v h s))"
  shows "\<exists>t. reset_validators app b m h s = (Ok (), t)"
proof -
  have "\<exists>t. for_each (reset_validator app b m h) (ex_ValidatorsReverse app s) s = (Ok (), t) \<and>
    dom (vals s) \<subseteq> dom (vals t) \<and> set [] \<subseteq> dom (vals s)"
  proof (rule for_each_returns)
    fix a rest u
    assume P: "dom (vals s) \<subseteq> dom (vals u) \<and> set (a # rest) \<subseteq> dom (vals s)"
    then obtain v where "vals u a = Some v" by auto
    then have g: "st_GetValidator (ex_Staking app) h u a = Ok v"
      using assms(1) by (simp add: lawful_validators_def)
    obtain w where w: "w = reset_value app b m a v" by simp
    obtain u' where st: "st_SetValidator (ex_Staking app) w h u = (Ok (), u')"
      using assms(4) [of w h u] by (cases "st_SetValidator (ex_Staking app) w h u") (auto simp: is_ok_iff)
    have "snd (BytesToString (st_ValidatorAddressCodec (ex_Staking app)) a) = None"
      using assms(3) P by simp
    moreover have "\<exists>h. vals u' = (vals u)(h \<mapsto> w)"
      using st assms(1) unfolding lawful_validators_def by blast
    ultimately show "\<exists>u'. reset_validator app b m h a u = (Ok (), u') \<and>
        dom (vals s) \<subseteq> dom (vals u') \<and> set rest \<subseteq> dom (vals s)"
      using g st P
      by (intro exI [of _ u'])
        (auto simp: reset_validator_def Let_def w reset_value_def split: prod.split)
  qed (use assms(2) in \<open>auto simp: well_keyed_def\<close>)
  then show ?thesis by (auto simp: reset_validators_def)
qed

section \<open>The community pool\<close>

definition lawful_rewards ::
  "('s, 'c :: comm_monoid_add, 'g) export_app \<Rightarrow> ('s \<Rightarrow> 'c) \<Rightarrow> ('s \<Rightarrow> bytes \<Rightarrow> 'c) \<Rightarrow> bool" where
  "lawful_rewards app pool outstanding \<longleftrightarrow>
     ex_Add app = (+) \<and>
     (\<forall>h s. di_FeePool_Get (ex_Distr app) h s = Ok (pool s)) \<and>
     (\<forall>h s a. di_GetValidatorOutstandingRewardsCoins (ex_Distr app) h s a = Ok (outstanding s a)) \<and>
     (\<forall>c h s s'. di_FeePool_Set (ex_Distr app) c h s = (Ok (), s') \<longrightarrow>
        pool s' = c \<and> outstanding s' = outstanding s) \<and>
     (\<forall>a h s s'. di_AfterValidatorCreated (ex_Distr app) a h s = (Ok (), s') \<longrightarrow>
        pool s' = pool s \<and> outstanding s' = (outstanding s)(a := 0))"

definition operator_bytes :: "('s, 'c, 'g) export_app \<Rightarrow> Validator \<Rightarrow> bytes" where
  "operator_bytes app v =
     fst (StringToBytes (st_ValidatorAddressCodec (ex_Staking app)) (v_OperatorAddress v))"

lemma reinit_validator_Ok:
  assumes "lawful_rewards app pool outstanding" and "reinit_validator app h v s = (Ok stop, s')"
  shows "\<not> stop" and "pool s' = pool s + outstanding s (operator_bytes app v)"
    and "outstanding s' = (outstanding s)(operator_bytes app v := 0)"
proof -
  from assms(2) obtain bz s1 where b: "operator_bytes app v = bz"
    and f: "di_FeePool_Set (ex_Distr app) (pool s + outstanding s bz) h s = (Ok (), s1)"
    and c: "di_AfterValidatorCreated (ex_Distr app) bz h s1 = (Ok (), s')" and "\<not> stop"
    using assms(1)
    by (auto simp: reinit_validator_def lawful_rewards_def outcome_simps operator_bytes_def)
  moreover have "pool s1 = pool s + outstanding s bz" "outstanding s1 = outstanding s"
    "pool s' = pool s1" "outstanding s' = (outstanding s1)(bz := 0)"
    using f c assms(1) unfolding lawful_rewards_def by blast+
  ultimately show "\<not> stop" "pool s' = pool s + outstanding s (operator_bytes app v)"
    "outstanding s' = (outstanding s)(operator_bytes app v := 0)"
    by simp_all
qed

lemma reinit_validators_spec:
  assumes laws: "lawful_rewards app pool outstanding"
    and it: "iterates (st_IterateValidators (ex_Staking app)) vals"
    and dist: "distinct (map (operator_bytes app) (vals s))"
    and run: "reinit_validators app h s = (Ok (), t)"
  shows "pool t = pool s + (\<Sum>v \<leftarrow> vals s. outstanding s (operator_bytes app v)) \<and>
    outstanding t = (\<lambda>a. if a \<in> operator_bytes app ` set (vals s) then 0 else outstanding s a)"
proof -
  let ?b = "operator_bytes app"
  let ?P = "\<lambda>done t. pool t = pool s + (\<Sum>v \<leftarrow> done. outstanding s (?b v)) \<and>
    outstanding t = (\<lambda>a. if a \<in> ?b ` set done then 0 else outstanding s a)"
  have v: "visit (reinit_validator app h) (vals s) s = (Ok (), t)"
    using run it by (simp add: reinit_validators_def iterates_def panic_on_err_Ok)
  show ?thesis
  proof (rule visit_prefix [OF v, where P = ?P])
    fix "done" x rest u u'
    assume xs: "vals s = done @ x # rest" and P: "?P done u"
      and f: "reinit_validator app h x u = (Ok False, u')"
    have "?b x \<notin> ?b ` set done" using dist xs by auto
    then show "?P (done @ [x]) u'"
      using reinit_validator_Ok [OF laws f] P by (auto simp: fun_eq_iff ac_simps)
  qed (auto dest: reinit_validator_Ok(1) [OF laws])
qed

section \<open>What the export returns\<close>

lemma export_error_empty:
  assumes "ExportAppStateAndValidators app z addrs mods s = (Ok (ea, Some e), t)"
    and "snd (ex_WriteValidators app (ex_LastBlockHeight app) t) = None"
  shows "ea = zero_ExportedApp"
proof -
  obtain r u where p: "(if z then prepForZeroHeightGenesis app addrs (ex_LastBlockHeight app) s
      else (Ok (), s)) = (r, u)" by force
  then show ?thesis
    using assms
    by (cases r) (auto simp: ExportAppStateAndValidators_def Let_def split: outcome.splits prod.splits)
qed

lemma export_no_prep:
  "snd (ExportAppStateAndValidators app False addrs mods s) = s"
  by (auto simp: ExportAppStateAndValidators_def Let_def split: outcome.splits prod.splits)

lemma export_height:
  assumes "ExportAppStateAndValidators app z addrs mods s = (Ok (ea, None), t)"
  shows "ea_Height ea = (if z then 0 else int64 (ex_LastBlockHeight app + 1))"
proof -
  obtain r u where p: "(if z then prepForZeroHeightGenesis app addrs (ex_LastBlockHeight app) s
      else (Ok (), s)) = (r, u)" by force
  then show ?thesis
    using assms
    by (cases r) (auto simp: ExportAppStateAndValidators_def Let_def split: outcome.splits prod.splits)
qed

section \<open>Keepers over an explicit state\<close>

record mem =
  m_vals :: "Validator list"
  m_dels :: "Delegation list"
  m_reds :: "Redelegation list"
  m_ubds :: "UnbondingDelegation list"
  m_infos :: "(bytes \<times> ValidatorSigningInfo) list"
  m_pool :: int
  m_out :: "(bytes \<times> int) list"

fun upsert :: "('v \<Rightarrow> 'k) \<Rightarrow> 'v \<Rightarrow> 'v list \<Rightarrow> 'v list" where
  "upsert key v [] = [v]"
| "upsert key v (x # xs) = (if key x = key v then v # xs else x # upsert key v xs)"

lemma set_upsert_keys: "key ` set (upsert key v xs) = insert (key v) (key ` set xs)"
  by (induction xs) auto

lemma distinct_upsert: "distinct (map key xs) \<Longrightarrow> distinct (map key (upsert key v xs))"
  using set_upsert_keys [of key v] by (induction xs) force+

lemma map_of_upsert:
  "map_of (map (\<lambda>v. (key v, v)) (upsert key v xs)) k =
     (if k = key v then Some v else map_of (map (\<lambda>v. (key v, v)) xs) k)"
  by (induction xs) auto

abbreviation val_key :: "Validator \<Rightarrow> bytes" where
  "val_key v \<equiv> fst (StringToBytes plain_codec (v_OperatorAddress v))"

definition mem_staking :: "mem staking_keeper" where
  "mem_staking =
     \<lparr>st_ValidatorAddressCodec = plain_codec,
      st_IterateValidators = (\<lambda>h s f. visit f (m_vals s) s),
      st_GetAllDelegations = (\<lambda>h s. Ok (m_dels s)),
      st_IterateRedelegations = (\<lambda>h s f. visit f (m_reds s) s),
      st_SetRedelegation = (\<lambda>r h s. (Ok (), s\<lparr>m_reds := upsert red_key r (m_reds s)\<rparr>)),
      st_IterateUnbondingDelegations = (\<lambda>h s f. visit f (m_ubds s) s),
      st_SetUnbondingDelegation = (\<lambda>u h s. (Ok (), s\<lparr>m_ubds := upsert ubd_key u (m_ubds s)\<rparr>)),
      st_GetValidator = (\<lambda>h s a. case map_of (map (\<lambda>v. (val_key v, v)) (m_vals s)) a of
          None \<Rightarrow> Err (LibError ''validator does not exist'') | Some v \<Rightarrow> Ok v),
      st_SetValidator = (\<lambda>v h s. (Ok (), s\<lparr>m_vals := upsert val_key v (m_vals s)\<rparr>)),
      st_ApplyAndReturnValidatorSetUpdates = (\<lambda>h s. (Ok (), s))\<rparr>"

definition mem_outstanding :: "mem \<Rightarrow> bytes \<Rightarrow> int" where
  "mem_outstanding s a = (case map_of (m_out s) a of None \<Rightarrow> 0 | Some c \<Rightarrow> c)"

definition mem_distr :: "(mem, int) distr_keeper" where
  "mem_distr =
     \<lparr>di_WithdrawValidatorCommission = (\<lambda>a h s. (Err (LibError ''no commission''), s)),
      di_WithdrawDelegationRewards = (\<lambda>d a h s. (Ok 0, s)),
      di_DeleteAllValidatorSlashEvents = (\<lambda>h s. s),
      di_DeleteAllValidatorHistoricalRewards = (\<lambda>h s. s),
      di_GetValidatorOutstandingRewardsCoins = (\<lambda>h s a. Ok (mem_outstanding s a)),
      di_FeePool_Get = (\<lambda>h s. Ok (m_pool s)),
      di_FeePool_Set = (\<lambda>c h s. (Ok (), s\<lparr>m_pool := c\<rparr>)),
      di_AfterValidatorCreated = (\<lambda>a h s. (Ok (), s\<lparr>m_out := (a, 0) # m_out s\<rparr>)),
      di_BeforeDelegationCreated = (\<lambda>d a h s. (Ok (), s)),
      di_AfterDelegationModified = (\<lambda>d a h s. (Ok (), s))\<rparr>"

definition mem_slashing :: "mem slashing_keeper" where
  "mem_slashing =
     \<lparr>sl_IterateValidatorSigningInfos = (\<lambda>h s f. visit f (m_infos s) s),
      sl_SetValidatorSigningInfo = (\<lambda>a i h s. (Ok (), s\<lparr>m_infos := upsert fst (a, i) (m_infos s)\<rparr>))\<rparr>"

definition mem_app :: "int \<Rightarrow> (mem, int, mem) export_app" where
  "mem_app n =
     \<lparr>ex_LastBlockHeight = n,
      ex_signingValidatorCodec = StringToBytes plain_codec,
      ex_signingAddressCodec = StringToBytes plain_codec,
      ex_Add = (+),
      ex_Staking = mem_staking, ex_Distr = mem_distr, ex_Slashing = mem_slashing,
      ex_ValidatorsReverse = (\<lambda>s. rev (map val_key (m_vals s))),
      ex_CloseIterator = (\<lambda>s. None),
      ex_ExportGenesisForModules = (\<lambda>h s mods. Ok s),
      ex_MarshalIndent = (\<lambda>g. Ok ''{}''),
      ex_WriteValidators = (\<lambda>h s. (map v_OperatorAddress (m_vals s), None)),
      ex_GetConsensusParams = (\<lambda>h s. [])\<rparr>"

lemmas mem_defs = mem_app_def mem_staking_def mem_distr_def mem_slashing_def

definition mem_good :: "mem \<Rightarrow> bool" where
  "mem_good s \<longleftrightarrow> distinct (map red_key (m_reds s)) \<and> distinct (map ubd_key (m_ubds s)) \<and>
     distinct (map fst (m_infos s))"

lemma upsert_stores:
  assumes "\<And>s. good s \<Longrightarrow> distinct (map key (items s))"
    and "\<And>v h s. set_item v h s = (Ok (), put s (upsert key v (items s)))"
    and "\<And>s xs. items (put s xs) = xs"
    and "\<And>s xs. good s \<Longrightarrow> distinct (map key xs) \<Longrightarrow> good (put s xs)"
  shows "stores_items good items key set_item"
  using assms by (auto simp: stores_items_def map_of_upsert distinct_upsert)

lemma mem_stores_reds: "stores_items mem_good m_reds red_key (st_SetRedelegation mem_staking)"
  by (rule upsert_stores [where put = "\<lambda>s xs. s\<lparr>m_reds := xs\<rparr>"])
    (simp_all add: mem_good_def mem_staking_def)

lemma mem_stores_ubds: "stores_items mem_good m_ubds ubd_key (st_SetUnbondingDelegation mem_staking)"
  by (rule upsert_stores [where put = "\<lambda>s xs. s\<lparr>m_ubds := xs\<rparr>"])
    (simp_all add: mem_good_def mem_staking_def)

lemma mem_stores_infos: "stores_items mem_good m_infos fst (set_info (mem_app n))"
  by (rule upsert_stores [where put = "\<lambda>s xs. s\<lparr>m_infos := xs\<rparr>"])
    (simp_all add: mem_good_def set_info_def mem_defs)

lemma mem_move_frame:
  "keeper_move (mem_app n) s t \<Longrightarrow> m_reds t = m_reds s \<and> m_ubds t = m_ubds s \<and> m_infos t = m_infos s"
  by (cases rule: keeper_move.cases) (auto simp: mem_defs)

lemma mem_staking_app [simp]: "ex_Staking (mem_app n) = mem_staking"
  by (simp add: mem_app_def)

lemma mem_lawful: "lawful_keepers (mem_app n) mem_good m_vals m_reds m_ubds m_infos"
proof -
  have "iterates (st_IterateValidators mem_staking) m_vals"
    "iterates (st_IterateRedelegations mem_staking) m_reds"
    "iterates (st_IterateUnbondingDelegations mem_staking) m_ubds"
    "iterates (sl_IterateValidatorSigningInfos (ex_Slashing (mem_app n))) m_infos"
    by (simp_all add: iterates_def mem_defs)
  moreover have "\<forall>s t. keeper_move (mem_app n) s t \<longrightarrow> mem_good s \<longrightarrow>
      mem_good t \<and> m_reds t = m_reds s \<and> m_ubds t = m_ubds s \<and> m_infos t = m_infos s"
    by (intro allI impI, drule mem_move_frame) (simp add: mem_good_def)
  moreover have "\<forall>r h s t. st_SetRedelegation mem_staking r h s = (Ok (), t) \<longrightarrow>
      m_ubds t = m_ubds s \<and> m_infos t = m_infos s"
    by (auto simp: mem_staking_def)
  moreover have "\<forall>u h s t. st_SetUnbondingDelegation mem_staking u h s = (Ok (), t) \<longrightarrow>
      m_reds t = m_reds s \<and> m_infos t = m_infos s"
    by (auto simp: mem_staking_def)
  moreover have "\<forall>i h s t. set_info (mem_app n) i h s = (Ok (), t) \<longrightarrow>
      m_reds t = m_reds s \<and> m_ubds t = m_ubds s"
    by (auto simp: set_info_def mem_defs)
  ultimately show ?thesis
    unfolding lawful_keepers_def mem_staking_app
    by (intro conjI mem_stores_reds mem_stores_ubds mem_stores_infos)
qed

interpretation memz: zero_height "mem_app n" mem_good m_vals m_reds m_ubds m_infos for n
  by unfold_locales (rule mem_lawful)

lemma mem_validators: "lawful_validators (mem_app n) (\<lambda>s. map_of (map (\<lambda>v. (val_key v, v)) (m_vals s)))"
  by (auto simp: lawful_validators_def mem_defs map_of_upsert fun_eq_iff split: option.splits)

lemma mem_rewards: "lawful_rewards (mem_app n) m_pool mem_outstanding"
  by (auto simp: lawful_rewards_def mem_defs mem_outstanding_def fun_eq_iff)

section \<open>A sample state\<close>

definition sample_validator :: "string \<Rightarrow> Validator" where
  "sample_validator a =
     \<lparr>v_OperatorAddress = a, v_ConsensusPubkey = [], v_Jailed = False, v_Status = Bonded,
      v_Tokens = 100, v_DelegatorShares = dec_of 100 0, v_Moniker = a, v_UnbondingHeight = 7,
      v_CommissionRates = \<lparr>cr_Rate = 0, cr_MaxRate = 0, cr_MaxChangeRate = 0\<rparr>,
      v_MinSelfDelegation = 1\<rparr>"

definition sample_state :: mem where
  "sample_state =
     \<lparr>m_vals = [sample_validator ''a'', sample_validator ''b''],
      m_dels = [\<lparr>d_DelegatorAddress = ''d'', d_ValidatorAddress = ''a''\<rparr>],
      m_reds = [\<lparr>r_DelegatorAddress = ''d'', r_ValidatorSrcAddress = ''a'',
        r_ValidatorDstAddress = ''b'', r_Entries = [\<lparr>e_CreationHeight = 5, e_rest = 1\<rparr>]\<rparr>],
      m_ubds = [], m_infos = [([1], \<lparr>si_Address = ''c'', si_StartHeight = 3, si_Tombstoned = False,
        si_rest = 0\<rparr>)],
      m_pool = 10, m_out = [(bytes_of ''a'', 4), (bytes_of ''b'', 2)]\<rparr>"

lemma sample_good: "mem_good sample_state"
  by (simp add: mem_good_def sample_state_def)

lemma sample_keyed:
  "well_keyed (mem_app n) (\<lambda>s. map_of (map (\<lambda>v. (val_key v, v)) (m_vals s))) sample_state"
  by (auto simp: well_keyed_def mem_defs sample_state_def sample_validator_def plain_codec_def
      bytes_of_def split: if_splits)

end
