(* ===== verification/Export_Properties.thy ===== *)
theory Export_Properties
  imports App_Export_Facts
begin

text \<open>
  The properties of the genesis export (app/export.go). The witnesses run on the keepers over an
  explicit state of App_Export_Facts.
\<close>




text \<open>
  C13: the loop over the validators gives every validator unbonding height 0 and jails exactly those
  whose canonical address is not on a given allow list, in addition to those that were jailed;
  nothing else of a validator changes, and no validator is lost.
\<close>

theorem validators_reset_exactly:
  assumes "lawful_validators app vals" "well_keyed app vals s"
    and "allowed_map (ex_signingValidatorCodec app) addrs (\<lambda>_. False) = Ok m"
    and "reset_validators app (0 < length addrs) m h s = (Ok (), t)"
  shows "vals t = (\<lambda>a. map_option
    (\<lambda>v. v\<lparr>v_UnbondingHeight := 0,
       v_Jailed := v_Jailed v \<or> addrs \<noteq> [] \<and>
         fst (BytesToString (st_ValidatorAddressCodec (ex_Staking app)) a) \<notin> set addrs\<rparr>) (vals s a))"
proof -
  have "m = (\<lambda>a. a \<in> set addrs)" using assms(3) by (simp add: allowed_map_Ok_iff)
  then show ?thesis
    using reset_validators_spec [OF assms(1,2,4)] by (simp add: reset_value_def [abs_def])
qed

theorem validators_reset_exactly_witness:
  "map_option v_Jailed (map_of (map (\<lambda>v. (val_key v, v))
     (m_vals (snd (reset_validators (mem_app 9) True (\<lambda>a. a \<in> {''a''}) 9 sample_state)))) (bytes_of ''b'')) =
     Some True"
proof -
  let ?r = "reset_validators (mem_app 9) True (\<lambda>a. a \<in> {''a''}) 9 sample_state"
  have "?r = (Ok (), snd ?r)" by code_simp
  then have r: "reset_validators (mem_app 9) (0 < length [''a'']) (\<lambda>a. a \<in> {''a''}) 9 sample_state = (Ok (), snd ?r)"
    by simp
  have m: "allowed_map (ex_signingValidatorCodec (mem_app 9)) [''a''] (\<lambda>_. False) = Ok (\<lambda>a. a \<in> {''a''})"
    by (auto simp: mem_app_def plain_codec_def must_bytes_def fun_eq_iff)
  have b: "map_of (map (\<lambda>v. (val_key v, v)) (m_vals sample_state)) (bytes_of ''b'') = Some (sample_validator ''b'')"
    by (simp add: sample_state_def sample_validator_def plain_codec_def bytes_of_def)
  have c: "fst (BytesToString (st_ValidatorAddressCodec mem_staking) (bytes_of ''b'')) = ''b''"
    by (simp add: mem_staking_def plain_codec_def)
  show ?thesis
    unfolding fun_cong [OF validators_reset_exactly [OF mem_validators sample_keyed m r], of "bytes_of ''b''"]
    by (simp add: b c)
qed



text \<open>
  C23: an allow list with an address that does not convert stops the preparation by a panic before
  anything is withdrawn, donated or stored: the state is untouched, and so is the export's.
\<close>

theorem bad_allow_list_changes_nothing:
  assumes "\<exists>a \<in> set addrs. snd (ex_signingValidatorCodec app a) \<noteq> None"
  shows "is_panic (fst (ExportAppStateAndValidators app True addrs mods s)) \<and>
    snd (ExportAppStateAndValidators app True addrs mods s) = s"
proof -
  obtain p where "prepForZeroHeightGenesis app addrs (ex_LastBlockHeight app) s = (Panic p, s)"
    using assms prep_bad_address [of _ addrs app "ex_LastBlockHeight app" s]
    by (metis is_panic_iff prod.collapse)
  then show ?thesis by (simp add: ExportAppStateAndValidators_def Let_def)
qed

theorem bad_allow_list_changes_nothing_witness:
  "snd (ExportAppStateAndValidators (mem_app 9) True [''a'', []] [] sample_state) = sample_state"
  using bad_allow_list_changes_nothing [of "[''a'', []]" "mem_app 9" "[]" sample_state]
  by (simp add: mem_app_def plain_codec_def)

text \<open>
  C17: no reward is lost. Reinitialising the validators moves every validator's outstanding rewards
  to the community pool: the pool grows by exactly their sum and they are left with none, for any
  rewards keeper whose hook empties the outstanding rewards of the validator it is called for.
\<close>

theorem rewards_are_donated:
  assumes "lawful_rewards app pool outstanding"
    and "iterates (st_IterateValidators (ex_Staking app)) vals"
    and "distinct (map (operator_bytes app) (vals s))"
    and "reinit_validators app h s = (Ok (), t)"
  shows "pool t = pool s + (\<Sum>v \<leftarrow> vals s. outstanding s (operator_bytes app v)) \<and>
    outstanding t = (\<lambda>a. if a \<in> operator_bytes app ` set (vals s) then 0 else outstanding s a)"
  by (rule reinit_validators_spec [OF assms])

theorem rewards_are_donated_witness:
  "m_pool (snd (reinit_validators (mem_app 9) 0 sample_state)) = 16"
proof -
  have d: "distinct (map (operator_bytes (mem_app 9)) (m_vals sample_state))"
    by (simp add: operator_bytes_def mem_defs sample_state_def sample_validator_def plain_codec_def bytes_of_def)
  have i: "iterates (st_IterateValidators (ex_Staking (mem_app 9))) m_vals"
    by (simp add: iterates_def mem_defs)
  have r: "reinit_validators (mem_app 9) 0 sample_state = (Ok (), snd (reinit_validators (mem_app 9) 0 sample_state))"
    by code_simp
  from rewards_are_donated [OF mem_rewards i d r] show ?thesis
    by (simp add: operator_bytes_def mem_defs sample_state_def sample_validator_def plain_codec_def
        bytes_of_def mem_outstanding_def)
qed


end
