(* ===== verification/App_Config.thy ===== *)
theory App_Config
  imports Pulsar_Grpc
begin

text \<open>
  app/app_config.go, app/config.go, app/genesis_account.go and the lookups of app/app.go: the
  application's static configuration (module order, module accounts, blocked accounts, the
  configuration of each module, the address prefixes) and the functions that read it.

  The names of the SDK's and ibc-go's modules and accounts are Go constants of packages that are not
  part of the repository. They are constructors of \<open>sdk_name\<close> here; the functions that build
  string-keyed maps from them take the naming \<open>nm :: sdk_name \<Rightarrow> string\<close> as an argument.
\<close>

section \<open>Names\<close>

datatype sdk_name =
    AuthName | AuthzName | BankName | CircuitName | ConsensusName | DistrName | EpochsName
  | EvidenceName | FeegrantName | GenutilName | GovName | GroupName | MintName | NftName
  | ParamsName | SlashingName | StakingName | TxName | UpgradeName | VestingName | RuntimeName
  | IBCName | TransferName | ICAName | PulsarName
  | FeeCollectorName | BondedPoolName | NotBondedPoolName

datatype permission = Minter | Burner | StakingPermission

section \<open>The configuration\<close>

definition moduleAccPerms :: "(sdk_name \<times> permission list) list" where
  "moduleAccPerms =
     [(FeeCollectorName, []),
      (DistrName, []),
      (MintName, [Minter]),
      (BondedPoolName, [Burner, StakingPermission]),
      (NotBondedPoolName, [Burner, StakingPermission]),
      (GovName, [Burner]),
      (NftName, []),
      (TransferName, [Minter, Burner]),
      (ICAName, [])]"

definition blockAccAddrs :: "sdk_name list" where
  "blockAccAddrs =
     [FeeCollectorName, DistrName, MintName, BondedPoolName, NotBondedPoolName, NftName]"

definition PreBlockers :: "sdk_name list" where
  "PreBlockers = [UpgradeName, AuthName]"

definition BeginBlockers :: "sdk_name list" where
  "BeginBlockers =
     [MintName, DistrName, SlashingName, EvidenceName, StakingName, AuthzName, EpochsName,
      IBCName, PulsarName]"

definition EndBlockers :: "sdk_name list" where
  "EndBlockers = [GovName, StakingName, FeegrantName, GroupName, PulsarName]"

definition InitGenesisOrder :: "sdk_name list" where
  "InitGenesisOrder =
     [ConsensusName, AuthName, BankName, DistrName, StakingName, SlashingName, GovName, MintName,
      GenutilName, EvidenceName, AuthzName, FeegrantName, VestingName, NftName, GroupName,
      UpgradeName, CircuitName, EpochsName, IBCName, TransferName, ICAName, PulsarName]"

definition OverrideStoreKeys :: "(sdk_name \<times> string) list" where
  "OverrideStoreKeys = [(AuthName, ''acc'')]"

definition app_Name :: string where "app_Name = ''pulsar''"
definition AccountAddressPrefix :: string where "AccountAddressPrefix = ''pulsar''"
definition ChainCoinType :: nat where "ChainCoinType = 118"

datatype module_config =
    RuntimeConfig string "sdk_name list" "sdk_name list" "sdk_name list" "(sdk_name \<times> string) list"
      "sdk_name list"
  | AuthConfig string "(sdk_name \<times> permission list) list" bool
  | BankConfig "sdk_name list"
  | GroupConfig nat nat
  | PulsarConfig Module
  | EmptyConfig

text \<open>The modules of \<open>appConfig\<close>, in order, each with its configuration object.\<close>

definition appConfig :: "(sdk_name \<times> module_config) list" where
  "appConfig =
     [(RuntimeName, RuntimeConfig app_Name PreBlockers BeginBlockers EndBlockers OverrideStoreKeys
         InitGenesisOrder),
      (AuthName, AuthConfig AccountAddressPrefix moduleAccPerms True),
      (VestingName, EmptyConfig),
      (BankName, BankConfig blockAccAddrs),
      (StakingName, EmptyConfig),
      (SlashingName, EmptyConfig),
      (TxName, EmptyConfig),
      (GenutilName, EmptyConfig),
      (AuthzName, EmptyConfig),
      (UpgradeName, EmptyConfig),
      (DistrName, EmptyConfig),
      (EvidenceName, EmptyConfig),
      (MintName, EmptyConfig),
      (GroupName, GroupConfig 1209600 255),
      (NftName, EmptyConfig),
      (FeegrantName, EmptyConfig),
      (GovName, EmptyConfig),
      (ConsensusName, EmptyConfig),
      (CircuitName, EmptyConfig),
      (ParamsName, EmptyConfig),
      (EpochsName, EmptyConfig),
      (PulsarName, PulsarConfig \<lparr>mod_Authority = []\<rparr>)]"

section \<open>Module accounts\<close>

text \<open>The loops build Go maps entry by entry; a later entry replaces an earlier one.\<close>

definition GetMaccPerms ::
  "(sdk_name \<Rightarrow> string) \<Rightarrow> (sdk_name \<times> permission list) list \<Rightarrow> string \<Rightarrow> permission list option" where
  "GetMaccPerms nm accs = fold (\<lambda>(acc, perms) dup. dup(nm acc \<mapsto> perms)) accs Map.empty"

text \<open>
  \<open>BlockedAddresses\<close> over the two package variables: the list if it is not empty, else every
  module account.
\<close>

definition BlockedAddresses ::
  "(sdk_name \<Rightarrow> string) \<Rightarrow> sdk_name list \<Rightarrow> (sdk_name \<times> permission list) list \<Rightarrow> string \<Rightarrow> bool option" where
  "BlockedAddresses nm block accs =
     (if length block > 0
      then fold (\<lambda>addr result. result(nm addr \<mapsto> True)) block Map.empty
      else (\<lambda>addr. if addr \<in> dom (GetMaccPerms nm accs) then Some True else None))"

section \<open>Keys and subspaces\<close>

datatype store_key = KVStoreKey string | TransientStoreKey string | MemoryStoreKey string | ObjectStoreKey string

text \<open>\<open>GetKey\<close>: the type assertion gives nil for a missing key and for a key of another kind.\<close>

definition GetKey :: "(string \<Rightarrow> store_key option) \<Rightarrow> string \<Rightarrow> string option" where
  "GetKey UnsafeFindStoreKey storeKey =
     (case UnsafeFindStoreKey storeKey of
        Some (KVStoreKey n) \<Rightarrow> Some n
      | _ \<Rightarrow> None)"

text \<open>\<open>GetSubspace\<close> drops the second result of the params keeper.\<close>

definition GetSubspace :: "(string \<Rightarrow> 'sub \<times> bool) \<Rightarrow> string \<Rightarrow> 'sub" where
  "GetSubspace params_GetSubspace moduleName = fst (params_GetSubspace moduleName)"

section \<open>Address prefixes\<close>

record sdk_config =
  cfg_BondDenom :: string
  cfg_CoinType :: nat
  cfg_AccountPrefix :: string
  cfg_AccountPubPrefix :: string
  cfg_ValidatorPrefix :: string
  cfg_ValidatorPubPrefix :: string
  cfg_ConsensusPrefix :: string
  cfg_ConsensusPubPrefix :: string
  cfg_Sealed :: bool

text \<open>The \<open>init\<close> function of app/config.go on the SDK's global configuration.\<close>

definition config_init :: "sdk_config \<Rightarrow> sdk_config" where
  "config_init config =
     config\<lparr>cfg_BondDenom := ''pmina'',
       cfg_CoinType := ChainCoinType,
       cfg_AccountPrefix := AccountAddressPrefix,
       cfg_AccountPubPrefix := AccountAddressPrefix @ ''pub'',
       cfg_ValidatorPrefix := AccountAddressPrefix @ ''valoper'',
       cfg_ValidatorPubPrefix := AccountAddressPrefix @ ''valoperpub'',
       cfg_ConsensusPrefix := AccountAddressPrefix @ ''valcons'',
       cfg_ConsensusPubPrefix := AccountAddressPrefix @ ''valconspub'',
       cfg_Sealed := True\<rparr>"

section \<open>Simulation accounts\<close>

text \<open>
  \<open>'ba\<close> is x/auth's base account; its validation, the module account's and \<open>Coins.IsZero\<close> are
  arguments.
\<close>

record ('ba, 'c) GenesisAccount =
  ga_BaseAccount :: 'ba
  ga_OriginalVesting :: 'c
  ga_DelegatedFree :: 'c
  ga_DelegatedVesting :: 'c
  ga_StartTime :: int
  ga_EndTime :: int
  ga_ModuleName :: string
  ga_ModulePermissions :: "string list"

definition GenesisAccount_Validate ::
  "('c \<Rightarrow> bool) \<Rightarrow> ('ba \<times> string \<times> string list \<Rightarrow> go_error option) \<Rightarrow> ('ba \<Rightarrow> go_error option) \<Rightarrow>
   ('ba, 'c) GenesisAccount \<Rightarrow> go_error option" where
  "GenesisAccount_Validate IsZero ModuleAccount_Validate BaseAccount_Validate sga =
     (if \<not> IsZero (ga_OriginalVesting sga) \<and> ga_StartTime sga \<ge> ga_EndTime sga
      then Some (LibError ''vesting start-time cannot be before end-time'')
      else
        (case (if ga_ModuleName sga \<noteq> []
               then ModuleAccount_Validate (ga_BaseAccount sga, ga_ModuleName sga, ga_ModulePermissions sga)
               else None) of
           Some err \<Rightarrow> Some err
         | None \<Rightarrow> BaseAccount_Validate (ga_BaseAccount sga)))"

section \<open>Facts\<close>

definition before :: "'a \<Rightarrow> 'a \<Rightarrow> 'a list \<Rightarrow> bool" where
  "before a b xs \<longleftrightarrow> (\<exists>us vs ws. xs = us @ a # vs @ b # ws)"

text \<open>An executable test for it on lists without repetition.\<close>

lemma before_iff:
  "distinct xs \<Longrightarrow> before a b xs \<longleftrightarrow> b \<in> set (drop 1 (dropWhile (\<lambda>x. x \<noteq> a) xs)) \<and> a \<in> set xs"
proof (induction xs)
  case (Cons x xs)
  show ?case
  proof (cases "x = a")
    case True
    have "before a b (x # xs) \<longleftrightarrow> b \<in> set xs"
    proof
      assume "before a b (x # xs)"
      then obtain us vs ws where e: "x # xs = us @ a # vs @ b # ws" by (auto simp: before_def)
      then show "b \<in> set xs" by (cases us) auto
    next
      assume "b \<in> set xs"
      then obtain vs ws where "xs = vs @ b # ws" by (auto simp: in_set_conv_decomp)
      then have "x # xs = [] @ a # vs @ b # ws" using True by simp
      then show "before a b (x # xs)" unfolding before_def by blast
    qed
    then show ?thesis using True by simp
  next
    case False
    have "before a b (x # xs) \<longleftrightarrow> before a b xs"
    proof
      assume "before a b (x # xs)"
      then obtain us vs ws where e: "x # xs = us @ a # vs @ b # ws" by (auto simp: before_def)
      then obtain us' where "us = x # us'" using False by (cases us) auto
      then show "before a b xs" using e by (auto simp: before_def)
    next
      assume "before a b xs"
      then show "before a b (x # xs)" unfolding before_def by (metis append_Cons)
    qed
    then show ?thesis using False Cons by simp
  qed
qed (simp add: before_def)

lemma fold_upd_dom:
  "fold (\<lambda>a r. r(f a \<mapsto> True)) xs m = (\<lambda>k. if k \<in> f ` set xs then Some True else m k)"
  by (induction xs arbitrary: m) (auto simp: fun_eq_iff)

lemma fold_perms_dom: "dom (fold (\<lambda>(a, p) r. r(f a \<mapsto> p)) xs m) = f ` fst ` set xs \<union> dom m"
  by (induction xs arbitrary: m) auto

lemma GetMaccPerms_lookup:
  assumes "inj nm" "distinct (map fst accs)"
  shows "GetMaccPerms nm accs (nm a) = map_of accs a"
proof -
  have "fold (\<lambda>(a, p) r. r(nm a \<mapsto> p)) accs m (nm a) =
      (case map_of accs a of Some p \<Rightarrow> Some p | None \<Rightarrow> m (nm a))" for m
    using assms(2)
  proof (induction accs arbitrary: m)
    case (Cons x accs)
    have "map_of accs (fst x) = None" using Cons.prems by (simp add: map_of_eq_None_iff)
    then show ?case
      using Cons assms(1) by (cases x) (auto simp: inj_eq split: option.split)
  qed simp
  from this [of Map.empty] show ?thesis
    by (cases "map_of accs a") (simp_all add: GetMaccPerms_def)
qed

lemma GetMaccPerms_dom: "dom (GetMaccPerms nm accs) = nm ` fst ` set accs"
  by (simp add: GetMaccPerms_def fold_perms_dom)

lemma BlockedAddresses_iff:
  "BlockedAddresses nm block accs k =
     (if k \<in> nm ` (if block = [] then fst ` set accs else set block) then Some True else None)"
  by (simp add: BlockedAddresses_def fold_upd_dom GetMaccPerms_dom)

lemma moduleAccPerms_distinct: "distinct (map fst moduleAccPerms)"
  by code_simp

lemma GenesisAccount_valid_iff:
  "GenesisAccount_Validate iz mav bav sga = None \<longleftrightarrow>
     (iz (ga_OriginalVesting sga) \<or> ga_StartTime sga < ga_EndTime sga) \<and>
     (ga_ModuleName sga = [] \<or>
        mav (ga_BaseAccount sga, ga_ModuleName sga, ga_ModulePermissions sga) = None) \<and>
     bav (ga_BaseAccount sga) = None"
  by (auto simp: GenesisAccount_Validate_def split: option.splits)

end
