(* ===== verification/App_Core.thy ===== *)
theory App_Core
  imports App_Config Sdk_Calls
begin

text \<open>
  app/app.go (\<open>New\<close>, \<open>InitChainer\<close>) and app/ibc.go (\<open>registerIBCModules\<close>, \<open>RegisterIBC\<close>): how the
  application is assembled.

  ibc-go and the SDK are not part of the repository. What the assembly does to them is recorded in
  the application's state: the store keys it registered, the parameter subspaces it created and
  their key tables, the keepers with the store key, subspace and authority each was given, the
  routes, and the modules. The calls that can fail (\<open>RegisterStores\<close>, \<open>RegisterModules\<close>,
  \<open>depinject.Inject\<close>, \<open>Load\<close>) are arguments.
\<close>

section \<open>The IBC part\<close>

text \<open>Names of the IBC packages: modules, submodules, ports and light clients.\<close>

datatype ibc_name =
    IBCCore | IBCTransfer | ICAHostSub | ICAControllerSub | ICA | TransferPort
  | IBCTm | Solomachine

datatype key_table = IBCClientAndConnectionTable | TransferTable | ICAControllerTable | ICAHostTable
datatype ibc_keeper_kind = IBCKeeper | TransferKeeper | ICAHostKeeper | ICAControllerKeeper

record ibc_keeper =
  ik_kind :: ibc_keeper_kind
  ik_store :: "ibc_name option"
  ik_subspace :: "key_table option"
  ik_authority :: string
  ik_channels :: bool

datatype ibc_stack =
    TransferStack | TransferStackV2 | ICAControllerStack | ICAHostStack
  | TmLightClient | SoloLightClient

datatype ibc_module = MkIBCModule | MkTransferModule | MkICAModule | MkTmModule | MkSoloModule

record app_state =
  as_stores :: "ibc_name list"
  as_subspaces :: "(ibc_name \<times> key_table) list"
  as_keepers :: "ibc_keeper list"
  as_router :: "(ibc_name \<times> ibc_stack) list"
  as_routerV2 :: "(ibc_name \<times> ibc_stack) list"
  as_clientRoutes :: "(ibc_name \<times> ibc_stack) list"
  as_modules :: "ibc_module list"

definition ibc_store_keys :: "ibc_name list" where
  "ibc_store_keys = [IBCCore, IBCTransfer, ICAHostSub, ICAControllerSub]"

text \<open>\<open>app.ParamsKeeper.Subspace(name).WithKeyTable(table)\<close>, which panics for a name that is taken.\<close>

definition add_subspace ::
  "ibc_name \<Rightarrow> key_table \<Rightarrow> app_state \<Rightarrow> (go_error, unit) outcome \<times> app_state" where
  "add_subspace n t app =
     (if n \<in> fst ` set (as_subspaces app) then (Panic ''subspace already occupied'', app)
      else (Ok (), app\<lparr>as_subspaces := as_subspaces app @ [(n, t)]\<rparr>))"

text \<open>
  A keeper gets the store key that \<open>GetKey\<close> finds among the registered stores (nil otherwise), the
  subspace that \<open>GetSubspace\<close> finds (the zero subspace otherwise), and the authority. All but
  the core keeper also get the core keeper's channel keeper.
\<close>

definition new_keeper ::
  "ibc_keeper_kind \<Rightarrow> ibc_name \<Rightarrow> ibc_name \<Rightarrow> string \<Rightarrow> app_state \<Rightarrow> app_state" where
  "new_keeper kind store sub authority app =
     app\<lparr>as_keepers := as_keepers app @
       [\<lparr>ik_kind = kind,
         ik_store = (if store \<in> set (as_stores app) then Some store else None),
         ik_subspace = map_of (as_subspaces app) sub,
         ik_authority = authority,
         ik_channels = (IBCKeeper \<in> ik_kind ` set (as_keepers app))\<rparr>]\<rparr>"

text \<open>
  \<open>RegisterStores\<close> and \<open>RegisterModules\<close> give the error of the call; \<open>bytesToString\<close> is the address
  codec's, whose error is dropped.
\<close>

definition registerIBCModules ::
  "(ibc_name list \<Rightarrow> go_error option) \<Rightarrow> (ibc_module list \<Rightarrow> go_error option) \<Rightarrow>
   (bytes \<Rightarrow> string \<times> go_error option) \<Rightarrow> (string \<Rightarrow> bytes) \<Rightarrow> app_state \<Rightarrow>
   (go_error, unit) outcome \<times> app_state" where
  "registerIBCModules RegisterStores RegisterModules bytesToString NewModuleAddress app =
     (case RegisterStores ibc_store_keys of
        Some err \<Rightarrow> (Err err, app)
      | None \<Rightarrow>
          (let app = app\<lparr>as_stores := as_stores app @ ibc_store_keys\<rparr> in
           chain_st (add_subspace IBCCore IBCClientAndConnectionTable app) (\<lambda>_ app.
           chain_st (add_subspace IBCTransfer TransferTable app) (\<lambda>_ app.
           chain_st (add_subspace ICAControllerSub ICAControllerTable app) (\<lambda>_ app.
           chain_st (add_subspace ICAHostSub ICAHostTable app) (\<lambda>_ app.
           let govModuleAddr = fst (bytesToString (NewModuleAddress GovModuleName));
               app = new_keeper IBCKeeper IBCCore IBCCore govModuleAddr app;
               app = new_keeper TransferKeeper IBCTransfer IBCTransfer govModuleAddr app;
               app = new_keeper ICAHostKeeper ICAHostSub ICAHostSub govModuleAddr app;
               app = new_keeper ICAControllerKeeper ICAControllerSub ICAControllerSub govModuleAddr app;
               app = app\<lparr>as_router :=
                 [(IBCTransfer, TransferStack), (ICAControllerSub, ICAControllerStack),
                  (ICAHostSub, ICAHostStack)]\<rparr>;
               app = app\<lparr>as_routerV2 := [(TransferPort, TransferStackV2)]\<rparr>;
               app = app\<lparr>as_clientRoutes := as_clientRoutes app @ [(IBCTm, TmLightClient)]\<rparr>;
               app = app\<lparr>as_clientRoutes := as_clientRoutes app @ [(Solomachine, SoloLightClient)]\<rparr>;
               mods = [MkIBCModule, MkTransferModule, MkICAModule, MkTmModule, MkSoloModule]
           in case RegisterModules mods of
                Some err \<Rightarrow> (Err err, app)
              | None \<Rightarrow> (Ok (), app\<lparr>as_modules := as_modules app @ mods\<rparr>)))))))"

text \<open>
  The client side: the modules by name, and the module objects whose interfaces were registered
  (\<open>isBasic m\<close> says whether \<open>m\<close> is an \<open>AppModuleBasic\<close>). Go visits a map in any order; the result
  does not depend on it.
\<close>

definition ibc_client_modules :: "(ibc_name \<times> ibc_module) list" where
  "ibc_client_modules =
     [(IBCCore, MkIBCModule), (IBCTransfer, MkTransferModule), (ICA, MkICAModule),
      (IBCTm, MkTmModule), (Solomachine, MkSoloModule)]"

definition RegisterIBC ::
  "(ibc_module \<Rightarrow> bool) \<Rightarrow> ibc_module set \<Rightarrow> (ibc_name \<rightharpoonup> ibc_module) \<times> ibc_module set" where
  "RegisterIBC isBasic registered =
     (let modules = map_of ibc_client_modules
      in (modules, registered \<union> {m \<in> set (map snd ibc_client_modules). isBasic m}))"

section \<open>The application\<close>

text \<open>
  \<open>SetModuleVersionMap\<close> and the runtime's \<open>InitChainer\<close> are arguments.
\<close>

definition InitChainer ::
  "('v \<Rightarrow> 's \<Rightarrow> (go_error, unit) outcome \<times> 's) \<Rightarrow> 'v \<Rightarrow> ('s \<Rightarrow> (go_error, 'r) outcome \<times> 's) \<Rightarrow>
   's \<Rightarrow> (go_error, 'r) outcome \<times> 's" where
  "InitChainer SetModuleVersionMap versions runtime_InitChainer ctx =
     chain_st (SetModuleVersionMap versions ctx) (\<lambda>_ ctx. runtime_InitChainer ctx)"

text \<open>
  \<open>New\<close>, as the sequence of its steps on an application value: inject, build with the caller's
  options and optimistic execution, register the IBC modules, install the simulation manager and
  the chain initialiser, load. Every failure panics.
\<close>

record ('a, 'opt) app_steps =
  do_Inject :: "'a \<Rightarrow> (go_error, unit) outcome \<times> 'a"
  do_Build :: "'opt list \<Rightarrow> 'a \<Rightarrow> 'a"
  do_registerIBCModules :: "'a \<Rightarrow> (go_error, unit) outcome \<times> 'a"
  do_SimulationManager :: "'a \<Rightarrow> 'a"
  do_SetInitChainer :: "'a \<Rightarrow> 'a"
  do_Load :: "bool \<Rightarrow> 'a \<Rightarrow> (go_error, unit) outcome \<times> 'a"

definition app_New ::
  "('a, 'opt) app_steps \<Rightarrow> 'opt \<Rightarrow> bool \<Rightarrow> 'opt list \<Rightarrow> 'a \<Rightarrow> (go_error, unit) outcome \<times> 'a" where
  "app_New steps optimistic loadLatest baseAppOptions app =
     chain_st (panic_on_err (do_Inject steps app)) (\<lambda>_ app.
       let baseAppOptions = baseAppOptions @ [optimistic];
           app = do_Build steps baseAppOptions app
       in chain_st (panic_on_err (do_registerIBCModules steps app)) (\<lambda>_ app.
            let app = do_SimulationManager steps app;
                app = do_SetInitChainer steps app
            in panic_on_err (do_Load steps loadLatest app)))"

text \<open>
  The \<open>init\<close> function: the environment prefix and the node's home directory,
  \<open>GetNodeHomeDirectory\<close> an argument. The results are the two package variables.
\<close>

definition app_init :: "(string \<Rightarrow> (go_error, string) outcome) \<Rightarrow> (go_error, string \<times> string) outcome" where
  "app_init GetNodeHomeDirectory =
     (case GetNodeHomeDirectory (''.'' @ app_Name) of
        Ok DefaultNodeHome \<Rightarrow> Ok (app_Name, DefaultNodeHome)
      | Err err \<Rightarrow> Panic (error_text err)
      | Panic p \<Rightarrow> Panic p)"

text \<open>
  The HTTP routes: the runtime's, the swagger ones, then the two of docs/docs.go. A route is the
  path and what is served there: the embedded files, or the index template with a title and the
  address of the API description.
\<close>

datatype api_route = StaticFiles | IndexPage string string | ModuleRoutes | SwaggerRoutes

definition apiFile :: string where "apiFile = ''/static/openapi.json''"

definition RegisterOpenAPIService :: "string \<Rightarrow> (string \<times> api_route) list \<Rightarrow> (string \<times> api_route) list" where
  "RegisterOpenAPIService appName rtr = rtr @ [(apiFile, StaticFiles), (''/'', IndexPage appName apiFile)]"

definition RegisterAPIRoutes ::
  "('r \<Rightarrow> 'r) \<Rightarrow> (bool \<Rightarrow> 'r \<Rightarrow> (go_error, unit) outcome \<times> 'r) \<Rightarrow> (string \<Rightarrow> 'r \<Rightarrow> 'r) \<Rightarrow> bool \<Rightarrow>
   'r \<Rightarrow> (go_error, unit) outcome \<times> 'r" where
  "RegisterAPIRoutes runtime_RegisterAPIRoutes RegisterSwaggerAPI RegisterOpenAPI swagger rtr =
     chain_st (panic_on_err (RegisterSwaggerAPI swagger (runtime_RegisterAPIRoutes rtr)))
       (\<lambda>_ rtr. (Ok (), RegisterOpenAPI app_Name rtr))"

section \<open>Facts\<close>

definition empty_app :: app_state where
  "empty_app = \<lparr>as_stores = [], as_subspaces = [], as_keepers = [], as_router = [], as_routerV2 = [],
     as_clientRoutes = [], as_modules = []\<rparr>"

text \<open>The state a successful registration leaves.\<close>

definition ibc_registered :: "string \<Rightarrow> app_state" where
  "ibc_registered gov =
     \<lparr>as_stores = ibc_store_keys,
      as_subspaces = [(IBCCore, IBCClientAndConnectionTable), (IBCTransfer, TransferTable),
        (ICAControllerSub, ICAControllerTable), (ICAHostSub, ICAHostTable)],
      as_keepers =
        [\<lparr>ik_kind = IBCKeeper, ik_store = Some IBCCore, ik_subspace = Some IBCClientAndConnectionTable,
          ik_authority = gov, ik_channels = False\<rparr>,
         \<lparr>ik_kind = TransferKeeper, ik_store = Some IBCTransfer, ik_subspace = Some TransferTable,
          ik_authority = gov, ik_channels = True\<rparr>,
         \<lparr>ik_kind = ICAHostKeeper, ik_store = Some ICAHostSub, ik_subspace = Some ICAHostTable,
          ik_authority = gov, ik_channels = True\<rparr>,
         \<lparr>ik_kind = ICAControllerKeeper, ik_store = Some ICAControllerSub,
          ik_subspace = Some ICAControllerTable, ik_authority = gov, ik_channels = True\<rparr>],
      as_router = [(IBCTransfer, TransferStack), (ICAControllerSub, ICAControllerStack),
        (ICAHostSub, ICAHostStack)],
      as_routerV2 = [(TransferPort, TransferStackV2)],
      as_clientRoutes = [(IBCTm, TmLightClient), (Solomachine, SoloLightClient)],
      as_modules = [MkIBCModule, MkTransferModule, MkICAModule, MkTmModule, MkSoloModule]\<rparr>"

lemma register_Ok_iff:
  "registerIBCModules rs rm b2s nma empty_app = (Ok (), app) \<longleftrightarrow>
     rs ibc_store_keys = None \<and>
     rm [MkIBCModule, MkTransferModule, MkICAModule, MkTmModule, MkSoloModule] = None \<and>
     app = ibc_registered (fst (b2s (nma GovModuleName)))"
  by (simp add: registerIBCModules_def add_subspace_def new_keeper_def empty_app_def
      ibc_store_keys_def ibc_registered_def split: option.split)
    (auto simp: Let_def split: option.splits)

lemma register_store_failure:
  "rs ibc_store_keys = Some e \<Longrightarrow> registerIBCModules rs rm b2s nma app = (Err e, app)"
  by (simp add: registerIBCModules_def)

lemma chain_st_no_err:
  "(\<And>e. fst m \<noteq> Err e) \<Longrightarrow> (\<And>a s e. fst (f a s) \<noteq> Err e) \<Longrightarrow> fst (chain_st m f) \<noteq> Err e"
  by (cases m; cases "fst m") auto

lemma app_New_no_error: "fst (app_New steps opt ll opts app) \<noteq> Err e"
  unfolding app_New_def Let_def
  by (intro chain_st_no_err) (metis panic_on_err_no_Err prod.collapse)+

lemma app_New_Ok_iff:
  "app_New steps opt ll opts app = (Ok (), app') \<longleftrightarrow>
     (\<exists>a b. do_Inject steps app = (Ok (), a) \<and>
        do_registerIBCModules steps (do_Build steps (opts @ [opt]) a) = (Ok (), b) \<and>
        do_Load steps ll (do_SetInitChainer steps (do_SimulationManager steps b)) = (Ok (), app'))"
  by (auto simp: app_New_def Let_def outcome_simps)

end
