(* ===== verification/Go_Strings.thy ===== *)
theory Go_Strings
  imports Go_Prelude
begin

text \<open>
  The parts of Go's strings, strconv and path/filepath (on Unix) that the commands use:
  \<open>strings.Split\<close> and \<open>strings.Join\<close> for a one-character separator, \<open>strconv.Itoa\<close>, and
  \<open>filepath.Clean\<close>, \<open>Join\<close>, \<open>Base\<close>, \<open>Abs\<close>, \<open>IsAbs\<close> and \<open>Rel\<close>.
\<close>

section \<open>Splitting and joining\<close>

fun split_on :: "char \<Rightarrow> string \<Rightarrow> string list" where
  "split_on c [] = [[]]"
| "split_on c (x # xs) =
     (if x = c then [] # split_on c xs
      else (case split_on c xs of w # ws \<Rightarrow> (x # w) # ws | [] \<Rightarrow> [[x]]))"

fun join_with :: "char \<Rightarrow> string list \<Rightarrow> string" where
  "join_with c [] = []"
| "join_with c [w] = w"
| "join_with c (w # v # ws) = w @ c # join_with c (v # ws)"

lemma split_on_ne [simp]: "split_on c s \<noteq> []"
  by (induction s) (auto split: list.split)

lemma join_Cons: "ws \<noteq> [] \<Longrightarrow> join_with c (w # ws) = w @ c # join_with c ws"
  by (cases ws) auto

lemma join_split [simp]: "join_with c (split_on c s) = s"
proof (induction s)
  case (Cons x s)
  obtain w ws where e: "split_on c s = w # ws" using split_on_ne [of c s] by (cases "split_on c s") auto
  show ?case
  proof (cases "x = c")
    case True
    then show ?thesis using Cons e by (simp add: join_Cons)
  next
    case False
    then show ?thesis using Cons e by (cases ws) auto
  qed
qed simp

lemma split_no_sep: "w \<in> set (split_on c s) \<Longrightarrow> c \<notin> set w"
proof (induction s arbitrary: w)
  case (Cons x s)
  obtain v vs where e: "split_on c s = v # vs" using split_on_ne [of c s] by (cases "split_on c s") auto
  then show ?case using Cons by (auto split: if_splits)
qed simp

lemma split_on_append: "c \<notin> set w \<Longrightarrow> split_on c (w @ c # s) = w # split_on c s"
  by (induction w) auto

lemma split_on_id: "c \<notin> set w \<Longrightarrow> split_on c w = [w]"
  by (induction w) auto

lemma split_join:
  "ws \<noteq> [] \<Longrightarrow> (\<And>w. w \<in> set ws \<Longrightarrow> c \<notin> set w) \<Longrightarrow> split_on c (join_with c ws) = ws"
proof (induction ws)
  case (Cons w ws)
  then show ?case
    by (cases ws) (simp_all add: split_on_append split_on_id)
qed simp

section \<open>Decimal numerals\<close>

definition digit :: "nat \<Rightarrow> char" where
  "digit d = char_of (48 + d)"

fun digits :: "nat \<Rightarrow> string" where
  "digits n = (if n < 10 then [digit n] else digits (n div 10) @ [digit (n mod 10)])"

declare digits.simps [simp del]

definition Itoa :: "int \<Rightarrow> string" where
  "Itoa i = (if i < 0 then CHR ''-'' # digits (nat (- i)) else digits (nat i))"

definition digit_value :: "char \<Rightarrow> nat" where
  "digit_value ch = of_char ch - 48"

lemma digit_value_digit: "d < 10 \<Longrightarrow> digit_value (digit d) = d"
  by (simp add: digit_value_def digit_def)

lemma digits_value: "fold (\<lambda>ch v. 10 * v + digit_value ch) (digits n) 0 = n"
proof (induction n rule: less_induct)
  case (less n)
  show ?case
  proof (cases "n < 10")
    case False
    then have "n div 10 < n" by simp
    from less [OF this] False show ?thesis
      by (subst digits.simps) (simp add: digit_value_digit)
  qed (subst digits.simps, simp add: digit_value_digit)
qed

lemma digits_inj: "digits m = digits n \<Longrightarrow> m = n"
  by (metis digits_value)

lemma digit_neq: "d < 10 \<Longrightarrow> digit d \<noteq> CHR ''-''" "d < 10 \<Longrightarrow> digit d \<noteq> CHR ''/''"
proof -
  assume "d < 10"
  then have "of_char (digit d) = (48 + d :: nat)" by (simp add: digit_def)
  moreover have "of_char (CHR ''-'') = (45 :: nat)" "of_char (CHR ''/'') = (47 :: nat)" by simp_all
  ultimately show "digit d \<noteq> CHR ''-''" "digit d \<noteq> CHR ''/''" by auto
qed

lemma digits_chars: "ch \<in> set (digits n) \<Longrightarrow> \<exists>d < 10. ch = digit d"
proof (induction n rule: less_induct)
  case (less n)
  show ?case
  proof (cases "n < 10")
    case True
    then show ?thesis using less.prems by (subst (asm) digits.simps) auto
  next
    case False
    then have "ch \<in> set (digits (n div 10)) \<or> ch = digit (n mod 10)"
      using less.prems by (subst (asm) digits.simps) auto
    then show ?thesis using less.IH [of "n div 10"] False by (metis mod_less_divisor zero_less_numeral linorder_not_less div_less_dividend one_less_numeral_iff semiring_norm(76) less_le_trans)
  qed
qed

lemma digits_ne [simp]: "digits n \<noteq> []"
  by (subst digits.simps) simp

lemma Itoa_inj: "Itoa i = Itoa j \<Longrightarrow> i = j"
proof -
  have m: "CHR ''-'' # xs \<noteq> digits n" for xs n
    using digits_chars [of "CHR ''-''" n] digit_neq(1) by (metis list.set_intros(1))
  assume "Itoa i = Itoa j"
  then have "(i < 0) = (j < 0) \<and> nat (if i < 0 then - i else i) = nat (if j < 0 then - j else j)"
    using m m [symmetric] digits_inj by (auto simp: Itoa_def split: if_splits)
  then show "i = j" by (auto split: if_splits)
qed

lemma Itoa_eq [simp]: "Itoa i = Itoa j \<longleftrightarrow> i = j"
  using Itoa_inj by blast

lemma digits_no_slash: "CHR ''/'' \<notin> set (digits n)"
  using digits_chars [of "CHR ''/''" n] digit_neq(2) by metis

lemma Itoa_no_slash: "CHR ''/'' \<notin> set (Itoa i)"
  by (simp add: Itoa_def digits_no_slash)

lemma Itoa_ne [simp]: "Itoa i \<noteq> []"
  by (simp add: Itoa_def)

section \<open>File paths\<close>

definition IsAbs :: "string \<Rightarrow> bool" where
  "IsAbs p = (case p of ch # r \<Rightarrow> ch = CHR ''/'' | [] \<Rightarrow> False)"

definition clean_step :: "bool \<Rightarrow> string \<Rightarrow> string list \<Rightarrow> string list" where
  "clean_step rooted c st =
     (if c = [] \<or> c = ''.'' then st
      else if c = ''..'' then
        (case st of
           x # xs \<Rightarrow> if x = ''..'' then c # st else xs
         | [] \<Rightarrow> if rooted then [] else [c])
      else c # st)"

definition clean_components :: "string \<Rightarrow> string list" where
  "clean_components p = rev (fold (clean_step (IsAbs p)) (split_on (CHR ''/'') p) [])"

definition Clean :: "string \<Rightarrow> string" where
  "Clean p =
     (let cs = clean_components p
      in if IsAbs p then CHR ''/'' # join_with (CHR ''/'') cs
         else if cs = [] then ''.'' else join_with (CHR ''/'') cs)"

definition filepath_Join :: "string list \<Rightarrow> string" where
  "filepath_Join elems =
     (let es = dropWhile (\<lambda>e. e = []) elems
      in if es = [] then [] else Clean (join_with (CHR ''/'') es))"

definition Base :: "string \<Rightarrow> string" where
  "Base p =
     (let q = rev (dropWhile (\<lambda>ch. ch = CHR ''/'') (rev p))
      in if p = [] then ''.'' else if q = [] then ''/'' else last (split_on (CHR ''/'') q))"

text \<open>\<open>Abs\<close> needs the working directory, whose lookup can fail.\<close>

definition filepath_Abs :: "('e, string) outcome \<Rightarrow> string \<Rightarrow> ('e, string) outcome" where
  "filepath_Abs cwd p =
     (if IsAbs p then Ok (Clean p) else chain cwd (\<lambda>wd. Ok (filepath_Join [wd, p])))"

definition path_components :: "string \<Rightarrow> string list" where
  "path_components p = filter (\<lambda>w. w \<noteq> []) (split_on (CHR ''/'') p)"

fun strip_common :: "string list \<Rightarrow> string list \<Rightarrow> string list \<times> string list" where
  "strip_common (b # bs) (t # ts) = (if b = t then strip_common bs ts else (b # bs, t # ts))"
| "strip_common bs ts = (bs, ts)"

definition Rel :: "string \<Rightarrow> string \<Rightarrow> string option" where
  "Rel basepath targpath =
     (let base = Clean basepath; targ = Clean targpath
      in if targ = base then Some ''.''
         else
           (let base = (if base = ''.'' then [] else base)
            in if IsAbs base \<noteq> IsAbs targ then None
               else (case strip_common (path_components base) (path_components targ) of
                   (bs, ts) \<Rightarrow>
                     if (case bs of b # _ \<Rightarrow> b = ''..'' | [] \<Rightarrow> False) then None
                     else Some (join_with (CHR ''/'') (map (\<lambda>_. ''..'') bs @ ts)))))"

lemma strip_common_prefix: "strip_common bs (bs @ ts) = ([], ts)"
  by (induction bs) (cases ts, auto)

lemma strip_common_append: "strip_common (w @ bs) (w @ ts) = strip_common bs ts"
  by (induction w) simp_all

lemma strip_common_eq:
  "strip_common bs ts = (us, vs) \<Longrightarrow>
     \<exists>p. bs = p @ us \<and> ts = p @ vs \<and> (us = [] \<or> vs = [] \<or> hd us \<noteq> hd vs)"
proof (induction bs ts rule: strip_common.induct)
  case (1 b bs t ts)
  show ?case
  proof (cases "b = t")
    case True
    then obtain p where "bs = p @ us" "ts = p @ vs" "us = [] \<or> vs = [] \<or> hd us \<noteq> hd vs"
      using 1 by auto
    then show ?thesis using True by (intro exI [of _ "b # p"]) simp
  next
    case False
    then show ?thesis using "1.prems" by auto
  qed
qed auto

lemma strip_common_empty_iff: "fst (strip_common bs ts) = [] \<longleftrightarrow> (\<exists>r. ts = bs @ r)"
proof
  assume a: "fst (strip_common bs ts) = []"
  obtain vs where "strip_common bs ts = ([], vs)" using a by (cases "strip_common bs ts") auto
  from strip_common_eq [OF this] show "\<exists>r. ts = bs @ r" by auto
qed (auto simp: strip_common_prefix)

text \<open>The components of a cleaned absolute path are proper names.\<close>

definition proper_name :: "string \<Rightarrow> bool" where
  "proper_name w \<longleftrightarrow> w \<noteq> [] \<and> w \<noteq> ''.'' \<and> w \<noteq> ''..'' \<and> CHR ''/'' \<notin> set w"

lemma clean_step_proper:
  "list_all proper_name st \<Longrightarrow> CHR ''/'' \<notin> set c \<Longrightarrow> list_all proper_name (clean_step True c st)"
  by (cases st) (auto simp: clean_step_def proper_name_def)

lemma fold_clean_proper:
  "list_all proper_name st \<Longrightarrow> (\<And>c. c \<in> set cs \<Longrightarrow> CHR ''/'' \<notin> set c) \<Longrightarrow>
   list_all proper_name (fold (clean_step True) cs st)"
  by (induction cs arbitrary: st) (auto intro: clean_step_proper)

lemma clean_components_proper:
  "IsAbs p \<Longrightarrow> list_all proper_name (clean_components p)"
  using fold_clean_proper [of "[]" "split_on (CHR ''/'') p"] split_no_sep [of _ "CHR ''/''" p]
  by (simp add: clean_components_def)

lemma path_components_join:
  assumes "list_all proper_name cs"
  shows "path_components (CHR ''/'' # join_with (CHR ''/'') cs) = cs"
proof -
  have s: "split_on (CHR ''/'') (join_with (CHR ''/'') cs) = (if cs = [] then [[]] else cs)"
    using assms split_join [of cs "CHR ''/''"] by (auto simp: list_all_iff proper_name_def)
  have "filter (\<lambda>w. w \<noteq> []) cs = cs"
    using assms by (induction cs) (auto simp: proper_name_def)
  then show ?thesis by (simp add: path_components_def s)
qed

lemma fold_clean_id:
  "list_all proper_name cs \<Longrightarrow> fold (clean_step r) cs st = rev cs @ st"
  by (induction cs arbitrary: st) (auto simp: clean_step_def proper_name_def)

lemma IsAbs_slash [simp]: "IsAbs (CHR ''/'' # p)"
  by (simp add: IsAbs_def)

lemma Clean_join:
  assumes "list_all proper_name cs"
  shows "Clean (CHR ''/'' # join_with (CHR ''/'') cs) = CHR ''/'' # join_with (CHR ''/'') cs"
proof -
  have s: "split_on (CHR ''/'') (join_with (CHR ''/'') cs) = (if cs = [] then [[]] else cs)"
    using assms split_join [of cs "CHR ''/''"] by (auto simp: list_all_iff proper_name_def)
  have "clean_components (CHR ''/'' # join_with (CHR ''/'') cs) = cs"
    using fold_clean_id [OF assms, of True "[]"]
    by (simp add: clean_components_def s clean_step_def)
  then show ?thesis by (simp add: Clean_def)
qed

text \<open>Cleaning is idempotent on absolute paths.\<close>

lemma Clean_Clean: "IsAbs p \<Longrightarrow> Clean (Clean p) = Clean p"
  using Clean_join [OF clean_components_proper [of p]] by (simp add: Clean_def Let_def)

end
