(* ===== verification/Testnet_InPlace.thy ===== *)
theory Testnet_InPlace
  imports Sdk_Calls Go_Strings
begin

text \<open>
  cmd/pulsard/cmd/testnet.go: the command that turns the state of a node into a testnet with one
  validator.

  The keepers, the staking store and its iterators are fields of \<open>testnet_app\<close>, functions of a state
  \<open>'s\<close>. \<open>handleErr\<close> ends the process: the error of an outcome here is \<open>Exit\<close>, with the status and
  the text printed. An iterator is the list of the keys it yields when it is opened.
\<close>

section \<open>Arguments\<close>

datatype opt_value = OptNil | OptHexBytes bytes | OptPubKey bytes | OptString string | OptOther

definition KeyAccountsToFund :: string where "KeyAccountsToFund = ''accounts-to-fund''"

text \<open>The flag that \<open>NewInPlaceTestnetCmd\<close> adds to the SDK's command, with its default.\<close>

definition inplace_flags :: "(string \<times> string) list" where
  "inplace_flags = [(KeyAccountsToFund, [])]"

record valArgs =
  newValAddr :: bytes
  newOperatorAddress :: string
  newValPubKey :: bytes
  accountsToFund :: "string list"
  upgradeToTrigger :: string
  homeDir :: string

definition empty_valArgs :: valArgs where
  "empty_valArgs = \<lparr>newValAddr = [], newOperatorAddress = [], newValPubKey = [], accountsToFund = [],
     upgradeToTrigger = [], homeDir = []\<rparr>"

text \<open>
  The keys of the SDK's options, as an argument; \<open>ToString\<close> is \<open>cast.ToString\<close>. The function
  returns the arguments read so far and the error.
\<close>

record option_keys =
  KeyNewValAddr :: string
  KeyUserPubKey :: string
  KeyNewOpAddr :: string
  KeyTriggerTestnetUpgrade :: string
  FlagHome :: string

definition getCommandArgs ::
  "option_keys \<Rightarrow> (opt_value \<Rightarrow> string) \<Rightarrow> (string \<Rightarrow> opt_value) \<Rightarrow> valArgs \<times> go_error option" where
  "getCommandArgs ks ToString Get =
     (let args = empty_valArgs in
      case Get (KeyNewValAddr ks) of
        OptHexBytes addr \<Rightarrow>
          (let args = args\<lparr>newValAddr := addr\<rparr> in
           case Get (KeyUserPubKey ks) of
             OptPubKey pk \<Rightarrow>
               (let args = args\<lparr>newValPubKey := pk\<rparr> in
                case Get (KeyNewOpAddr ks) of
                  OptString op \<Rightarrow>
                    (let args = args\<lparr>newOperatorAddress := op\<rparr> in
                     case Get (KeyTriggerTestnetUpgrade ks) of
                       OptString up \<Rightarrow>
                         (let args = args\<lparr>upgradeToTrigger := up\<rparr>;
                              accountsString = ToString (Get KeyAccountsToFund);
                              args = args\<lparr>accountsToFund :=
                                accountsToFund args @ split_on (CHR '','') accountsString\<rparr>;
                              home = ToString (Get (FlagHome ks))
                          in if home = [] then (args, Some (LibError ''invalid home dir''))
                             else (args\<lparr>homeDir := home\<rparr>, None))
                     | _ \<Rightarrow> (args, Some (LibError ''upgradeToTrigger is not of type string'')))
                | _ \<Rightarrow> (args, Some (LibError ''newOperatorAddress is not of type string'')))
           | _ \<Rightarrow> (args, Some (LibError ''newValPubKey is not of type crypto.PubKey'')))
      | _ \<Rightarrow> (args, Some (LibError ''newValAddr is not of type bytes.HexBytes'')))"

section \<open>The application\<close>

datatype exit_status = Exit nat string

fun handleErr :: "(go_error, 'a) outcome \<times> 's \<Rightarrow> (exit_status, 'a) outcome \<times> 's" where
  "handleErr (Ok a, s) = (Ok a, s)"
| "handleErr (Panic p, s) = (Panic p, s)"
| "handleErr (Err e, s) = (Err (Exit 1 (error_text e)), s)"

type_synonym coins = "(string \<times> int) list"

record 's testnet_app =
  ta_NewAnyWithValue :: "bytes \<Rightarrow> (go_error, bytes) outcome"
  ta_ValidatorStringToBytes :: "string \<Rightarrow> bytes \<times> go_error option"
  ta_AccountStringToBytes :: "string \<Rightarrow> bytes \<times> go_error option"
  ta_ConsAddressString :: "bytes \<Rightarrow> string"
  ta_LastBlockHeight :: int
  ta_ValidatorsKey :: bytes
  ta_ValidatorQueueKey :: bytes
  ta_PrefixEndBytes :: "bytes \<Rightarrow> bytes"
  ta_ValidatorsPowerStoreIterator :: "'s \<Rightarrow> (go_error, bytes list) outcome"
  ta_LastValidatorsIterator :: "'s \<Rightarrow> (go_error, bytes list) outcome"
  ta_StakingIterator :: "'s \<Rightarrow> bytes \<Rightarrow> bytes \<Rightarrow> bytes list"
  ta_Delete :: "bytes \<Rightarrow> 's \<Rightarrow> 's"
  ta_SetValidator :: "Validator \<Rightarrow> 's \<Rightarrow> (go_error, unit) outcome \<times> 's"
  ta_SetValidatorByConsAddr :: "Validator \<Rightarrow> 's \<Rightarrow> (go_error, unit) outcome \<times> 's"
  ta_SetValidatorByPowerIndex :: "Validator \<Rightarrow> 's \<Rightarrow> (go_error, unit) outcome \<times> 's"
  ta_SetLastValidatorPower :: "bytes \<Rightarrow> int \<Rightarrow> 's \<Rightarrow> (go_error, unit) outcome \<times> 's"
  ta_AfterValidatorCreated :: "bytes \<Rightarrow> 's \<Rightarrow> (go_error, unit) outcome \<times> 's"
  ta_SetValidatorHistoricalRewards :: "bytes \<Rightarrow> nat \<Rightarrow> coins \<times> nat \<Rightarrow> 's \<Rightarrow> (go_error, unit) outcome \<times> 's"
  ta_SetValidatorCurrentRewards :: "bytes \<Rightarrow> coins \<times> nat \<Rightarrow> 's \<Rightarrow> (go_error, unit) outcome \<times> 's"
  ta_SetValidatorAccumulatedCommission :: "bytes \<Rightarrow> coins \<Rightarrow> 's \<Rightarrow> (go_error, unit) outcome \<times> 's"
  ta_SetValidatorOutstandingRewards :: "bytes \<Rightarrow> coins \<Rightarrow> 's \<Rightarrow> (go_error, unit) outcome \<times> 's"
  ta_SetValidatorSigningInfo :: "bytes \<Rightarrow> ValidatorSigningInfo \<Rightarrow> 's \<Rightarrow> (go_error, unit) outcome \<times> 's"
  ta_BondDenom :: "'s \<Rightarrow> (go_error, string) outcome"
  ta_NewCoins :: "string \<Rightarrow> int \<Rightarrow> (go_error, coins) outcome"
  ta_MintCoins :: "string \<Rightarrow> coins \<Rightarrow> 's \<Rightarrow> (go_error, unit) outcome \<times> 's"
  ta_SendCoinsFromModuleToAccount ::
    "string \<Rightarrow> bytes \<Rightarrow> coins \<Rightarrow> 's \<Rightarrow> (go_error, unit) outcome \<times> 's"

definition valVotingPower :: int where "valVotingPower = 900000000000000"
definition mint_module :: string where "mint_module = ''mint''"
definition fund_amount :: int where "fund_amount = 1000000000"

definition testnet_validator :: "string \<Rightarrow> bytes \<Rightarrow> Validator" where
  "testnet_validator operator pubkeyAny =
     \<lparr>v_OperatorAddress = operator, v_ConsensusPubkey = pubkeyAny, v_Jailed = False,
      v_Status = Bonded, v_Tokens = valVotingPower, v_DelegatorShares = dec_of 10000000 0,
      v_Moniker = ''Testnet Validator'', v_UnbondingHeight = 0,
      v_CommissionRates =
        \<lparr>cr_Rate = dec_of 5 2, cr_MaxRate = dec_of 1 1, cr_MaxChangeRate = dec_of 5 2\<rparr>,
      v_MinSelfDelegation = 1\<rparr>"

text \<open>\<open>for ; iterator.Valid(); iterator.Next() { stakingStore.Delete(iterator.Key()) }\<close>\<close>

definition delete_keys :: "'s testnet_app \<Rightarrow> bytes list \<Rightarrow> 's \<Rightarrow> 's" where
  "delete_keys app keys s = fold (ta_Delete app) keys s"

definition delete_range :: "'s testnet_app \<Rightarrow> bytes \<Rightarrow> 's \<Rightarrow> 's" where
  "delete_range app start s =
     delete_keys app (ta_StakingIterator app s start (ta_PrefixEndBytes app start)) s"

definition remove_validators :: "'s testnet_app \<Rightarrow> 's \<Rightarrow> (exit_status, unit) outcome \<times> 's" where
  "remove_validators app s =
     chain_st (handleErr (ta_ValidatorsPowerStoreIterator app s, s)) (\<lambda>keys s.
       let s = delete_keys app keys s in
       chain_st (handleErr (ta_LastValidatorsIterator app s, s)) (\<lambda>keys s.
         let s = delete_keys app keys s;
             s = delete_range app (ta_ValidatorsKey app) s;
             s = delete_range app (ta_ValidatorQueueKey app) s
         in (Ok (), s)))"

definition add_validator ::
  "'s testnet_app \<Rightarrow> Validator \<Rightarrow> bytes \<Rightarrow> 's \<Rightarrow> (exit_status, unit) outcome \<times> 's" where
  "add_validator app newVal validator s =
     chain_st (handleErr (ta_SetValidator app newVal s)) (\<lambda>_ s.
     chain_st (handleErr (ta_SetValidatorByConsAddr app newVal s)) (\<lambda>_ s.
     chain_st (handleErr (ta_SetValidatorByPowerIndex app newVal s)) (\<lambda>_ s.
     chain_st (handleErr (ta_SetLastValidatorPower app validator 0 s)) (\<lambda>_ s.
     handleErr (ta_AfterValidatorCreated app validator s)))))"

definition init_distribution ::
  "'s testnet_app \<Rightarrow> bytes \<Rightarrow> 's \<Rightarrow> (exit_status, unit) outcome \<times> 's" where
  "init_distribution app validator s =
     chain_st (handleErr (ta_SetValidatorHistoricalRewards app validator 0 ([], 1) s)) (\<lambda>_ s.
     chain_st (handleErr (ta_SetValidatorCurrentRewards app validator ([], 1) s)) (\<lambda>_ s.
     chain_st (handleErr (ta_SetValidatorAccumulatedCommission app validator [] s)) (\<lambda>_ s.
     handleErr (ta_SetValidatorOutstandingRewards app validator [] s))))"

definition set_signing_info ::
  "'s testnet_app \<Rightarrow> bytes \<Rightarrow> 's \<Rightarrow> (exit_status, unit) outcome \<times> 's" where
  "set_signing_info app addr s =
     handleErr (drop_err (ta_SetValidatorSigningInfo app addr
       \<lparr>si_Address = ta_ConsAddressString app addr, si_StartHeight = int64 (ta_LastBlockHeight app - 1),
        si_Tombstoned = False, si_rest = 0\<rparr> s))"

fun fund_accounts ::
  "'s testnet_app \<Rightarrow> coins \<Rightarrow> string list \<Rightarrow> 's \<Rightarrow> (exit_status, unit) outcome \<times> 's" where
  "fund_accounts app defaultCoins [] s = (Ok (), s)"
| "fund_accounts app defaultCoins (accountStr # accounts) s =
     chain_st (handleErr (ta_MintCoins app mint_module defaultCoins s)) (\<lambda>_ s.
       case ta_AccountStringToBytes app accountStr of
         (account, Some e) \<Rightarrow> (Err (Exit 1 (error_text e)), s)
       | (account, None) \<Rightarrow>
           chain_st (handleErr (ta_SendCoinsFromModuleToAccount app mint_module account defaultCoins s))
             (\<lambda>_ s. fund_accounts app defaultCoins accounts s))"

definition initAppForTestnet ::
  "'s testnet_app \<Rightarrow> valArgs \<Rightarrow> 's \<Rightarrow> (exit_status, unit) outcome \<times> 's" where
  "initAppForTestnet app args s =
     chain_st (handleErr (ta_NewAnyWithValue app (newValPubKey args), s)) (\<lambda>pubkeyAny s.
       let newVal = testnet_validator (newOperatorAddress args) pubkeyAny in
       case ta_ValidatorStringToBytes app (v_OperatorAddress newVal) of
         (validator, Some e) \<Rightarrow> (Err (Exit 1 (error_text e)), s)
       | (validator, None) \<Rightarrow>
           chain_st (remove_validators app s) (\<lambda>_ s.
           chain_st (add_validator app newVal validator s) (\<lambda>_ s.
           chain_st (init_distribution app validator s) (\<lambda>_ s.
           chain_st (set_signing_info app (newValAddr args) s) (\<lambda>_ s.
           chain_st (handleErr (ta_BondDenom app s, s)) (\<lambda>bondDenom s.
           chain_st (handleErr (ta_NewCoins app bondDenom fund_amount, s)) (\<lambda>defaultCoins s.
           fund_accounts app defaultCoins (accountsToFund args) s)))))))"

text \<open>
  \<open>newTestnetApp\<close>: \<open>newApp\<close> gives the application or, when the type assertion fails, nothing; the
  arguments' error panics.
\<close>

definition newTestnetApp ::
  "'s testnet_app option \<Rightarrow> valArgs \<times> go_error option \<Rightarrow> 's \<Rightarrow> (exit_status, unit) outcome \<times> 's" where
  "newTestnetApp newApp parsed s =
     (case newApp of
        None \<Rightarrow> (Panic ''app created from newApp is not of type App'', s)
      | Some testApp \<Rightarrow>
          (case parsed of
             (args, Some err) \<Rightarrow> (Panic (error_text err), s)
           | (args, None) \<Rightarrow> initAppForTestnet testApp args s))"

section \<open>Removing the old validators\<close>

text \<open>
  The staking store as a map. The iterators yield the keys of the store that they are for, and
  \<open>Delete\<close> removes one key.
\<close>

definition lawful_store ::
  "'s testnet_app \<Rightarrow> ('s \<Rightarrow> bytes \<rightharpoonup> bytes) \<Rightarrow> (bytes \<Rightarrow> bool) \<Rightarrow> (bytes \<Rightarrow> bool) \<Rightarrow>
   (bytes \<Rightarrow> bytes \<Rightarrow> bytes \<Rightarrow> bool) \<Rightarrow> bool" where
  "lawful_store app kv pw lv rng \<longleftrightarrow>
     (\<forall>s ks. ta_ValidatorsPowerStoreIterator app s = Ok ks \<longrightarrow> set ks = {k \<in> dom (kv s). pw k}) \<and>
     (\<forall>s ks. ta_LastValidatorsIterator app s = Ok ks \<longrightarrow> set ks = {k \<in> dom (kv s). lv k}) \<and>
     (\<forall>s a b. set (ta_StakingIterator app s a b) = {k \<in> dom (kv s). rng a b k}) \<and>
     (\<forall>k s. kv (ta_Delete app k s) = (kv s)(k := None))"

lemma handleErr_Ok [outcome_simps]: "handleErr r = (Ok a, s) \<longleftrightarrow> r = (Ok a, s)"
  by (cases r rule: handleErr.cases) auto

text \<open>The interface of the staking store, and what the deletions do to it.\<close>

locale staking_store =
  fixes app :: "'s testnet_app" and kv :: "'s \<Rightarrow> bytes \<rightharpoonup> bytes"
    and pw :: "bytes \<Rightarrow> bool" and lv :: "bytes \<Rightarrow> bool" and rng :: "bytes \<Rightarrow> bytes \<Rightarrow> bytes \<Rightarrow> bool"
  assumes lawful: "lawful_store app kv pw lv rng"
begin

lemma power_keys: "ta_ValidatorsPowerStoreIterator app s = Ok ks \<Longrightarrow> set ks = {k \<in> dom (kv s). pw k}"
  and last_keys: "ta_LastValidatorsIterator app s = Ok ks \<Longrightarrow> set ks = {k \<in> dom (kv s). lv k}"
  and range_keys: "set (ta_StakingIterator app s a b) = {k \<in> dom (kv s). rng a b k}"
  and delete_kv: "kv (ta_Delete app k s) = (kv s)(k := None)"
  using lawful unfolding lawful_store_def by blast+

lemma delete_keys_kv: "kv (delete_keys app ks s) = (\<lambda>k. if k \<in> set ks then None else kv s k)"
proof -
  have "kv (fold (ta_Delete app) ks s) = (\<lambda>k. if k \<in> set ks then None else kv s k)"
    by (induction ks arbitrary: s) (auto simp: delete_kv fun_eq_iff)
  then show ?thesis by (simp add: delete_keys_def)
qed

lemma delete_range_kv:
  "kv (delete_range app p s) = (\<lambda>k. if rng p (ta_PrefixEndBytes app p) k then None else kv s k)"
  by (auto simp: delete_range_def delete_keys_kv range_keys fun_eq_iff domIff)

lemma remove_validators_kv:
  assumes "remove_validators app s = (Ok (), t)"
  shows "kv t = (\<lambda>k. if pw k \<or> lv k \<or>
      rng (ta_ValidatorsKey app) (ta_PrefixEndBytes app (ta_ValidatorsKey app)) k \<or>
      rng (ta_ValidatorQueueKey app) (ta_PrefixEndBytes app (ta_ValidatorQueueKey app)) k
    then None else kv s k)"
proof -
  from assms obtain ks ls where
    k: "ta_ValidatorsPowerStoreIterator app s = Ok ks"
    and l: "ta_LastValidatorsIterator app (delete_keys app ks s) = Ok ls"
    and t: "t = delete_range app (ta_ValidatorQueueKey app) (delete_range app (ta_ValidatorsKey app)
      (delete_keys app ls (delete_keys app ks s)))"
    by (auto simp: remove_validators_def Let_def outcome_simps)
  show ?thesis
    using power_keys [OF k] last_keys [OF l]
    by (auto simp: t delete_range_kv delete_keys_kv fun_eq_iff domIff)
qed

end

section \<open>Funding\<close>

text \<open>
  Balances of accounts and the total supply, in the coins of the funding. Minting adds to the
  supply, sending adds to the account.
\<close>

definition lawful_bank ::
  "'s testnet_app \<Rightarrow> ('s \<Rightarrow> bytes \<Rightarrow> int) \<Rightarrow> ('s \<Rightarrow> int) \<Rightarrow> (coins \<Rightarrow> int) \<Rightarrow> bool" where
  "lawful_bank app bal supply amount \<longleftrightarrow>
     (\<forall>m c s t. ta_MintCoins app m c s = (Ok (), t) \<longrightarrow>
        bal t = bal s \<and> supply t = supply s + amount c) \<and>
     (\<forall>m a c s t. ta_SendCoinsFromModuleToAccount app m a c s = (Ok (), t) \<longrightarrow>
        bal t = (bal s)(a := bal s a + amount c) \<and> supply t = supply s)"

lemma fund_accounts_balances:
  assumes "lawful_bank app bal supply amount" and "fund_accounts app c accs s = (Ok (), t)"
  shows "supply t = supply s + int (length accs) * amount c \<and>
    bal t = (\<lambda>a. bal s a +
      int (count_list (map (\<lambda>x. fst (ta_AccountStringToBytes app x)) accs) a) * amount c)"
  using assms(2)
proof (induction accs arbitrary: s)
  case (Cons x accs)
  obtain a e where x: "ta_AccountStringToBytes app x = (a, e)" by force
  with Cons.prems obtain s1 s2 where e: "e = None" and m: "ta_MintCoins app mint_module c s = (Ok (), s1)"
    and d: "ta_SendCoinsFromModuleToAccount app mint_module a c s1 = (Ok (), s2)"
    and r: "fund_accounts app c accs s2 = (Ok (), t)"
    by (auto simp: outcome_simps split: option.splits)
  have "bal s1 = bal s" "supply s1 = supply s + amount c"
    "bal s2 = (bal s1)(a := bal s1 a + amount c)" "supply s2 = supply s1"
    using m d assms(1) unfolding lawful_bank_def by blast+
  then show ?case
    using Cons.IH [OF r] x by (auto simp: fun_eq_iff algebra_simps)
qed simp

text \<open>An account string that does not convert ends the process.\<close>

lemma fund_accounts_exit:
  assumes "x \<in> set accs" "snd (ta_AccountStringToBytes app x) \<noteq> None"
  shows "\<not> is_ok (fst (fund_accounts app c accs s))"
  using assms
proof (induction accs arbitrary: s)
  case (Cons y accs)
  obtain m s1 where m: "ta_MintCoins app mint_module c s = (m, s1)" by force
  obtain a e where a: "ta_AccountStringToBytes app y = (a, e)" by force
  obtain d s2 where d: "ta_SendCoinsFromModuleToAccount app mint_module a c s1 = (d, s2)" by force
  show ?case
    using Cons m a d by (cases m; cases e; cases d) auto
qed simp

lemma chain_st_not_ok:
  "(\<And>a s. \<not> is_ok (fst (f a s))) \<Longrightarrow> \<not> is_ok (fst (chain_st m f))"
  by (cases m; cases "fst m") auto

lemma init_bad_account:
  assumes "x \<in> set (accountsToFund args)" "snd (ta_AccountStringToBytes app x) \<noteq> None"
  shows "\<not> is_ok (fst (initAppForTestnet app args s))"
  unfolding initAppForTestnet_def Let_def
  by (intro chain_st_not_ok)
    (auto split: prod.split option.split intro!: chain_st_not_ok fund_accounts_exit [OF assms])

section \<open>The arguments\<close>

lemma getCommandArgs_accounts:
  "getCommandArgs ks ToString Get = (args, None) \<Longrightarrow>
     accountsToFund args = split_on (CHR '','') (ToString (Get KeyAccountsToFund)) \<and>
     Get (KeyNewValAddr ks) = OptHexBytes (newValAddr args) \<and>
     Get (KeyUserPubKey ks) = OptPubKey (newValPubKey args) \<and>
     Get (KeyNewOpAddr ks) = OptString (newOperatorAddress args) \<and>
     Get (KeyTriggerTestnetUpgrade ks) = OptString (upgradeToTrigger args) \<and>
     homeDir args = ToString (Get (FlagHome ks)) \<and> homeDir args \<noteq> []"
  by (auto simp: getCommandArgs_def empty_valArgs_def Let_def split: opt_value.splits if_splits)

lemma getCommandArgs_returns:
  assumes "Get (KeyNewValAddr ks) = OptHexBytes a" "Get (KeyUserPubKey ks) = OptPubKey p"
    "Get (KeyNewOpAddr ks) = OptString op" "Get (KeyTriggerTestnetUpgrade ks) = OptString up"
    "ToString (Get (FlagHome ks)) \<noteq> []"
  shows "snd (getCommandArgs ks ToString Get) = None"
  using assms by (simp add: getCommandArgs_def Let_def)

section \<open>The whole initialisation\<close>

text \<open>A view of the state that a call leaves alone, whatever the call returns.\<close>

definition leaves :: "('s \<Rightarrow> 'v) \<Rightarrow> ('s \<Rightarrow> ('e, 'a) outcome \<times> 's) \<Rightarrow> bool" where
  "leaves view call \<longleftrightarrow> (\<forall>s. view (snd (call s)) = view s)"

lemma leavesD: "leaves view call \<Longrightarrow> call s = (r, t) \<Longrightarrow> view t = view s"
  by (metis leaves_def snd_conv)

text \<open>The calls that are not the bank's leave the view (the balances, say) alone.\<close>

definition only_bank_moves :: "'s testnet_app \<Rightarrow> ('s \<Rightarrow> 'v) \<Rightarrow> bool" where
  "only_bank_moves app view \<longleftrightarrow>
     (\<forall>k s. view (ta_Delete app k s) = view s) \<and>
     (\<forall>v. leaves view (ta_SetValidator app v) \<and> leaves view (ta_SetValidatorByConsAddr app v) \<and>
          leaves view (ta_SetValidatorByPowerIndex app v)) \<and>
     (\<forall>a. leaves view (ta_SetLastValidatorPower app a 0) \<and> leaves view (ta_AfterValidatorCreated app a) \<and>
          (\<forall>r. leaves view (ta_SetValidatorHistoricalRewards app a 0 r)) \<and>
          (\<forall>r. leaves view (ta_SetValidatorCurrentRewards app a r)) \<and>
          (\<forall>c. leaves view (ta_SetValidatorAccumulatedCommission app a c)) \<and>
          (\<forall>r. leaves view (ta_SetValidatorOutstandingRewards app a r)) \<and>
          (\<forall>i. leaves view (ta_SetValidatorSigningInfo app a i)))"

lemma only_bankD:
  assumes "only_bank_moves app view"
  shows "view (ta_Delete app k s) = view s"
    and "ta_SetValidator app v s = (r, t) \<Longrightarrow> view t = view s"
    and "ta_SetValidatorByConsAddr app v s = (r, t) \<Longrightarrow> view t = view s"
    and "ta_SetValidatorByPowerIndex app v s = (r, t) \<Longrightarrow> view t = view s"
    and "ta_SetLastValidatorPower app a 0 s = (r, t) \<Longrightarrow> view t = view s"
    and "ta_AfterValidatorCreated app a s = (r, t) \<Longrightarrow> view t = view s"
    and "ta_SetValidatorHistoricalRewards app a 0 h s = (r, t) \<Longrightarrow> view t = view s"
    and "ta_SetValidatorCurrentRewards app a h s = (r, t) \<Longrightarrow> view t = view s"
    and "ta_SetValidatorAccumulatedCommission app a c s = (r, t) \<Longrightarrow> view t = view s"
    and "ta_SetValidatorOutstandingRewards app a c s = (r, t) \<Longrightarrow> view t = view s"
    and "view (snd (ta_SetValidatorSigningInfo app a i s)) = view s"
  using assms unfolding only_bank_moves_def by (blast intro: leavesD | simp add: leaves_def)+

lemma delete_keys_view: "only_bank_moves app view \<Longrightarrow> view (delete_keys app ks s) = view s"
  unfolding delete_keys_def by (induction ks arbitrary: s) (simp_all add: only_bankD(1))

lemma remove_validators_view:
  "only_bank_moves app view \<Longrightarrow> remove_validators app s = (Ok (), t) \<Longrightarrow> view t = view s"
  by (auto simp: remove_validators_def delete_range_def Let_def outcome_simps delete_keys_view)

lemma add_validator_view:
  assumes "only_bank_moves app view" "add_validator app v a s = (Ok (), t)"
  shows "view t = view s"
proof -
  from assms(2) obtain s1 s2 s3 s4 where
    "ta_SetValidator app v s = (Ok (), s1)" "ta_SetValidatorByConsAddr app v s1 = (Ok (), s2)"
    "ta_SetValidatorByPowerIndex app v s2 = (Ok (), s3)" "ta_SetLastValidatorPower app a 0 s3 = (Ok (), s4)"
    "ta_AfterValidatorCreated app a s4 = (Ok (), t)"
    by (auto simp: add_validator_def outcome_simps)
  then show ?thesis using only_bankD(2-6) [OF assms(1)] by metis
qed

lemma init_distribution_view:
  assumes "only_bank_moves app view" "init_distribution app a s = (Ok (), t)"
  shows "view t = view s"
proof -
  from assms(2) obtain s1 s2 s3 where
    "ta_SetValidatorHistoricalRewards app a 0 ([], 1) s = (Ok (), s1)"
    "ta_SetValidatorCurrentRewards app a ([], 1) s1 = (Ok (), s2)"
    "ta_SetValidatorAccumulatedCommission app a [] s2 = (Ok (), s3)"
    "ta_SetValidatorOutstandingRewards app a [] s3 = (Ok (), t)"
    by (auto simp: init_distribution_def outcome_simps)
  then show ?thesis using only_bankD(7-10) [OF assms(1)] by metis
qed

lemma set_signing_info_view:
  "only_bank_moves app view \<Longrightarrow> set_signing_info app a s = (Ok (), t) \<Longrightarrow> view t = view s"
  by (auto simp: set_signing_info_def outcome_simps only_bankD(11))

text \<open>The steps of a successful initialisation.\<close>

lemma init_steps:
  assumes "initAppForTestnet app args s = (Ok (), t)"
  shows "\<exists>pk v s1 s2 s3 u denom c.
    ta_NewAnyWithValue app (newValPubKey args) = Ok pk \<and>
    ta_ValidatorStringToBytes app (newOperatorAddress args) = (v, None) \<and>
    remove_validators app s = (Ok (), s1) \<and>
    add_validator app (testnet_validator (newOperatorAddress args) pk) v s1 = (Ok (), s2) \<and>
    init_distribution app v s2 = (Ok (), s3) \<and> set_signing_info app (newValAddr args) s3 = (Ok (), u) \<and>
    ta_BondDenom app u = Ok denom \<and> ta_NewCoins app denom fund_amount = Ok c \<and>
    fund_accounts app c (accountsToFund args) u = (Ok (), t)"
proof -
  let ?v = "testnet_validator (newOperatorAddress args)"
  have op: "v_OperatorAddress (?v pk) = newOperatorAddress args" for pk by (simp add: testnet_validator_def)
  from assms obtain pk where pk: "ta_NewAnyWithValue app (newValPubKey args) = Ok pk"
    and x: "(case ta_ValidatorStringToBytes app (newOperatorAddress args) of
      (validator, Some e) \<Rightarrow> (Err (Exit 1 (error_text e)), s)
    | (validator, None) \<Rightarrow>
        chain_st (remove_validators app s) (\<lambda>_ s.
        chain_st (add_validator app (?v pk) validator s) (\<lambda>_ s.
        chain_st (init_distribution app validator s) (\<lambda>_ s.
        chain_st (set_signing_info app (newValAddr args) s) (\<lambda>_ s.
        chain_st (handleErr (ta_BondDenom app s, s)) (\<lambda>bondDenom s.
        chain_st (handleErr (ta_NewCoins app bondDenom fund_amount, s)) (\<lambda>defaultCoins s.
        fund_accounts app defaultCoins (accountsToFund args) s))))))) = (Ok (), t)"
    unfolding initAppForTestnet_def Let_def op by (auto simp only: chain_st_Ok_iff handleErr_Ok prod.inject)
  obtain v e where v: "ta_ValidatorStringToBytes app (newOperatorAddress args) = (v, e)" by force
  then have "e = None" using x by (cases e) simp_all
  with x v obtain s1 s2 s3 u denom c where
    "remove_validators app s = (Ok (), s1)" "add_validator app (?v pk) v s1 = (Ok (), s2)"
    "init_distribution app v s2 = (Ok (), s3)" "set_signing_info app (newValAddr args) s3 = (Ok (), u)"
    "ta_BondDenom app u = Ok denom" "ta_NewCoins app denom fund_amount = Ok c"
    "fund_accounts app c (accountsToFund args) u = (Ok (), t)"
    by (auto simp: outcome_simps)
  with pk v \<open>e = None\<close> show ?thesis by blast
qed

text \<open>The funding ran on a state with the old balances.\<close>

lemma init_funding:
  assumes "only_bank_moves app view" "initAppForTestnet app args s = (Ok (), t)"
  shows "\<exists>u denom c. ta_BondDenom app u = Ok denom \<and> ta_NewCoins app denom fund_amount = Ok c \<and>
    fund_accounts app c (accountsToFund args) u = (Ok (), t) \<and> view u = view s"
proof -
  from init_steps [OF assms(2)] obtain pk v s1 s2 s3 u denom c where
    r: "remove_validators app s = (Ok (), s1)"
    and a: "add_validator app (testnet_validator (newOperatorAddress args) pk) v s1 = (Ok (), s2)"
    and d: "init_distribution app v s2 = (Ok (), s3)"
    and i: "set_signing_info app (newValAddr args) s3 = (Ok (), u)"
    and f: "ta_BondDenom app u = Ok denom" "ta_NewCoins app denom fund_amount = Ok c"
      "fund_accounts app c (accountsToFund args) u = (Ok (), t)"
    by blast
  have "view u = view s"
    using remove_validators_view [OF assms(1) r] add_validator_view [OF assms(1) a]
      init_distribution_view [OF assms(1) d] set_signing_info_view [OF assms(1) i] by simp
  with f show ?thesis by blast
qed

text \<open>The calls succeed, and the command does.\<close>

definition all_succeed :: "'s testnet_app \<Rightarrow> bool" where
  "all_succeed app \<longleftrightarrow>
     (\<forall>b. is_ok (ta_NewAnyWithValue app b)) \<and>
     (\<forall>s. is_ok (ta_ValidatorsPowerStoreIterator app s) \<and> is_ok (ta_LastValidatorsIterator app s) \<and>
          is_ok (ta_BondDenom app s)) \<and>
     (\<forall>d n. is_ok (ta_NewCoins app d n)) \<and>
     (\<forall>v. succeeds (ta_SetValidator app v) \<and> succeeds (ta_SetValidatorByConsAddr app v) \<and>
          succeeds (ta_SetValidatorByPowerIndex app v)) \<and>
     (\<forall>a. succeeds (ta_SetLastValidatorPower app a 0) \<and> succeeds (ta_AfterValidatorCreated app a) \<and>
          (\<forall>r. succeeds (ta_SetValidatorHistoricalRewards app a 0 r)) \<and>
          (\<forall>r. succeeds (ta_SetValidatorCurrentRewards app a r)) \<and>
          (\<forall>c. succeeds (ta_SetValidatorAccumulatedCommission app a c)) \<and>
          (\<forall>r. succeeds (ta_SetValidatorOutstandingRewards app a r)) \<and>
          (\<forall>i s. \<not> is_panic (fst (ta_SetValidatorSigningInfo app a i s)))) \<and>
     (\<forall>m c. succeeds (ta_MintCoins app m c)) \<and>
     (\<forall>m a c. succeeds (ta_SendCoinsFromModuleToAccount app m a c))"

lemma fund_accounts_returns:
  assumes "\<And>c. succeeds (ta_MintCoins app mint_module c)"
    and "\<And>a c. succeeds (ta_SendCoinsFromModuleToAccount app mint_module a c)"
    and "list_all (\<lambda>a. snd (ta_AccountStringToBytes app a) = None) accs"
  shows "\<exists>t. fund_accounts app c accs s = (Ok (), t)"
  using assms(3)
proof (induction accs arbitrary: s)
  case (Cons x accs)
  obtain a where x: "ta_AccountStringToBytes app x = (a, None)" using Cons.prems by (auto simp: prod_eq_iff)
  obtain s1 where m: "ta_MintCoins app mint_module c s = (Ok (), s1)" using succeeds_unitD [OF assms(1)] by blast
  obtain s2 where "ta_SendCoinsFromModuleToAccount app mint_module a c s1 = (Ok (), s2)"
    using succeeds_unitD [OF assms(2)] by blast
  then show ?case using Cons x m by simp
qed simp

lemma all_succeedD:
  assumes "all_succeed app"
  shows "\<exists>pk. ta_NewAnyWithValue app b = Ok pk"
    and "\<exists>ks. ta_ValidatorsPowerStoreIterator app s = Ok ks"
    and "\<exists>ks. ta_LastValidatorsIterator app s = Ok ks"
    and "\<exists>d. ta_BondDenom app s = Ok d" and "\<exists>c. ta_NewCoins app d n = Ok c"
    and "\<exists>t. ta_SetValidator app v s = (Ok (), t)"
    and "\<exists>t. ta_SetValidatorByConsAddr app v s = (Ok (), t)"
    and "\<exists>t. ta_SetValidatorByPowerIndex app v s = (Ok (), t)"
    and "\<exists>t. ta_SetLastValidatorPower app a 0 s = (Ok (), t)"
    and "\<exists>t. ta_AfterValidatorCreated app a s = (Ok (), t)"
    and "\<exists>t. ta_SetValidatorHistoricalRewards app a 0 h s = (Ok (), t)"
    and "\<exists>t. ta_SetValidatorCurrentRewards app a h s = (Ok (), t)"
    and "\<exists>t. ta_SetValidatorAccumulatedCommission app a cs s = (Ok (), t)"
    and "\<exists>t. ta_SetValidatorOutstandingRewards app a cs s = (Ok (), t)"
    and "succeeds (ta_MintCoins app m cs)" and "succeeds (ta_SendCoinsFromModuleToAccount app m a cs)"
  using assms unfolding all_succeed_def is_ok_iff by (simp_all add: succeeds_unitD del: split_paired_All)

lemma set_signing_info_returns: "all_succeed app \<Longrightarrow> \<exists>t. set_signing_info app a s = (Ok (), t)"
  by (simp add: set_signing_info_def outcome_simps all_succeed_def)

lemma remove_validators_returns:
  assumes "all_succeed app"
  shows "\<exists>t. remove_validators app s = (Ok (), t)"
proof -
  obtain ks where k: "ta_ValidatorsPowerStoreIterator app s = Ok ks" using all_succeedD(2) [OF assms] by blast
  obtain ls where "ta_LastValidatorsIterator app (delete_keys app ks s) = Ok ls"
    using all_succeedD(3) [OF assms] by blast
  then show ?thesis using k by (simp add: remove_validators_def Let_def)
qed

lemma add_validator_returns:
  assumes "all_succeed app"
  shows "\<exists>t. add_validator app v a s = (Ok (), t)"
  using all_succeedD(6-10) [OF assms] by (simp add: add_validator_def outcome_simps) meson

lemma init_distribution_returns:
  assumes "all_succeed app"
  shows "\<exists>t. init_distribution app a s = (Ok (), t)"
  using all_succeedD(11-14) [OF assms] by (simp add: init_distribution_def outcome_simps) meson

lemma init_returns:
  assumes ok: "all_succeed app"
    and v: "snd (ta_ValidatorStringToBytes app (newOperatorAddress args)) = None"
    and a: "list_all (\<lambda>a. snd (ta_AccountStringToBytes app a) = None) (accountsToFund args)"
  shows "\<exists>t. initAppForTestnet app args s = (Ok (), t)"
proof -
  note okD = all_succeedD [OF ok]
  obtain pk where pk: "ta_NewAnyWithValue app (newValPubKey args) = Ok pk" using okD(1) by blast
  let ?v = "testnet_validator (newOperatorAddress args) pk"
  obtain b where b: "ta_ValidatorStringToBytes app (v_OperatorAddress ?v) = (b, None)"
    using v by (auto simp: prod_eq_iff testnet_validator_def)
  obtain s1 where r: "remove_validators app s = (Ok (), s1)" using remove_validators_returns [OF ok] by blast
  obtain s2 where d: "add_validator app ?v b s1 = (Ok (), s2)" using add_validator_returns [OF ok] by blast
  obtain s3 where i: "init_distribution app b s2 = (Ok (), s3)" using init_distribution_returns [OF ok] by blast
  obtain s4 where g: "set_signing_info app (newValAddr args) s3 = (Ok (), s4)" using set_signing_info_returns [OF ok] by blast
  obtain denom where "ta_BondDenom app s4 = Ok denom" using okD(4) by blast
  moreover obtain c where "ta_NewCoins app denom fund_amount = Ok c" using okD(5) by blast
  moreover obtain t where "fund_accounts app c (accountsToFund args) s4 = (Ok (), t)"
    using fund_accounts_returns [OF okD(15,16) a] by blast
  ultimately show ?thesis
    using pk b r d i g by (simp add: initAppForTestnet_def Let_def)
qed

lemma newTestnetApp_returns:
  assumes "Get (KeyNewValAddr ks) = OptHexBytes a" "Get (KeyUserPubKey ks) = OptPubKey p"
    and "Get (KeyNewOpAddr ks) = OptString op" "Get (KeyTriggerTestnetUpgrade ks) = OptString up"
    and "ToString (Get (FlagHome ks)) \<noteq> []" "all_succeed app"
    and "snd (ta_ValidatorStringToBytes app op) = None"
    and "list_all (\<lambda>x. snd (ta_AccountStringToBytes app x) = None)
      (split_on (CHR '','') (ToString (Get KeyAccountsToFund)))"
  shows "\<exists>t. newTestnetApp (Some app) (getCommandArgs ks ToString Get) s = (Ok (), t)"
proof -
  obtain args where p: "getCommandArgs ks ToString Get = (args, None)"
    using getCommandArgs_returns [where Get = Get and ks = ks and ToString = ToString, OF assms(1-5)]
    by (auto simp: prod_eq_iff)
  have "newOperatorAddress args = op"
    "accountsToFund args = split_on (CHR '','') (ToString (Get KeyAccountsToFund))"
    using getCommandArgs_accounts [OF p] assms(3) by simp_all
  then show ?thesis
    using init_returns [OF assms(6), of args s] assms(7,8) p by (simp add: newTestnetApp_def)
qed

end
