(* ===== verification/Commands.thy ===== *)
theory Commands
  imports App_Core App_Export Testnet_InPlace
begin

text \<open>
  cmd/pulsard: the command tree (commands.go), the root command with its client context and
  configuration (root.go, config.go), the creators of the application that the server commands use
  (\<open>newApp\<close>, \<open>appExport\<close>) and the exit status of \<open>main\<close>.

  Commands of the SDK are constructors of \<open>sdk_command\<close>; their own behaviour is not part of the
  repository. The client context is an argument type \<open>'ctx\<close> with the SDK's functions on it.
\<close>

section \<open>The command tree\<close>

datatype sdk_command =
    InitCmd | InPlaceTestnetCmd | MultiNodeCmd | DebugCmd | ConfigCommand | PruningCmd | SnapshotCmd
  | StatusCommand | GenesisCommands | KeysCommands
  | WaitTxCmd | ValidatorCommand | QueryBlockCmd | QueryTxsByEventsCmd | QueryBlocksCmd | QueryTxCmd
  | QueryBlockResultsCmd
  | SignCommand | SignBatchCommand | MultiSignCommand | MultiSignBatchCmd | ValidateSignaturesCommand
  | LineBreak | BroadcastCommand | EncodeCommand | DecodeCommand | SimulateCmd
  | ServerCommand string

datatype command =
    External sdk_command
  | Command (cmd_Use: string) (cmd_Aliases: "string list") (cmd_Short: string) (cmd_sub: "command list")

fun AddCommand :: "command \<Rightarrow> command list \<Rightarrow> command" where
  "AddCommand (Command use aliases short sub) cs = Command use aliases short (sub @ cs)"
| "AddCommand (External c) cs = External c"

definition queryCommand :: command where
  "queryCommand = AddCommand (Command ''query'' [''q''] ''Querying subcommands'' [])
     (map External [WaitTxCmd, ValidatorCommand, QueryBlockCmd, QueryTxsByEventsCmd, QueryBlocksCmd,
       QueryTxCmd, QueryBlockResultsCmd])"

definition txCommand :: command where
  "txCommand = AddCommand (Command ''tx'' [] ''Transactions subcommands'' [])
     (map External [SignCommand, SignBatchCommand, MultiSignCommand, MultiSignBatchCmd,
       ValidateSignaturesCommand, LineBreak, BroadcastCommand, EncodeCommand, DecodeCommand,
       SimulateCmd])"

text \<open>
  \<open>server.AddCommandsWithStartCmdOptions\<close> adds the commands of its own (\<open>server_commands\<close>) between
  the two calls.
\<close>

definition initRootCmd :: "string list \<Rightarrow> command \<Rightarrow> command" where
  "initRootCmd server_commands rootCmd =
     (let rootCmd = AddCommand rootCmd
            (map External [InitCmd, InPlaceTestnetCmd, MultiNodeCmd, DebugCmd, ConfigCommand, PruningCmd,
              SnapshotCmd]);
          rootCmd = AddCommand rootCmd (map (External \<circ> ServerCommand) server_commands)
      in AddCommand rootCmd
           [External StatusCommand, External GenesisCommands, queryCommand, txCommand,
            External KeysCommands])"

section \<open>Configuration\<close>

text \<open>The two configurations are the libraries' defaults, the application's wrapped in a structure.\<close>

datatype 'c CustomAppConfig = CustomAppConfig 'c

definition initCometBFTConfig :: "'c \<Rightarrow> 'c" where
  "initCometBFTConfig DefaultConfig = (let cfg = DefaultConfig in cfg)"

definition initAppConfig :: "string \<Rightarrow> 'c \<Rightarrow> string \<times> 'c CustomAppConfig" where
  "initAppConfig DefaultConfigTemplate DefaultConfig =
     (let srvCfg = DefaultConfig;
          customAppConfig = CustomAppConfig srvCfg;
          customAppTemplate = DefaultConfigTemplate
      in (customAppTemplate, customAppConfig))"

section \<open>The root command\<close>

text \<open>The SDK's functions on the client context; 'ctx is the context and 'cmd the cobra command.\<close>

record ('ctx, 'cmd, 'cfg, 'cmt) client_env =
  ce_WithViper :: "string \<Rightarrow> 'ctx \<Rightarrow> 'ctx"
  ce_WithCmdContext :: "'cmd \<Rightarrow> 'ctx \<Rightarrow> 'ctx"
  ce_ReadPersistentCommandFlags :: "'ctx \<Rightarrow> 'cmd \<Rightarrow> (go_error, 'ctx) outcome"
  ce_ReadFromClientConfig :: "'ctx \<Rightarrow> 'ctx \<times> go_error option"
  ce_SetCmdClientContextHandler :: "'ctx \<Rightarrow> 'cmd \<Rightarrow> (go_error, unit) outcome \<times> 'cmd"
  ce_InterceptConfigs ::
    "string \<Rightarrow> 'cfg CustomAppConfig \<Rightarrow> 'cmt \<Rightarrow> 'cmd \<Rightarrow> (go_error, unit) outcome \<times> 'cmd"
  ce_SetOutputs :: "'cmd \<Rightarrow> 'cmd"
  ce_DefaultConfigTemplate :: string
  ce_DefaultAppConfig :: 'cfg
  ce_DefaultCMTConfig :: 'cmt

definition PersistentPreRunE ::
  "('ctx, 'cmd, 'cfg, 'cmt) client_env \<Rightarrow> 'ctx \<Rightarrow> 'cmd \<Rightarrow> (go_error, unit) outcome \<times> 'cmd" where
  "PersistentPreRunE env clientCtx cmd =
     (let cmd = ce_SetOutputs env cmd;
          clientCtx = ce_WithViper env app_Name (ce_WithCmdContext env cmd clientCtx)
      in chain_st (ce_ReadPersistentCommandFlags env clientCtx cmd, cmd) (\<lambda>clientCtx cmd.
         case ce_ReadFromClientConfig env clientCtx of
           (_, Some err) \<Rightarrow> (Err err, cmd)
         | (clientCtx, None) \<Rightarrow>
             chain_st (ce_SetCmdClientContextHandler env clientCtx cmd) (\<lambda>_ cmd.
               let (customAppTemplate, customAppConfig) =
                     initAppConfig (ce_DefaultConfigTemplate env) (ce_DefaultAppConfig env);
                   customCMTConfig = initCometBFTConfig (ce_DefaultCMTConfig env)
               in ce_InterceptConfigs env customAppTemplate customAppConfig customCMTConfig cmd)))"

text \<open>
  The loop that adds the IBC modules to the two maps; the keys of \<open>ibcModules\<close> are visited in any
  order, and each entry is written once.
\<close>

definition add_ibc_modules ::
  "(ibc_name \<Rightarrow> ibc_module \<Rightarrow> 'basic) \<Rightarrow> (ibc_name \<rightharpoonup> ibc_module) \<Rightarrow>
   (ibc_name \<rightharpoonup> 'basic) \<Rightarrow> (ibc_name \<rightharpoonup> ibc_module) \<Rightarrow>
   (ibc_name \<rightharpoonup> 'basic) \<times> (ibc_name \<rightharpoonup> ibc_module)" where
  "add_ibc_modules adaptor ibcModules basic opts =
     (basic ++ (\<lambda>name. map_option (adaptor name) (ibcModules name)), opts ++ ibcModules)"

text \<open>
  \<open>NewRootCmd\<close>: what the injection gives (the modules of the CLI options, the basic manager, the
  context), then the IBC modules, the commands, and the commands that autocli adds. Failures panic.
\<close>

definition NewRootCmd ::
  "(go_error, (ibc_name \<rightharpoonup> ibc_module) \<times> (ibc_name \<rightharpoonup> 'basic)) outcome \<Rightarrow>
   (ibc_name \<Rightarrow> ibc_module \<Rightarrow> 'basic) \<Rightarrow> (ibc_module \<Rightarrow> bool) \<Rightarrow> string list \<Rightarrow>
   ((ibc_name \<rightharpoonup> ibc_module) \<Rightarrow> command \<Rightarrow> (go_error, command) outcome) \<Rightarrow>
   (go_error, command \<times> (ibc_name \<rightharpoonup> 'basic)) outcome" where
  "NewRootCmd injected adaptor isBasic server_commands Enhance =
     (case injected of
        Err err \<Rightarrow> Panic (error_text err)
      | Panic p \<Rightarrow> Panic p
      | Ok (autoCliModules, moduleBasicManager) \<Rightarrow>
          (let rootCmd = Command (app_Name @ ''d'') [] ''pulsar node'' [];
               (ibcModules, _) = RegisterIBC isBasic {};
               (moduleBasicManager, autoCliModules) =
                 add_ibc_modules adaptor ibcModules moduleBasicManager autoCliModules;
               rootCmd = initRootCmd server_commands rootCmd
           in case Enhance autoCliModules rootCmd of
                Err err \<Rightarrow> Panic (error_text err)
              | Panic p \<Rightarrow> Panic p
              | Ok rootCmd \<Rightarrow> Ok (rootCmd, moduleBasicManager)))"

text \<open>The context for dependency injection: an unreadable client configuration is dropped.\<close>

record ('ctx, 'tx) provide_env =
  pe_Base :: "string \<Rightarrow> 'ctx"
  pe_WithViper :: "string \<Rightarrow> 'ctx \<Rightarrow> 'ctx"
  pe_ReadFromClientConfig :: "'ctx \<Rightarrow> 'ctx \<times> go_error option"
  pe_NewTxConfig :: "'ctx \<Rightarrow> (go_error, 'tx) outcome"
  pe_WithTxConfig :: "'tx \<Rightarrow> 'ctx \<Rightarrow> 'ctx"

definition ProvideClientContext :: "('ctx, 'tx) provide_env \<Rightarrow> string \<Rightarrow> (go_error, 'ctx) outcome" where
  "ProvideClientContext env DefaultNodeHome =
     (let clientCtx = pe_WithViper env app_Name (pe_Base env DefaultNodeHome);
          clientCtx = fst (pe_ReadFromClientConfig env clientCtx)
      in case pe_NewTxConfig env clientCtx of
           Err err \<Rightarrow> Panic (error_text err)
         | Panic p \<Rightarrow> Panic p
         | Ok txConfig \<Rightarrow> Ok (pe_WithTxConfig env txConfig clientCtx))"

text \<open>\<open>main\<close>: what is printed and the exit status, given what \<open>svrcmd.Execute\<close> returns.\<close>

definition main_exit :: "(go_error, unit) outcome \<Rightarrow> (exit_status, unit) outcome" where
  "main_exit executed =
     (case executed of
        Ok _ \<Rightarrow> Ok ()
      | Err err \<Rightarrow> Err (Exit 1 (error_text err))
      | Panic p \<Rightarrow> Panic p)"

section \<open>Creating the application\<close>

text \<open>
  The application value is the state \<open>'s\<close> that the assembly works on; \<open>ex\<close> reads its keepers and its
  last height. The export command gives no options of its own to the constructor.
\<close>

definition newApp ::
  "('s, 'opt) app_steps \<Rightarrow> 'opt \<Rightarrow> 'opt list \<Rightarrow> 's \<Rightarrow> (go_error, unit) outcome \<times> 's" where
  "newApp steps optimistic baseappOptions app =
     app_New steps optimistic True baseappOptions app"

definition appExport ::
  "('s, 'opt) app_steps \<Rightarrow> 'opt \<Rightarrow> ('s \<Rightarrow> ('s, 'c, 'g) export_app) \<Rightarrow>
   (int \<Rightarrow> 's \<Rightarrow> (go_error, unit) outcome \<times> 's) \<Rightarrow> opt_value \<Rightarrow> bool \<Rightarrow>
   int \<Rightarrow> bool \<Rightarrow> string list \<Rightarrow> string list \<Rightarrow> 's \<Rightarrow>
   (go_error, ExportedApp \<times> go_error option) outcome \<times> 's" where
  "appExport steps optimistic ex LoadHeight home isViper height forZeroHeight jailAllowedAddrs
     modulesToExport app =
     (let failed = (\<lambda>e app. (Ok (zero_ExportedApp, Some e), app)) in
      if \<not> (case home of OptString homePath \<Rightarrow> homePath \<noteq> [] | _ \<Rightarrow> False)
      then failed (LibError ''application home not set'') app
      else if \<not> isViper then failed (LibError ''appOpts is not viper.Viper'') app
      else if height \<noteq> -1
      then chain_st (app_New steps optimistic False [] app) (\<lambda>_ bApp.
             case LoadHeight height bApp of
               (Panic p, bApp) \<Rightarrow> (Panic p, bApp)
             | (Err err, bApp) \<Rightarrow> failed err bApp
             | (Ok _, bApp) \<Rightarrow>
                 ExportAppStateAndValidators (ex bApp) forZeroHeight jailAllowedAddrs modulesToExport bApp)
      else chain_st (app_New steps optimistic True [] app) (\<lambda>_ bApp.
             ExportAppStateAndValidators (ex bApp) forZeroHeight jailAllowedAddrs modulesToExport bApp))"

section \<open>Facts\<close>

lemma AddCommand_sub [simp]: "AddCommand (Command u a t cs) ds = Command u a t (cs @ ds)"
  by simp

lemma appExport_without_home:
  "(\<And>h. home = OptString h \<Longrightarrow> h = []) \<Longrightarrow>
     appExport steps opt ex load home isViper height z allowed mods app =
       (Ok (zero_ExportedApp, Some (LibError ''application home not set'')), app)"
  by (cases home) (auto simp: appExport_def Let_def)

lemma appExport_without_viper:
  "h \<noteq> [] \<Longrightarrow> appExport steps opt ex load (OptString h) False height z allowed mods app =
     (Ok (zero_ExportedApp, Some (LibError ''appOpts is not viper.Viper'')), app)"
  by (simp add: appExport_def Let_def)

lemma appExport_latest:
  "h \<noteq> [] \<Longrightarrow> appExport steps opt ex load (OptString h) True (-1) z allowed mods app =
     chain_st (app_New steps opt True [] app)
       (\<lambda>_ a. ExportAppStateAndValidators (ex a) z allowed mods a)"
  by (simp add: appExport_def Let_def)

lemma appExport_at_height:
  "h \<noteq> [] \<Longrightarrow> height \<noteq> -1 \<Longrightarrow> app_New steps opt False [] app = (Ok (), a) \<Longrightarrow>
     load height a = (Ok (), b) \<Longrightarrow>
     appExport steps opt ex load (OptString h) True height z allowed mods app =
       ExportAppStateAndValidators (ex b) z allowed mods b"
  by (simp add: appExport_def Let_def)

lemma appExport_bad_height:
  "h \<noteq> [] \<Longrightarrow> height \<noteq> -1 \<Longrightarrow> app_New steps opt False [] app = (Ok (), a) \<Longrightarrow>
     load height a = (Err e, b) \<Longrightarrow>
     appExport steps opt ex load (OptString h) True height z allowed mods app =
       (Ok (zero_ExportedApp, Some e), b)"
  by (simp add: appExport_def Let_def)

text \<open>The root command's own subcommands.\<close>

lemma initRootCmd_sub:
  "cmd_sub (initRootCmd server_commands (Command u a t [])) =
     map External [InitCmd, InPlaceTestnetCmd, MultiNodeCmd, DebugCmd, ConfigCommand, PruningCmd,
       SnapshotCmd] @ map (External \<circ> ServerCommand) server_commands @
     [External StatusCommand, External GenesisCommands, queryCommand, txCommand, External KeysCommands]"
  by (simp add: initRootCmd_def Let_def)

text \<open>The client knows the IBC modules after \<open>add_ibc_modules\<close>, whatever the maps held before.\<close>

lemma add_ibc_modules_lookup:
  "add_ibc_modules adaptor ibc basic opts = (b, o') \<Longrightarrow>
     b n = (case ibc n of Some m \<Rightarrow> Some (adaptor n m) | None \<Rightarrow> basic n) \<and>
     o' n = (case ibc n of Some m \<Rightarrow> Some m | None \<Rightarrow> opts n)"
  by (auto simp: add_ibc_modules_def map_add_def split: option.split)

end
