(* ===== verification/App_Assembly.thy ===== *)
theory App_Assembly
  imports App_Core
begin

text \<open>
  app/app.go: the application object and what \<open>New\<close> puts into it. \<open>pulsar_steps\<close> are the steps of
  \<open>New\<close> (\<open>app_New\<close> of App_Core) on the record \<open>App\<close>, whose IBC part is the state that
  \<open>registerIBCModules\<close> works on.

  The libraries are the fields of \<open>app_env\<close>: the container's injection, the builder, the loading of
  a base application \<open>'b\<close>, the simulation manager and the upgrade module. An injected value is a
  \<open>'v\<close>; a field that was never set is \<open>None\<close>, Go's nil.
\<close>

section \<open>The application object\<close>

text \<open>The targets of the injection: two variables of \<open>New\<close>, then the fields of the struct.\<close>

datatype target =
    appBuilder | appModules
  | appCodec | legacyAmino | txConfig | interfaceRegistry
  | AuthKeeper | BankKeeper | StakingKeeper | SlashingKeeper | MintKeeper | DistrKeeper | GovKeeper
  | UpgradeKeeper | AuthzKeeper | ConsensusParamsKeeper | CircuitBreakerKeeper | ParamsKeeper
  | PulsarKeeper

definition inject_targets :: "target list" where
  "inject_targets =
     [appBuilder, appModules, appCodec, legacyAmino, txConfig, interfaceRegistry, AuthKeeper,
      BankKeeper, StakingKeeper, SlashingKeeper, MintKeeper, DistrKeeper, GovKeeper, UpgradeKeeper,
      AuthzKeeper, ConsensusParamsKeeper, CircuitBreakerKeeper, ParamsKeeper, PulsarKeeper]"

record ('v, 'b, 'sm) App =
  app_App :: "'b option"
  app_fields :: "target \<rightharpoonup> 'v"
  app_ibc :: app_state
  app_sm :: "'sm option"
  app_setInitChainer :: bool

definition new_App :: "('v, 'b, 'sm) App" where
  "new_App = \<lparr>app_App = None, app_fields = Map.empty, app_ibc = empty_app, app_sm = None,
     app_setInitChainer = False\<rparr>"

definition LegacyAmino :: "('v, 'b, 'sm) App \<Rightarrow> 'v option" where
  "LegacyAmino app = app_fields app legacyAmino"

definition AppCodec :: "('v, 'b, 'sm) App \<Rightarrow> 'v option" where
  "AppCodec app = app_fields app appCodec"

definition InterfaceRegistry :: "('v, 'b, 'sm) App \<Rightarrow> 'v option" where
  "InterfaceRegistry app = app_fields app interfaceRegistry"

definition TxConfig :: "('v, 'b, 'sm) App \<Rightarrow> 'v option" where
  "TxConfig app = app_fields app txConfig"

definition SimulationManager :: "('v, 'b, 'sm) App \<Rightarrow> 'sm option" where
  "SimulationManager app = app_sm app"

text \<open>The field \<open>IBCKeeper\<close> is the keeper of that kind, nil before it is created.\<close>

definition GetIBCKeeper :: "('v, 'b, 'sm) App \<Rightarrow> ibc_keeper option" where
  "GetIBCKeeper app = find (\<lambda>k. ik_kind k = IBCKeeper) (as_keepers (app_ibc app))"

section \<open>The configuration of the container\<close>

text \<open>
  \<open>depinject.Configs\<close> and \<open>depinject.Supply\<close>. The getter of the IBC keeper is supplied as a function
  of the application, because the keeper does not exist yet.
\<close>

datatype ('v, 'b, 'sm) supplied =
    CustomModuleBasics "sdk_name list"
  | AppOptions 'v
  | Logger 'v
  | IBCKeeperGetter "('v, 'b, 'sm) App \<Rightarrow> ibc_keeper option"

datatype ('v, 'b, 'sm) di_config =
    Configs "('v, 'b, 'sm) di_config list"
  | Compose "(sdk_name \<times> module_config) list"
  | Supply "('v, 'b, 'sm) supplied list"

definition AppConfig :: "('v, 'b, 'sm) di_config" where
  "AppConfig = Configs [Compose appConfig, Supply [CustomModuleBasics [GenutilName]]]"

definition new_config :: "'v \<Rightarrow> 'v \<Rightarrow> ('v, 'b, 'sm) di_config" where
  "new_config appOpts logger =
     Configs [AppConfig, Supply [AppOptions appOpts, Logger logger, IBCKeeperGetter GetIBCKeeper]]"

fun supplied_to :: "('v, 'b, 'sm) di_config \<Rightarrow> ('v, 'b, 'sm) supplied set" where
  "supplied_to (Configs cs) = (\<Union>c \<in> set cs. supplied_to c)"
| "supplied_to (Compose ms) = {}"
| "supplied_to (Supply vs) = set vs"

section \<open>The steps of New\<close>

text \<open>
  \<open>MkAuthModule\<close> is the module that overrides the auth module of the simulation, made from the codec
  and the account keeper; its random accounts are a function of the SDK.
\<close>

datatype 'v override = MkAuthModule "'v option" "'v option"

record ('v, 'b, 'sm, 'opt) app_env =
  ae_Inject :: "('v, 'b, 'sm) di_config \<Rightarrow> target list \<Rightarrow> (go_error, target \<Rightarrow> 'v) outcome"
  ae_Build :: "'v option \<Rightarrow> 'opt list \<Rightarrow> 'b"
  ae_RegisterStores :: "ibc_name list \<Rightarrow> go_error option"
  ae_RegisterModules :: "ibc_module list \<Rightarrow> go_error option"
  ae_BytesToString :: "'v option \<Rightarrow> bytes \<Rightarrow> string \<times> go_error option"
  ae_NewModuleAddress :: "string \<Rightarrow> bytes"
  ae_NewSimulationManager :: "'b option \<Rightarrow> ibc_module list \<Rightarrow> (sdk_name \<times> 'v override) list \<Rightarrow> 'sm"
  ae_RegisterStoreDecoders :: "'sm \<Rightarrow> 'sm"
  ae_Load :: "bool \<Rightarrow> 'b option \<Rightarrow> (go_error, unit) outcome \<times> 'b option"

definition pulsar_steps ::
  "('v, 'b, 'sm, 'opt) app_env \<Rightarrow> 'v \<Rightarrow> 'v \<Rightarrow> (('v, 'b, 'sm) App, 'opt) app_steps" where
  "pulsar_steps env appOpts logger =
     \<lparr>do_Inject = \<lambda>app.
        (case ae_Inject env (new_config appOpts logger) inject_targets of
           Ok vals \<Rightarrow> (Ok (), app\<lparr>app_fields := (\<lambda>t. if t \<in> set inject_targets then Some (vals t) else None)\<rparr>)
         | Err err \<Rightarrow> (Err err, app)
         | Panic p \<Rightarrow> (Panic p, app)),
      do_Build = \<lambda>baseAppOptions app.
        app\<lparr>app_App := Some (ae_Build env (app_fields app appBuilder) baseAppOptions)\<rparr>,
      do_registerIBCModules = \<lambda>app.
        (case registerIBCModules (ae_RegisterStores env) (ae_RegisterModules env)
                (ae_BytesToString env (app_fields app AuthKeeper)) (ae_NewModuleAddress env) (app_ibc app) of
           (r, ibc) \<Rightarrow> (r, app\<lparr>app_ibc := ibc\<rparr>)),
      do_SimulationManager = \<lambda>app.
        (let overrideModules = [(AuthName, MkAuthModule (app_fields app appCodec) (app_fields app AuthKeeper))];
             sm = ae_NewSimulationManager env (app_App app) (as_modules (app_ibc app)) overrideModules
         in app\<lparr>app_sm := Some (ae_RegisterStoreDecoders env sm)\<rparr>),
      do_SetInitChainer = \<lambda>app. app\<lparr>app_setInitChainer := True\<rparr>,
      do_Load = \<lambda>loadLatest app.
        (case ae_Load env loadLatest (app_App app) of (r, b) \<Rightarrow> (r, app\<lparr>app_App := b\<rparr>))\<rparr>"

text \<open>
  \<open>New\<close> itself, and the initialisation of a chain: the runtime runs the function that was set, or
  its own. The module versions are read when the function runs.
\<close>

definition New ::
  "('v, 'b, 'sm, 'opt) app_env \<Rightarrow> 'opt \<Rightarrow> 'v \<Rightarrow> 'v \<Rightarrow> bool \<Rightarrow> 'opt list \<Rightarrow>
   (go_error, unit) outcome \<times> ('v, 'b, 'sm) App" where
  "New env optimistic logger appOpts loadLatest baseAppOptions =
     app_New (pulsar_steps env appOpts logger) optimistic loadLatest baseAppOptions new_App"

definition init_chain ::
  "('v option \<Rightarrow> 'ver \<Rightarrow> 's \<Rightarrow> (go_error, unit) outcome \<times> 's) \<Rightarrow> (('v, 'b, 'sm) App \<Rightarrow> 'ver) \<Rightarrow>
   ('s \<Rightarrow> (go_error, 'r) outcome \<times> 's) \<Rightarrow> ('v, 'b, 'sm) App \<Rightarrow> 's \<Rightarrow> (go_error, 'r) outcome \<times> 's" where
  "init_chain SetModuleVersionMap GetVersionMap runtime_InitChainer app ctx =
     (if app_setInitChainer app
      then InitChainer (SetModuleVersionMap (app_fields app UpgradeKeeper)) (GetVersionMap app)
             runtime_InitChainer ctx
      else runtime_InitChainer ctx)"

section \<open>Facts\<close>

text \<open>Every target is one that \<open>New\<close> asks for.\<close>

lemma inject_targets_all: "set inject_targets = UNIV"
proof (intro equalityI subsetI UNIV_I)
  fix t
  show "t \<in> set inject_targets" by (cases t) (simp_all add: inject_targets_def)
qed

lemma GetIBCKeeper_new: "GetIBCKeeper new_App = None"
  by (simp add: GetIBCKeeper_def new_App_def empty_app_def)

lemma New_no_error: "fst (New env opt logger opts ll bopts) \<noteq> Err e"
  unfolding New_def by (rule app_New_no_error)

text \<open>The object that a successful \<open>New\<close> returns, up to what the loading does to the base application.\<close>

definition made_App ::
  "('v, 'b, 'sm, 'opt) app_env \<Rightarrow> (target \<Rightarrow> 'v) \<Rightarrow> 'opt list \<Rightarrow> 'b option \<Rightarrow> ('v, 'b, 'sm) App" where
  "made_App env vals bopts b =
     \<lparr>app_App = b,
      app_fields = (\<lambda>t. Some (vals t)),
      app_ibc = ibc_registered (fst (ae_BytesToString env (Some (vals AuthKeeper))
        (ae_NewModuleAddress env GovModuleName))),
      app_sm = Some (ae_RegisterStoreDecoders env (ae_NewSimulationManager env
        (Some (ae_Build env (Some (vals appBuilder)) bopts))
        [MkIBCModule, MkTransferModule, MkICAModule, MkTmModule, MkSoloModule]
        [(AuthName, MkAuthModule (Some (vals appCodec)) (Some (vals AuthKeeper)))])),
      app_setInitChainer = True\<rparr>"

lemma on_part_Ok: "(case r of (x, b) \<Rightarrow> (x, g b)) = (Ok u, y) \<longleftrightarrow> (\<exists>b. r = (Ok u, b) \<and> y = g b)"
  by (cases r) auto

lemma inject_Ok:
  "(case r of Ok a \<Rightarrow> (Ok (), g a) | Err e \<Rightarrow> (Err e, s) | Panic p \<Rightarrow> (Panic p, s)) = (Ok u, t) \<longleftrightarrow>
     (\<exists>a. r = Ok a \<and> t = g a)"
  by (cases r) auto

lemma New_Ok_iff:
  "New env opt logger opts ll bopts = (Ok (), app) \<longleftrightarrow>
     (\<exists>vals b. ae_Inject env (new_config opts logger) inject_targets = Ok vals \<and>
        ae_RegisterStores env ibc_store_keys = None \<and>
        ae_RegisterModules env [MkIBCModule, MkTransferModule, MkICAModule, MkTmModule, MkSoloModule] = None \<and>
        ae_Load env ll (Some (ae_Build env (Some (vals appBuilder)) (bopts @ [opt]))) = (Ok (), b) \<and>
        app = made_App env vals (bopts @ [opt]) b)" (is "_ \<longleftrightarrow> ?made")
proof -
  have mods: "as_modules (ibc_registered g) = [MkIBCModule, MkTransferModule, MkICAModule, MkTmModule, MkSoloModule]" for g
    by (simp add: ibc_registered_def)
  note steps = New_def app_New_Ok_iff pulsar_steps_def inject_targets_all
  note facts = on_part_Ok register_Ok_iff mods made_App_def new_App_def inject_Ok Let_def
  show ?thesis
  proof
    assume "New env opt logger opts ll bopts = (Ok (), app)"
    then show "?made" unfolding steps by (auto simp: facts)
  next
    assume "?made"
    then show "New env opt logger opts ll bopts = (Ok (), app)"
      unfolding steps by (elim exE conjE) (simp add: facts)
  qed
qed

end
