(* ===== verification/App_Properties.thy ===== *)
theory App_Properties
  imports App_Export_Facts Commands App_Assembly Pulsar_Module
begin

text \<open>
  The properties of the application's configuration and assembly (app/app_config.go, app/app.go,
  app/ibc.go), of the object that \<open>New\<close> returns, of the root command's modules and of the export
  command (cmd/pulsard/cmd/commands.go). The witnesses of \<open>New\<close> run on \<open>toy_env\<close>, whose container
  numbers the targets.
\<close>

section \<open>Configuration\<close>


text \<open>The names of the module accounts in the SDK and ibc-go.\<close>

fun sdk_string :: "sdk_name \<Rightarrow> string" where
  "sdk_string AuthName = ''auth''" | "sdk_string AuthzName = ''authz''"
| "sdk_string BankName = ''bank''" | "sdk_string CircuitName = ''circuit''"
| "sdk_string ConsensusName = ''consensus''" | "sdk_string DistrName = ''distribution''"
| "sdk_string EpochsName = ''epochs''" | "sdk_string EvidenceName = ''evidence''"
| "sdk_string FeegrantName = ''feegrant''" | "sdk_string GenutilName = ''genutil''"
| "sdk_string GovName = ''gov''" | "sdk_string GroupName = ''group''"
| "sdk_string MintName = ''mint''" | "sdk_string NftName = ''nft''"
| "sdk_string ParamsName = ''params''" | "sdk_string SlashingName = ''slashing''"
| "sdk_string StakingName = ''staking''" | "sdk_string TxName = ''tx''"
| "sdk_string UpgradeName = ''upgrade''" | "sdk_string VestingName = ''vesting''"
| "sdk_string RuntimeName = ''runtime''" | "sdk_string IBCName = ''ibc''"
| "sdk_string TransferName = ''transfer''" | "sdk_string ICAName = ''interchainaccounts''"
| "sdk_string PulsarName = ''pulsar''" | "sdk_string FeeCollectorName = ''fee_collector''"
| "sdk_string BondedPoolName = ''bonded_tokens_pool''"
| "sdk_string NotBondedPoolName = ''not_bonded_tokens_pool''"

lemma sdk_string_inj: "inj sdk_string"
proof (rule injI)
  fix x y
  assume "sdk_string x = sdk_string y"
  then show "x = y" by (cases x; cases y; simp)
qed

text \<open>
  C32: the module accounts. Only the mint and transfer accounts may mint. A module account is blocked
  from receiving funds unless it is the governance, the transfer or the interchain account, and
  nothing but a module account is blocked. The maps are read by the names of the SDK's constants,
  which are distinct.
\<close>

theorem module_accounts:
  assumes "inj nm"
  shows "((\<exists>ps. GetMaccPerms nm moduleAccPerms (nm a) = Some ps \<and> Minter \<in> set ps) \<longleftrightarrow>
      a \<in> {MintName, TransferName}) \<and>
    (BlockedAddresses nm blockAccAddrs moduleAccPerms (nm a) = Some True \<longleftrightarrow>
      GetMaccPerms nm moduleAccPerms (nm a) \<noteq> None \<and> a \<notin> {GovName, TransferName, ICAName}) \<and>
    (k \<notin> nm ` UNIV \<longrightarrow> BlockedAddresses nm blockAccAddrs moduleAccPerms k = None)"
proof (intro conjI)
  have l: "GetMaccPerms nm moduleAccPerms (nm a) = map_of moduleAccPerms a"
    by (rule GetMaccPerms_lookup [OF assms moduleAccPerms_distinct])
  show "(\<exists>ps. GetMaccPerms nm moduleAccPerms (nm a) = Some ps \<and> Minter \<in> set ps) \<longleftrightarrow>
      a \<in> {MintName, TransferName}"
    unfolding l by (cases a) (simp_all add: moduleAccPerms_def)
  show "BlockedAddresses nm blockAccAddrs moduleAccPerms (nm a) = Some True \<longleftrightarrow>
      GetMaccPerms nm moduleAccPerms (nm a) \<noteq> None \<and> a \<notin> {GovName, TransferName, ICAName}"
    unfolding l BlockedAddresses_iff
    by (cases a) (simp_all add: moduleAccPerms_def blockAccAddrs_def inj_eq [OF assms])
  show "k \<notin> nm ` UNIV \<longrightarrow> BlockedAddresses nm blockAccAddrs moduleAccPerms k = None"
    by (auto simp: BlockedAddresses_iff)
qed

theorem module_accounts_witness:
  "BlockedAddresses sdk_string blockAccAddrs moduleAccPerms ''fee_collector'' = Some True \<and>
   BlockedAddresses sdk_string blockAccAddrs moduleAccPerms ''transfer'' \<noteq> Some True"
  using module_accounts [OF sdk_string_inj, of FeeCollectorName]
    module_accounts [OF sdk_string_inj, of TransferName]
    GetMaccPerms_lookup [OF sdk_string_inj moduleAccPerms_distinct, of FeeCollectorName]
  by (simp add: moduleAccPerms_def)

section \<open>Assembly\<close>





text \<open>
  C21: what \<open>New\<close> returns when it does not panic (it returns no error). Every field that the
  container injects is set, so no getter returns nil; the base application was built with the
  caller's options followed by optimistic execution and then loaded as asked; the simulation
  manager was made after the registration of the IBC modules and knows them all; the getter of the
  IBC keeper, which gives nil while the container runs, gives the core keeper; and a chain is
  initialised by storing the module versions first, whose failure ends the initialisation.
\<close>

theorem new_application:
  assumes "New env opt logger opts ll bopts = (Ok (), app)"
  shows "(\<forall>t. app_fields app t \<noteq> None) \<and>
    None \<notin> {AppCodec app, LegacyAmino app, TxConfig app, InterfaceRegistry app} \<and>
    ae_Load env ll (Some (ae_Build env (app_fields app appBuilder) (bopts @ [opt]))) = (Ok (), app_App app) \<and>
    (\<exists>mods. set mods = ran (fst (RegisterIBC isBasic registered)) \<and>
      SimulationManager app = Some (ae_RegisterStoreDecoders env (ae_NewSimulationManager env
        (Some (ae_Build env (app_fields app appBuilder) (bopts @ [opt]))) mods
        [(AuthName, MkAuthModule (AppCodec app) (app_fields app AuthKeeper))]))) \<and>
    IBCKeeperGetter GetIBCKeeper \<in> supplied_to (new_config opts logger) \<and>
    GetIBCKeeper new_App = None \<and>
    (\<exists>k. GetIBCKeeper app = Some k \<and> ik_kind k = IBCKeeper \<and> ik_store k = Some IBCCore) \<and>
    init_chain smv gvm rt app s =
      (case smv (app_fields app UpgradeKeeper) (gvm app) s of
         (Ok _, t) \<Rightarrow> rt t | (Err e, t) \<Rightarrow> (Err e, t) | (Panic p, t) \<Rightarrow> (Panic p, t))"
proof -
  obtain vals b where app: "app = made_App env vals (bopts @ [opt]) b"
    and l: "ae_Load env ll (Some (ae_Build env (Some (vals appBuilder)) (bopts @ [opt]))) = (Ok (), b)"
    using assms unfolding New_Ok_iff by blast
  have "set [MkIBCModule, MkTransferModule, MkICAModule, MkTmModule, MkSoloModule] =
      ran (fst (RegisterIBC isBasic registered))"
    by (simp add: RegisterIBC_def Let_def ran_distinct ibc_client_modules_def)
  then have "\<exists>mods. set mods = ran (fst (RegisterIBC isBasic registered)) \<and>
      SimulationManager app = Some (ae_RegisterStoreDecoders env (ae_NewSimulationManager env
        (Some (ae_Build env (app_fields app appBuilder) (bopts @ [opt]))) mods
        [(AuthName, MkAuthModule (AppCodec app) (app_fields app AuthKeeper))]))"
    unfolding app by (intro exI conjI) (assumption, simp add: made_App_def SimulationManager_def AppCodec_def)
  moreover have "\<exists>k. GetIBCKeeper app = Some k \<and> ik_kind k = IBCKeeper \<and> ik_store k = Some IBCCore"
    unfolding app by (simp add: made_App_def GetIBCKeeper_def ibc_registered_def)
  moreover have "init_chain smv gvm rt app s =
      (case smv (app_fields app UpgradeKeeper) (gvm app) s of
         (Ok _, t) \<Rightarrow> rt t | (Err e, t) \<Rightarrow> (Err e, t) | (Panic p, t) \<Rightarrow> (Panic p, t))"
    unfolding app by (simp add: made_App_def init_chain_def InitChainer_def split: prod.split outcome.split)
  moreover have "IBCKeeperGetter GetIBCKeeper \<in> supplied_to (new_config opts logger)"
    by (simp add: new_config_def AppConfig_def)
  ultimately show ?thesis
    using l GetIBCKeeper_new unfolding app
    by (simp add: made_App_def AppCodec_def LegacyAmino_def TxConfig_def InterfaceRegistry_def)
qed

definition toy_env :: "(nat, nat list, nat, nat) app_env" where
  "toy_env =
     \<lparr>ae_Inject = \<lambda>c ts. Ok (\<lambda>t. length (takeWhile (\<lambda>u. u \<noteq> t) ts)), ae_Build = \<lambda>b opts. opts,
      ae_RegisterStores = \<lambda>_. None, ae_RegisterModules = \<lambda>_. None,
      ae_BytesToString = \<lambda>_. BytesToString plain_codec, ae_NewModuleAddress = bytes_of,
      ae_NewSimulationManager = \<lambda>b ms os. length ms, ae_RegisterStoreDecoders = \<lambda>sm. sm,
      ae_Load = \<lambda>ll b. (Ok (), b)\<rparr>"

lemma toy_New: "New toy_env 9 1 2 True [7] =
    (Ok (), made_App toy_env (\<lambda>t. length (takeWhile (\<lambda>u. u \<noteq> t) inject_targets)) [7, 9] (Some [7, 9]))"
  unfolding New_Ok_iff by (intro exI conjI) (simp_all add: toy_env_def)

theorem new_application_witness:
  "\<exists>app. New toy_env 9 1 2 True [7] = (Ok (), app) \<and> app_App app = Some [7, 9] \<and>
     SimulationManager app = Some 5 \<and> GetIBCKeeper app \<noteq> None"
proof -
  let ?app = "made_App toy_env (\<lambda>t. length (takeWhile (\<lambda>u. u \<noteq> t) inject_targets)) [7, 9] (Some [7, 9])"
  from new_application [OF toy_New] have "GetIBCKeeper ?app \<noteq> None" by fast
  then show ?thesis
    using toy_New by (simp add: made_App_def SimulationManager_def) (simp add: toy_env_def)
qed



section \<open>The export command\<close>

text \<open>
  C36: an export that succeeds had a home directory and viper options, created the application
  (loading the latest state only for height -1, otherwise the given height, which was found), and
  reports height 0 for a zero-height export and otherwise the height after the last block of that
  application; without the zero-height flag the application is only read.
\<close>

theorem appExport_result:
  assumes "appExport steps opt ex load home viper height z allowed mods app = (Ok (ea, None), t)"
  shows "\<exists>h a b. home = OptString h \<and> h \<noteq> [] \<and> viper \<and>
    app_New steps opt (height = -1) [] app = (Ok (), a) \<and>
    (if height = -1 then b = a else load height a = (Ok (), b)) \<and>
    ea_Height ea = (if z then 0 else int64 (ex_LastBlockHeight (ex b) + 1)) \<and> (z \<or> t = b)"
proof -
  obtain h where h: "home = OptString h" "h \<noteq> []" "viper"
    using assms by (cases home) (auto simp: appExport_def Let_def split: if_splits)
  have e: "ea_Height ea = (if z then 0 else int64 (ex_LastBlockHeight (ex b) + 1)) \<and> (z \<or> t = b)"
    if "ExportAppStateAndValidators (ex b) z allowed mods b = (Ok (ea, None), t)" for b
    using export_height [of "ex b" z allowed mods b] export_no_prep [of "ex b" allowed mods b] that
    by (cases z) auto
  show ?thesis
  proof (cases "height = -1")
    case True
    then obtain a where "app_New steps opt True [] app = (Ok (), a)"
      "ExportAppStateAndValidators (ex a) z allowed mods a = (Ok (ea, None), t)"
      using assms h by (auto simp: appExport_def Let_def outcome_simps)
    then show ?thesis using h True e by auto
  next
    case False
    from False assms h obtain a where a: "app_New steps opt False [] app = (Ok (), a)"
      and x: "(case load height a of (Panic p, b) \<Rightarrow> (Panic p, b)
        | (Err err, b) \<Rightarrow> (Ok (zero_ExportedApp, Some err), b)
        | (Ok _, b) \<Rightarrow> ExportAppStateAndValidators (ex b) z allowed mods b) = (Ok (ea, None), t)"
      by (auto simp: appExport_def Let_def chain_st_Ok_iff)
    obtain r b where r: "load height a = (r, b)" by force
    with x have "r = Ok ()" "ExportAppStateAndValidators (ex b) z allowed mods b = (Ok (ea, None), t)"
      by (cases r; simp)+
    then show ?thesis using h False e a r by auto
  qed
qed

definition idle_steps :: "('a, unit) app_steps" where
  "idle_steps =
     \<lparr>do_Inject = \<lambda>a. (Ok (), a), do_Build = \<lambda>os a. a, do_registerIBCModules = \<lambda>a. (Ok (), a),
      do_SimulationManager = \<lambda>a. a, do_SetInitChainer = \<lambda>a. a, do_Load = \<lambda>latest a. (Ok (), a)\<rparr>"

theorem appExport_result_witness:
  "\<exists>ea t. appExport idle_steps () (\<lambda>_. mem_app 9) (\<lambda>_ a. (Ok (), a)) (OptString ''/h'') True 5 False [] []
     sample_state = (Ok (ea, None), t) \<and> ea_Height ea = 10 \<and> t = sample_state"
proof -
  let ?r = "appExport idle_steps () (\<lambda>_. mem_app 9) (\<lambda>_ a. (Ok (), a)) (OptString ''/h'') True 5 False [] []
     sample_state"
  have n: "app_New idle_steps () False [] sample_state = (Ok (), sample_state)"
    by (simp add: app_New_def idle_steps_def)
  obtain ea t where r: "?r = (Ok (ea, None), t)"
    using n by (simp add: appExport_def Let_def ExportAppStateAndValidators_def mem_defs)
  from appExport_result [OF r] n have "ea_Height ea = int64 (9 + 1) \<and> t = sample_state"
    by (auto simp: mem_defs)
  with r show ?thesis by (auto simp: int64_id)
qed

end
