(* ===== verification/Testnet_Replace.thy ===== *)
theory Testnet_Replace
  imports Testnet_InPlace
begin

text \<open>
  What the testnet in place does to the chain, as one step of an abstract machine. The abstract
  state has the indices of the staking store, the balances and the supply; the step \<open>spec_init\<close>
  replaces the validator set and funds accounts. \<open>initAppForTestnet\<close>, which walks over raw store keys
  and calls keepers one by one, refines it.
\<close>

section \<open>The abstract machine\<close>

text \<open>The staking store, by kind of key.\<close>

record staking_index =
  ix_validators :: "bytes \<rightharpoonup> bytes"
  ix_power :: "bytes \<rightharpoonup> bytes"
  ix_last :: "bytes \<rightharpoonup> bytes"
  ix_queue :: "bytes \<rightharpoonup> bytes"
  ix_cons :: "bytes \<rightharpoonup> bytes"
  ix_rest :: "bytes \<rightharpoonup> bytes"

record chain_view =
  cv_index :: staking_index
  cv_balance :: "bytes \<Rightarrow> int"
  cv_supply :: int

text \<open>The keys and values under which x/staking keeps a validator.\<close>

record staking_keys =
  sk_validator :: "Validator \<Rightarrow> bytes \<times> bytes"
  sk_cons :: "Validator \<Rightarrow> bytes \<times> bytes"
  sk_power :: "Validator \<Rightarrow> bytes \<times> bytes"
  sk_last :: "bytes \<Rightarrow> int \<Rightarrow> bytes \<times> bytes"

definition single :: "'k \<times> 'v \<Rightarrow> 'k \<rightharpoonup> 'v" where
  "single kv = [fst kv \<mapsto> snd kv]"

text \<open>
  One validator in each index but the one by consensus address, where the entries of the old
  validators stay; the queue of unbonding validators is empty.
\<close>

definition replace_validators :: "staking_keys \<Rightarrow> Validator \<Rightarrow> bytes \<Rightarrow> staking_index \<Rightarrow> staking_index" where
  "replace_validators keys v a ix =
     ix\<lparr>ix_validators := single (sk_validator keys v), ix_power := single (sk_power keys v),
        ix_last := single (sk_last keys a 0), ix_queue := Map.empty,
        ix_cons := ix_cons ix ++ single (sk_cons keys v)\<rparr>"

definition fund :: "int \<Rightarrow> bytes list \<Rightarrow> chain_view \<Rightarrow> chain_view" where
  "fund amount addrs c =
     c\<lparr>cv_balance := (\<lambda>a. cv_balance c a + int (count_list addrs a) * amount),
       cv_supply := cv_supply c + int (length addrs) * amount\<rparr>"

definition spec_init ::
  "staking_keys \<Rightarrow> Validator \<Rightarrow> bytes \<Rightarrow> int \<Rightarrow> bytes list \<Rightarrow> chain_view \<Rightarrow> chain_view" where
  "spec_init keys v a amount addrs c =
     fund amount addrs (c\<lparr>cv_index := replace_validators keys v a (cv_index c)\<rparr>)"

section \<open>The abstraction\<close>

text \<open>The kinds of keys of the staking store.\<close>

record key_kinds =
  kk_power :: "bytes \<Rightarrow> bool"
  kk_last :: "bytes \<Rightarrow> bool"
  kk_range :: "bytes \<Rightarrow> bytes \<Rightarrow> bytes \<Rightarrow> bool"
  kk_cons :: "bytes \<Rightarrow> bool"

definition in_prefix :: "'s testnet_app \<Rightarrow> key_kinds \<Rightarrow> bytes \<Rightarrow> bytes \<Rightarrow> bool" where
  "in_prefix app kinds p = kk_range kinds p (ta_PrefixEndBytes app p)"

definition index_of :: "'s testnet_app \<Rightarrow> key_kinds \<Rightarrow> (bytes \<rightharpoonup> bytes) \<Rightarrow> staking_index" where
  "index_of app kinds m =
     (let val = in_prefix app kinds (ta_ValidatorsKey app);
          queue = in_prefix app kinds (ta_ValidatorQueueKey app)
      in \<lparr>ix_validators = m |` Collect val, ix_power = m |` Collect (kk_power kinds),
          ix_last = m |` Collect (kk_last kinds), ix_queue = m |` Collect queue,
          ix_cons = m |` Collect (kk_cons kinds),
          ix_rest = m |` {k. \<not> val k \<and> \<not> kk_power kinds k \<and> \<not> kk_last kinds k \<and> \<not> queue k \<and> \<not> kk_cons kinds k}\<rparr>)"

definition view_of ::
  "'s testnet_app \<Rightarrow> key_kinds \<Rightarrow> ('s \<Rightarrow> bytes \<rightharpoonup> bytes) \<Rightarrow> ('s \<Rightarrow> bytes \<Rightarrow> int) \<Rightarrow> ('s \<Rightarrow> int) \<Rightarrow> 's \<Rightarrow> chain_view" where
  "view_of app kinds kv bal total_of s =
     \<lparr>cv_index = index_of app kinds (kv s), cv_balance = bal s, cv_supply = total_of s\<rparr>"

text \<open>
  What x/staking documents: each setter writes one entry, of its kind, and the kinds are disjoint.
  A validator that is not jailed gets an entry in the power index. The distribution, slashing and
  bank modules write other stores.
\<close>

definition kinds_disjoint :: "'s testnet_app \<Rightarrow> key_kinds \<Rightarrow> bool" where
  "kinds_disjoint app kinds \<longleftrightarrow>
     (\<forall>k. length (filter id [kk_power kinds k, kk_last kinds k, kk_cons kinds k,
        in_prefix app kinds (ta_ValidatorsKey app) k, in_prefix app kinds (ta_ValidatorQueueKey app) k]) \<le> 1)"

definition lawful_setters ::
  "'s testnet_app \<Rightarrow> ('s \<Rightarrow> bytes \<rightharpoonup> bytes) \<Rightarrow> key_kinds \<Rightarrow> staking_keys \<Rightarrow> bool" where
  "lawful_setters app kv kinds keys \<longleftrightarrow>
     (\<forall>v s t. ta_SetValidator app v s = (Ok (), t) \<longrightarrow> kv t = kv s ++ single (sk_validator keys v)) \<and>
     (\<forall>v s t. ta_SetValidatorByConsAddr app v s = (Ok (), t) \<longrightarrow> kv t = kv s ++ single (sk_cons keys v)) \<and>
     (\<forall>v s t. ta_SetValidatorByPowerIndex app v s = (Ok (), t) \<longrightarrow> \<not> v_Jailed v \<longrightarrow>
        kv t = kv s ++ single (sk_power keys v)) \<and>
     (\<forall>a p s t. ta_SetLastValidatorPower app a p s = (Ok (), t) \<longrightarrow> kv t = kv s ++ single (sk_last keys a p)) \<and>
     (\<forall>v. in_prefix app kinds (ta_ValidatorsKey app) (fst (sk_validator keys v)) \<and>
        kk_cons kinds (fst (sk_cons keys v)) \<and> kk_power kinds (fst (sk_power keys v))) \<and>
     (\<forall>a p. kk_last kinds (fst (sk_last keys a p)))"

definition others_leave :: "'s testnet_app \<Rightarrow> ('s \<Rightarrow> 'v) \<Rightarrow> bool" where
  "others_leave app view \<longleftrightarrow>
     (\<forall>a. leaves view (ta_AfterValidatorCreated app a) \<and>
          (\<forall>r. leaves view (ta_SetValidatorHistoricalRewards app a 0 r)) \<and>
          (\<forall>r. leaves view (ta_SetValidatorCurrentRewards app a r)) \<and>
          (\<forall>c. leaves view (ta_SetValidatorAccumulatedCommission app a c)) \<and>
          (\<forall>r. leaves view (ta_SetValidatorOutstandingRewards app a r)) \<and>
          (\<forall>i. leaves view (ta_SetValidatorSigningInfo app a i))) \<and>
     (\<forall>m c. leaves view (ta_MintCoins app m c)) \<and>
     (\<forall>m a c. leaves view (ta_SendCoinsFromModuleToAccount app m a c))"

lemma single_restrict: "single e |` S = (if fst e \<in> S then single e else Map.empty)"
  by (auto simp: single_def restrict_map_def fun_eq_iff)

lemma restrict_map_add: "(f ++ g) |` S = (f |` S) ++ (g |` S)"
  by (auto simp: restrict_map_def map_add_def fun_eq_iff split: option.split)

section \<open>The interface\<close>

locale staking_indices =
  staking_store app kv "kk_power kinds" "kk_last kinds" "kk_range kinds"
  for app :: "'s testnet_app" and kv :: "'s \<Rightarrow> bytes \<rightharpoonup> bytes" and kinds :: key_kinds +
  fixes keys :: staking_keys
  assumes disjoint: "kinds_disjoint app kinds"
    and setters: "lawful_setters app kv kinds keys"
    and others: "others_leave app kv"
begin

lemma others_leave_kv:
  "leaves kv (ta_AfterValidatorCreated app a)" "leaves kv (ta_SetValidatorHistoricalRewards app a 0 h)"
  "leaves kv (ta_SetValidatorCurrentRewards app a h)" "leaves kv (ta_SetValidatorAccumulatedCommission app a c)"
  "leaves kv (ta_SetValidatorOutstandingRewards app a c)" "leaves kv (ta_SetValidatorSigningInfo app a i)"
  "leaves kv (ta_MintCoins app m c)" "leaves kv (ta_SendCoinsFromModuleToAccount app m a c)"
  using others by (simp_all add: others_leave_def del: split_paired_All)

lemmas othersD = others_leave_kv [THEN leavesD]

lemma init_distribution_kv: "init_distribution app a s = (Ok (), t) \<Longrightarrow> kv t = kv s"
  by (auto simp: init_distribution_def outcome_simps dest!: othersD(2-5))

lemma set_signing_info_kv: "set_signing_info app a s = (Ok (), t) \<Longrightarrow> kv t = kv s"
  by (auto simp: set_signing_info_def outcome_simps others_leave_kv(6) [unfolded leaves_def, rule_format])

lemma fund_accounts_kv: "fund_accounts app c accs s = (Ok (), t) \<Longrightarrow> kv t = kv s"
proof (induction accs arbitrary: s)
  case (Cons x accs)
  obtain a e where x: "ta_AccountStringToBytes app x = (a, e)" by force
  with Cons.prems obtain s1 s2 where "ta_MintCoins app mint_module c s = (Ok (), s1)"
    and "ta_SendCoinsFromModuleToAccount app mint_module a c s1 = (Ok (), s2)"
    and r: "fund_accounts app c accs s2 = (Ok (), t)"
    by (auto simp: outcome_simps split: option.splits)
  then have "kv s2 = kv s" using othersD(7,8) by metis
  with Cons.IH [OF r] show ?case by simp
qed simp

lemma add_validator_kv:
  assumes "add_validator app v a s = (Ok (), t)" "\<not> v_Jailed v"
  shows "kv t = kv s ++ single (sk_validator keys v) ++ single (sk_cons keys v) ++ single (sk_power keys v) ++
    single (sk_last keys a 0)"
proof -
  from assms(1) obtain s1 s2 s3 s4 where
    "ta_SetValidator app v s = (Ok (), s1)" "ta_SetValidatorByConsAddr app v s1 = (Ok (), s2)"
    "ta_SetValidatorByPowerIndex app v s2 = (Ok (), s3)" "ta_SetLastValidatorPower app a 0 s3 = (Ok (), s4)"
    "ta_AfterValidatorCreated app a s4 = (Ok (), t)"
    by (auto simp: add_validator_def outcome_simps)
  then have "kv s1 = kv s ++ single (sk_validator keys v)" "kv s2 = kv s1 ++ single (sk_cons keys v)"
    "kv s3 = kv s2 ++ single (sk_power keys v)" "kv s4 = kv s3 ++ single (sk_last keys a 0)" "kv t = kv s4"
    using setters assms(2) othersD(1) unfolding lawful_setters_def by blast+
  then show ?thesis by simp
qed

text \<open>Removing and adding, as one replacement of the indices.\<close>

lemma key_kind:
  "in_prefix app kinds (ta_ValidatorsKey app) (fst (sk_validator keys v))"
  "kk_cons kinds (fst (sk_cons keys v))" "kk_power kinds (fst (sk_power keys v))"
  "kk_last kinds (fst (sk_last keys a p))"
  using setters unfolding lawful_setters_def by blast+

lemma one_kind:
  "in_prefix app kinds (ta_ValidatorsKey app) k \<Longrightarrow>
     \<not> kk_power kinds k \<and> \<not> kk_last kinds k \<and> \<not> kk_cons kinds k \<and> \<not> in_prefix app kinds (ta_ValidatorQueueKey app) k"
  "kk_power kinds k \<Longrightarrow> \<not> in_prefix app kinds (ta_ValidatorsKey app) k \<and> \<not> kk_last kinds k \<and>
     \<not> kk_cons kinds k \<and> \<not> in_prefix app kinds (ta_ValidatorQueueKey app) k"
  "kk_last kinds k \<Longrightarrow> \<not> in_prefix app kinds (ta_ValidatorsKey app) k \<and> \<not> kk_power kinds k \<and>
     \<not> kk_cons kinds k \<and> \<not> in_prefix app kinds (ta_ValidatorQueueKey app) k"
  "kk_cons kinds k \<Longrightarrow> \<not> in_prefix app kinds (ta_ValidatorsKey app) k \<and> \<not> kk_power kinds k \<and>
     \<not> kk_last kinds k \<and> \<not> in_prefix app kinds (ta_ValidatorQueueKey app) k"
  using disjoint unfolding kinds_disjoint_def by (auto dest!: spec [of _ k] split: if_splits)

lemma replaced:
  assumes "remove_validators app s = (Ok (), s1)" "add_validator app v a s1 = (Ok (), t)" "\<not> v_Jailed v"
  shows "index_of app kinds (kv t) = replace_validators keys v a (index_of app kinds (kv s))"
proof -
  have r: "kv s1 = kv s |` {k. \<not> kk_power kinds k \<and> \<not> kk_last kinds k \<and>
      \<not> in_prefix app kinds (ta_ValidatorsKey app) k \<and> \<not> in_prefix app kinds (ta_ValidatorQueueKey app) k}"
    using remove_validators_kv [OF assms(1)] by (auto simp: restrict_map_def in_prefix_def fun_eq_iff)
  have e: "kv s1 |` Collect (in_prefix app kinds (ta_ValidatorsKey app)) = Map.empty"
    "kv s1 |` Collect (kk_power kinds) = Map.empty" "kv s1 |` Collect (kk_last kinds) = Map.empty"
    "kv s1 |` Collect (in_prefix app kinds (ta_ValidatorQueueKey app)) = Map.empty"
    "kv s1 |` Collect (kk_cons kinds) = kv s |` Collect (kk_cons kinds)"
    unfolding r by (auto simp: restrict_map_def fun_eq_iff dest: one_kind)
  have rest: "kv s1 |` {k. \<not> in_prefix app kinds (ta_ValidatorsKey app) k \<and> \<not> kk_power kinds k \<and>
      \<not> kk_last kinds k \<and> \<not> in_prefix app kinds (ta_ValidatorQueueKey app) k \<and> \<not> kk_cons kinds k} =
    kv s |` {k. \<not> in_prefix app kinds (ta_ValidatorsKey app) k \<and> \<not> kk_power kinds k \<and>
      \<not> kk_last kinds k \<and> \<not> in_prefix app kinds (ta_ValidatorQueueKey app) k \<and> \<not> kk_cons kinds k}"
    unfolding r by (auto simp: restrict_map_def fun_eq_iff)
  show ?thesis
    unfolding add_validator_kv [OF assms(2,3)] index_of_def replace_validators_def Let_def
    by (simp add: restrict_map_add single_restrict key_kind one_kind(1) [OF key_kind(1)]
        one_kind(4) [OF key_kind(2)] one_kind(2) [OF key_kind(3)] one_kind(3) [OF key_kind(4)] e rest)
qed

end

text \<open>The bank, read as balances and a supply, beside the staking store.\<close>

locale testnet_chain = staking_indices +
  fixes bal :: "'a \<Rightarrow> bytes \<Rightarrow> int" and total_of :: "'a \<Rightarrow> int" and amount :: "coins \<Rightarrow> int"
  assumes bank: "lawful_bank app bal total_of amount"
    and moves: "only_bank_moves app (\<lambda>s. (bal s, total_of s))"
begin

lemma init_refines:
  assumes "initAppForTestnet app args s = (Ok (), t)"
  shows "\<exists>pk a denom c.
    ta_NewAnyWithValue app (newValPubKey args) = Ok pk \<and>
    ta_ValidatorStringToBytes app (newOperatorAddress args) = (a, None) \<and>
    ta_NewCoins app denom fund_amount = Ok c \<and>
    view_of app kinds kv bal total_of t = spec_init keys (testnet_validator (newOperatorAddress args) pk) a (amount c)
      (map (\<lambda>x. fst (ta_AccountStringToBytes app x)) (accountsToFund args)) (view_of app kinds kv bal total_of s)"
proof -
  from init_steps [OF assms] obtain pk v s1 s2 s3 u denom c where
    pk: "ta_NewAnyWithValue app (newValPubKey args) = Ok pk"
    and v: "ta_ValidatorStringToBytes app (newOperatorAddress args) = (v, None)"
    and r: "remove_validators app s = (Ok (), s1)"
    and a: "add_validator app (testnet_validator (newOperatorAddress args) pk) v s1 = (Ok (), s2)"
    and d: "init_distribution app v s2 = (Ok (), s3)"
    and i: "set_signing_info app (newValAddr args) s3 = (Ok (), u)"
    and c: "ta_NewCoins app denom fund_amount = Ok c"
    and f: "fund_accounts app c (accountsToFund args) u = (Ok (), t)"
    by blast
  let ?v = "testnet_validator (newOperatorAddress args) pk"
  have "\<not> v_Jailed ?v" by (simp add: testnet_validator_def)
  then have "index_of app kinds (kv s2) = replace_validators keys ?v v (index_of app kinds (kv s))"
    by (rule replaced [OF r a])
  moreover have "kv t = kv s2"
    using init_distribution_kv [OF d] set_signing_info_kv [OF i] fund_accounts_kv [OF f] by simp
  moreover have "bal u = bal s" "total_of u = total_of s"
    using remove_validators_view [OF moves r] add_validator_view [OF moves a]
      init_distribution_view [OF moves d] set_signing_info_view [OF moves i] by simp_all
  ultimately have "view_of app kinds kv bal total_of t = spec_init keys ?v v (amount c)
      (map (\<lambda>x. fst (ta_AccountStringToBytes app x)) (accountsToFund args)) (view_of app kinds kv bal total_of s)"
    using fund_accounts_balances [OF bank f] by (simp add: view_of_def spec_init_def fund_def)
  with pk v c show ?thesis by blast
qed

end

lemma testnet_chain_intro:
  assumes "lawful_store app kv (kk_power kinds) (kk_last kinds) (kk_range kinds)" "kinds_disjoint app kinds"
    and "lawful_setters app kv kinds keys" "others_leave app kv" "lawful_bank app bal total_of amount"
    and "only_bank_moves app (\<lambda>s. (bal s, total_of s))"
  shows "testnet_chain app kv kinds keys bal total_of amount"
  using assms
  by (intro testnet_chain.intro staking_indices.intro staking_store.intro staking_indices_axioms.intro
      testnet_chain_axioms.intro)

end
