(* ===== verification/Testnet_Files.thy ===== *)
theory Testnet_Files
  imports Sdk_Calls Go_Strings
begin

text \<open>
  The file helpers of cmd/pulsard/cmd/testnet_multi_node.go (\<open>writeFile\<close>, \<open>copyFile\<close>, \<open>isSubDir\<close>)
  and the loop that copies every genesis transaction into every node's directory.

  The operating system is a record of functions of a state \<open>'f\<close>, each of which can fail. The
  predicate \<open>lawful_files\<close> reads that state as a map from paths to contents.
\<close>

section \<open>The operating system\<close>

record 'f os =
  os_Getwd :: "(go_error, string) outcome"
  os_MkdirAll :: "string \<Rightarrow> 'f \<Rightarrow> (go_error, unit) outcome \<times> 'f"
  os_RemoveAll :: "string \<Rightarrow> 'f \<Rightarrow> 'f"
  os_WriteFile :: "string \<Rightarrow> bytes \<Rightarrow> 'f \<Rightarrow> (go_error, unit) outcome \<times> 'f"
  os_Open :: "string \<Rightarrow> 'f \<Rightarrow> (go_error, unit) outcome"
  os_Create :: "string \<Rightarrow> 'f \<Rightarrow> (go_error, unit) outcome \<times> 'f"
  os_Copy :: "string \<Rightarrow> string \<Rightarrow> 'f \<Rightarrow> (go_error, int) outcome \<times> 'f"
  os_Sync :: "string \<Rightarrow> 'f \<Rightarrow> (go_error, unit) outcome \<times> 'f"

section \<open>The helpers\<close>

text \<open>\<open>%q\<close> of a directory name, for the characters that are printable ASCII.\<close>

definition quoted :: "string \<Rightarrow> string" where
  "quoted s = CHR 0x22 # concat (map (\<lambda>c. if c = CHR 0x22 \<or> c = CHR 0x5C then [CHR 0x5C, c] else [c]) s) @
     [CHR 0x22]"

fun mkdir_failure :: "string \<Rightarrow> (go_error, 'a) outcome \<times> 'f \<Rightarrow> (go_error, 'a) outcome \<times> 'f" where
  "mkdir_failure dir (Err e, f) = (Err (Wrapped (''could not create directory '' @ quoted dir) e), f)"
| "mkdir_failure dir r = r"

definition writeFile :: "'f os \<Rightarrow> string \<Rightarrow> string \<Rightarrow> bytes \<Rightarrow> 'f \<Rightarrow> (go_error, unit) outcome \<times> 'f" where
  "writeFile os path dir contents f =
     chain_st (mkdir_failure dir (os_MkdirAll os dir f)) (\<lambda>_ f.
     chain_st (os_WriteFile os path contents f) (\<lambda>_ f. (Ok (), f)))"

definition copyFile :: "'f os \<Rightarrow> string \<Rightarrow> string \<Rightarrow> 'f \<Rightarrow> (go_error, int) outcome \<times> 'f" where
  "copyFile os src dstDir f =
     (let fileName = Base src;
          dst = filepath_Join [dstDir, fileName]
      in chain_st (os_Open os src f, f) (\<lambda>_ f.
         chain_st (os_Create os dst f) (\<lambda>_ f.
         chain_st (os_Copy os dst src f) (\<lambda>bytesCopied f.
         chain_st (os_Sync os dst f) (\<lambda>_ f. (Ok bytesCopied, f))))))"

definition has_prefix :: "string \<Rightarrow> string \<Rightarrow> bool" where
  "has_prefix s p = (take (length p) s = p)"

definition isSubDir :: "(go_error, string) outcome \<Rightarrow> string \<Rightarrow> string \<Rightarrow> (go_error, bool) outcome" where
  "isSubDir cwd src dstDir =
     chain (filepath_Abs cwd src) (\<lambda>absSrc.
     chain (filepath_Abs cwd dstDir) (\<lambda>absDstDir.
       case Rel absDstDir absSrc of
         None \<Rightarrow> Err (LibError ''Rel: cannot make path relative'')
       | Some relativePath \<Rightarrow>
           Ok (\<not> has_prefix relativePath ''..'' \<and> \<not> IsAbs relativePath)))"

section \<open>Copying the genesis transactions\<close>

definition nodeDirName :: "string \<Rightarrow> nat \<Rightarrow> string" where
  "nodeDirName nodeDirPrefix i = nodeDirPrefix @ Itoa (int i)"

definition node_dir :: "string \<Rightarrow> string \<Rightarrow> nat \<Rightarrow> string" where
  "node_dir outputDir nodeDirPrefix i = filepath_Join [outputDir, nodeDirName nodeDirPrefix i]"

text \<open>The loop body: a file that is already inside, or whose place cannot be told, is left alone.\<close>

definition copy_gentx :: "'f os \<Rightarrow> string \<Rightarrow> string \<Rightarrow> 'f \<Rightarrow> (go_error, unit) outcome \<times> 'f" where
  "copy_gentx os gentxsDir path f =
     (case isSubDir (os_Getwd os) path gentxsDir of
        Panic p \<Rightarrow> (Panic p, f)
      | Err e \<Rightarrow> (Ok (), f)
      | Ok yes \<Rightarrow>
          if yes then (Ok (), f)
          else chain_st (copyFile os path gentxsDir f) (\<lambda>_ f. (Ok (), f)))"

definition copy_gentxs ::
  "'f os \<Rightarrow> string \<Rightarrow> string \<Rightarrow> nat \<Rightarrow> string list \<Rightarrow> 'f \<Rightarrow> (go_error, unit) outcome \<times> 'f" where
  "copy_gentxs os outputDir nodeDirPrefix numValidators gentxsFiles =
     for_each (\<lambda>i. for_each (\<lambda>path.
         copy_gentx os (filepath_Join [node_dir outputDir nodeDirPrefix i, ''config'', ''gentx'']) path)
       gentxsFiles) [0..<numValidators]"

section \<open>What copying does\<close>

definition lawful_files :: "'f os \<Rightarrow> ('f \<Rightarrow> string \<Rightarrow> bytes option) \<Rightarrow> bool" where
  "lawful_files os fs \<longleftrightarrow>
     (\<forall>p f. os_Open os p f = Ok () \<longrightarrow> fs f p \<noteq> None) \<and>
     (\<forall>p f g. os_Create os p f = (Ok (), g) \<longrightarrow> fs g = (fs f)(p \<mapsto> [])) \<and>
     (\<forall>d p f g n. os_Copy os d p f = (Ok n, g) \<longrightarrow>
        (\<exists>a b. fs f d = Some a \<and> fs f p = Some b \<and> n = int (length b) \<and> fs g = (fs f)(d \<mapsto> a @ b))) \<and>
     (\<forall>p f g. os_Sync os p f = (Ok (), g) \<longrightarrow> fs g = fs f)"

text \<open>The interface that the copying relies on.\<close>

locale file_store =
  fixes os :: "'f os" and fs :: "'f \<Rightarrow> string \<Rightarrow> bytes option"
  assumes lawful: "lawful_files os fs"
begin

lemma open_exists: "os_Open os p f = Ok () \<Longrightarrow> fs f p \<noteq> None"
  and create_empty: "os_Create os p f = (Ok (), g) \<Longrightarrow> fs g = (fs f)(p \<mapsto> [])"
  and copy_appends: "os_Copy os d p f = (Ok n, g) \<Longrightarrow>
    \<exists>a b. fs f d = Some a \<and> fs f p = Some b \<and> n = int (length b) \<and> fs g = (fs f)(d \<mapsto> a @ b)"
  and sync_keeps: "os_Sync os p f = (Ok (), g) \<Longrightarrow> fs g = fs f"
  using lawful unfolding lawful_files_def by blast+

lemma copyFile_Ok:
  assumes "copyFile os src dir f = (Ok n, g)"
  shows "\<exists>b. fs f src = Some b \<and>
    (if src = filepath_Join [dir, Base src] then fs g = (fs f)(src \<mapsto> []) \<and> n = 0
     else fs g = (fs f)(filepath_Join [dir, Base src] \<mapsto> b) \<and> n = int (length b))"
proof -
  let ?d = "filepath_Join [dir, Base src]"
  from assms obtain f1 f2 where o: "os_Open os src f = Ok ()"
    and c: "os_Create os ?d f = (Ok (), f1)" and k: "os_Copy os ?d src f1 = (Ok n, f2)"
    and y: "os_Sync os ?d f2 = (Ok (), g)"
    by (auto simp: copyFile_def Let_def chain_st_Ok_iff)
  have f1: "fs f1 = (fs f)(?d \<mapsto> [])" and g: "fs g = fs f2" and s: "fs f src \<noteq> None"
    using create_empty [OF c] sync_keeps [OF y] open_exists [OF o] by simp_all
  obtain a b where ab: "fs f1 ?d = Some a" "fs f1 src = Some b" "n = int (length b)"
    "fs f2 = (fs f1)(?d \<mapsto> a @ b)"
    using copy_appends [OF k] by blast
  have "a = []" using ab(1) f1 by simp
  obtain b0 where b0: "fs f src = Some b0" using s by blast
  show ?thesis
  proof (cases "src = ?d")
    case True
    then show ?thesis using ab f1 g \<open>a = []\<close> b0 by auto
  next
    case False
    then have "b = b0" using ab(2) f1 b0 by simp
    then show ?thesis using ab f1 g \<open>a = []\<close> b0 False by auto
  qed
qed

end

section \<open>Paths inside an output directory\<close>

lemma split_on_append_sep: "split_on c (d @ c # s) = split_on c d @ split_on c s"
proof (induction d)
  case (Cons x d)
  obtain w ws where "split_on c d = w # ws" using split_on_ne [of c d] by (cases "split_on c d") auto
  then show ?case using Cons by simp
qed simp

lemma join_proper_split:
  "list_all proper_name xs \<Longrightarrow> xs \<noteq> [] \<Longrightarrow> split_on (CHR ''/'') (join_with (CHR ''/'') xs) = xs"
  by (rule split_join) (auto simp: list_all_iff proper_name_def)

lemma IsAbs_append: "d \<noteq> [] \<Longrightarrow> IsAbs (d @ s) = IsAbs d"
  by (cases d) (auto simp: IsAbs_def)

lemma clean_components_join:
  assumes "d \<noteq> []" "list_all proper_name xs" "xs \<noteq> []"
  shows "clean_components (join_with (CHR ''/'') (d # xs)) = clean_components d @ xs"
  using fold_clean_id [OF assms(2)] assms
  by (simp add: clean_components_def join_Cons split_on_append_sep join_proper_split IsAbs_append)

definition path_of :: "bool \<Rightarrow> string list \<Rightarrow> string" where
  "path_of rooted cs = (if rooted then CHR ''/'' # join_with (CHR ''/'') cs else join_with (CHR ''/'') cs)"

lemma filepath_Join_eq:
  assumes "d \<noteq> []" "list_all proper_name xs" "xs \<noteq> []"
  shows "filepath_Join (d # xs) = path_of (IsAbs d) (clean_components d @ xs)"
proof -
  have "IsAbs (join_with (CHR ''/'') (d # xs)) = IsAbs d"
    using assms(1,3) by (simp add: join_Cons IsAbs_append)
  then show ?thesis
    using clean_components_join [OF assms] assms
    by (simp add: filepath_Join_def Clean_def path_of_def Let_def)
qed

lemma join_first: "list_all proper_name xs \<Longrightarrow> xs \<noteq> [] \<Longrightarrow> \<not> IsAbs (join_with (CHR ''/'') xs)"
proof -
  assume p: "list_all proper_name xs" and "xs \<noteq> []"
  then obtain w ws where x: "xs = w # ws" "w \<noteq> []" "CHR ''/'' \<notin> set w"
    by (cases xs) (auto simp: proper_name_def)
  then obtain ch w' where w: "w = ch # w'" "ch \<noteq> CHR ''/''" by (cases w) auto
  then show ?thesis using x by (cases ws) (simp_all add: IsAbs_def)
qed

lemma IsAbs_path_of: "list_all proper_name xs \<Longrightarrow> xs \<noteq> [] \<Longrightarrow> IsAbs (path_of r xs) = r"
  using join_first [of xs] by (simp add: path_of_def)

lemma clean_path_of:
  assumes "list_all proper_name xs" "xs \<noteq> []"
  shows "clean_components (path_of r xs) = xs"
  using fold_clean_id [OF assms(1)] join_proper_split [OF assms] join_first [OF assms]
  by (cases r) (auto simp: clean_components_def path_of_def clean_step_def)

lemma path_of_ne: "list_all proper_name xs \<Longrightarrow> xs \<noteq> [] \<Longrightarrow> path_of r xs \<noteq> []"
  by (cases xs; cases "tl xs") (auto simp: path_of_def proper_name_def)

text \<open>The absolute path of a proper path.\<close>

lemma filepath_Abs_path_of:
  assumes "list_all proper_name xs" "xs \<noteq> []" "IsAbs wd"
  shows "filepath_Abs (Ok wd) (path_of r xs) =
    Ok (CHR ''/'' # join_with (CHR ''/'') ((if r then [] else clean_components wd) @ xs))"
proof (cases r)
  case True
  then show ?thesis
    using IsAbs_path_of [OF assms(1,2), of r] Clean_join [OF assms(1)]
    by (simp add: filepath_Abs_def path_of_def)
next
  case False
  have p: "path_of r xs = join_with (CHR ''/'') xs" using False by (simp add: path_of_def)
  have "wd \<noteq> []" using assms(3) by (auto simp: IsAbs_def)
  have "filepath_Join [wd, join_with (CHR ''/'') xs] = filepath_Join (wd # xs)"
    using \<open>wd \<noteq> []\<close> assms(2) by (simp add: filepath_Join_def join_Cons)
  then show ?thesis
    using False p join_first [OF assms(1,2)] filepath_Join_eq [OF \<open>wd \<noteq> []\<close> assms(1,2)] assms(3)
    by (simp add: filepath_Abs_def path_of_def)
qed

lemma Rel_proper:
  assumes "list_all proper_name bs" "list_all proper_name ts" "bs \<noteq> ts"
  shows "Rel (CHR ''/'' # join_with (CHR ''/'') bs) (CHR ''/'' # join_with (CHR ''/'') ts) =
    (case strip_common bs ts of (us, vs) \<Rightarrow>
      Some (join_with (CHR ''/'') (map (\<lambda>_. ''..'') us @ vs)))"
proof -
  have ne: "CHR ''/'' # join_with (CHR ''/'') ts \<noteq> CHR ''/'' # join_with (CHR ''/'') bs"
    using path_components_join [OF assms(1)] path_components_join [OF assms(2)] assms(3) by metis
  obtain us vs where s: "strip_common bs ts = (us, vs)" by force
  have "list_all proper_name us" using strip_common_eq [OF s] assms(1) by auto
  then have "\<not> (case us of b # _ \<Rightarrow> b = ''..'' | [] \<Rightarrow> False)"
    by (cases us) (auto simp: proper_name_def)
  then show ?thesis
    using ne s Clean_join [OF assms(1)] Clean_join [OF assms(2)]
      path_components_join [OF assms(1)] path_components_join [OF assms(2)]
    by (simp add: Rel_def Let_def)
qed

lemma has_prefix_slash: "has_prefix (w @ CHR ''/'' # s) ''..'' = has_prefix w ''..''"
  by (cases w; cases "tl w") (auto simp: has_prefix_def)

lemma has_prefix_join: "vs \<noteq> [] \<Longrightarrow> has_prefix (join_with (CHR ''/'') vs) ''..'' = has_prefix (hd vs) ''..''"
  by (cases vs; cases "tl vs") (simp_all add: has_prefix_slash)

text \<open>
  \<open>isSubDir\<close> on proper paths: the directory's components are a prefix of the file's, and the next
  component does not begin with two dots.
\<close>

lemma isSubDir_proper:
  assumes "list_all proper_name xs" "xs \<noteq> []" "list_all proper_name ds" "ds \<noteq> []" "IsAbs wd"
  shows "isSubDir (Ok wd) (path_of r xs) (path_of r ds) =
    Ok (\<exists>rest. xs = ds @ rest \<and> (case rest of w # _ \<Rightarrow> \<not> has_prefix w ''..'' | [] \<Rightarrow> True))"
proof -
  let ?w = "if r then [] else clean_components wd"
  let ?abs = "\<lambda>cs. CHR ''/'' # join_with (CHR ''/'') (?w @ cs)"
  have pw: "list_all proper_name ?w" using clean_components_proper [OF assms(5)] by simp
  have p: "list_all proper_name (?w @ xs)" "list_all proper_name (?w @ ds)" using pw assms by auto
  have sc: "strip_common (?w @ ds) (?w @ xs) = strip_common ds xs"
    by (rule strip_common_append)
  have e: "isSubDir (Ok wd) (path_of r xs) (path_of r ds) =
      (case Rel (?abs ds) (?abs xs) of
         None \<Rightarrow> Err (LibError ''Rel: cannot make path relative'')
       | Some rel \<Rightarrow> Ok (\<not> has_prefix rel ''..'' \<and> \<not> IsAbs rel))"
    by (simp only: isSubDir_def filepath_Abs_path_of [OF assms(1,2,5)]
        filepath_Abs_path_of [OF assms(3,4,5)] chain.simps)
  show ?thesis
  proof (cases "ds = xs")
    case True
    then have "Rel (?abs ds) (?abs xs) = Some ''.''" by (simp add: Rel_def Let_def)
    then show ?thesis using e True by (simp add: has_prefix_def IsAbs_def)
  next
    case False
    obtain us vs where s: "strip_common ds xs = (us, vs)" by force
    have vs: "list_all proper_name vs" using strip_common_eq [OF s] assms(1) by auto
    have rel: "Rel (?abs ds) (?abs xs) = Some (join_with (CHR ''/'') (map (\<lambda>_. ''..'') us @ vs))"
      using Rel_proper [OF p(2,1)] False sc s by simp
    show ?thesis
    proof (cases us)
      case Nil
      then have x: "xs = ds @ vs" and ne: "vs \<noteq> []" using strip_common_eq [OF s] False by auto
      have "has_prefix (join_with (CHR ''/'') vs) ''..'' = has_prefix (hd vs) ''..''"
        by (rule has_prefix_join [OF ne])
      then show ?thesis
        using e rel Nil x ne join_first [OF vs ne] by (cases vs) auto
    next
      case (Cons u us')
      then have "fst (strip_common ds xs) \<noteq> []" using s by simp
      then have "\<not> (\<exists>rest. xs = ds @ rest)" by (simp add: strip_common_empty_iff)
      moreover have "has_prefix (join_with (CHR ''/'') (map (\<lambda>_. ''..'') us @ vs)) ''..''"
        using Cons by (cases "map (\<lambda>_. ''..'') us' @ vs") (auto simp: has_prefix_def)
      ultimately show ?thesis using e rel by auto
    qed
  qed
qed

section \<open>The layout of the testnet\<close>

text \<open>The place of the genesis transaction with identifier \<open>id\<close> in node \<open>j\<close>'s directory.\<close>

definition gentx_file :: "string \<Rightarrow> string \<Rightarrow> nat \<Rightarrow> string \<Rightarrow> string" where
  "gentx_file outputDir nodeDirPrefix j nodeID =
     filepath_Join [filepath_Join [outputDir, nodeDirName nodeDirPrefix j, ''config'', ''gentx''],
       ''gentx-'' @ nodeID @ ''.json'']"

definition layout_ok :: "string \<Rightarrow> string \<Rightarrow> bool" where
  "layout_ok outputDir nodeDirPrefix \<longleftrightarrow>
     outputDir \<noteq> [] \<and> list_all proper_name (clean_components outputDir) \<and>
     CHR ''/'' \<notin> set nodeDirPrefix"

lemma digits_not_dot: "CHR ''.'' \<notin> set (digits n)"
proof
  assume "CHR ''.'' \<in> set (digits n)"
  then obtain k where "k < 10" "CHR ''.'' = digit k" using digits_chars by blast
  then have "(of_char (CHR ''.'') :: nat) = 48 + k" by (simp add: digit_def)
  then show False by simp
qed

lemma nodeDirName_proper:
  assumes "CHR ''/'' \<notin> set p"
  shows "proper_name (nodeDirName p i)"
proof -
  obtain d ds where d: "digits i = ds @ [d]" by (cases "digits i" rule: rev_cases) auto
  then have "d \<noteq> CHR ''.''" using digits_not_dot [of i] by auto
  then have "p @ ds @ [d] \<noteq> ''.''" "p @ ds @ [d] \<noteq> ''..''"
    by (metis append_assoc last.simps last_snoc list.distinct(1))+
  then show ?thesis
    using assms digits_no_slash [of i] d by (auto simp: proper_name_def nodeDirName_def Itoa_def)
qed

lemma gentx_name_proper: "CHR ''/'' \<notin> set nodeID \<Longrightarrow> proper_name (''gentx-'' @ nodeID @ ''.json'')"
  by (simp add: proper_name_def)

lemma config_proper: "proper_name ''config''" "proper_name ''gentx''"
  by (simp_all add: proper_name_def)

lemma gentxs_dir_eq:
  assumes "layout_ok d p"
  shows "filepath_Join [node_dir d p j, ''config'', ''gentx''] =
    path_of (IsAbs d) (clean_components d @ [nodeDirName p j, ''config'', ''gentx''])"
proof -
  have n: "proper_name (nodeDirName p j)" using assms nodeDirName_proper by (simp add: layout_ok_def)
  let ?xs = "clean_components d @ [nodeDirName p j]"
  have p: "list_all proper_name ?xs" using assms n by (simp add: layout_ok_def)
  have "node_dir d p j = path_of (IsAbs d) ?xs"
    using filepath_Join_eq [of d "[nodeDirName p j]"] assms n by (simp add: node_dir_def layout_ok_def)
  then show ?thesis
    using filepath_Join_eq [of "path_of (IsAbs d) ?xs" "[''config'', ''gentx'']"] path_of_ne [OF p]
      clean_path_of [OF p] IsAbs_path_of [OF p] config_proper by simp
qed

lemma gentx_file_eq:
  assumes "layout_ok d p" "CHR ''/'' \<notin> set nodeID"
  shows "gentx_file d p j nodeID = path_of (IsAbs d)
    (clean_components d @ [nodeDirName p j, ''config'', ''gentx'', ''gentx-'' @ nodeID @ ''.json''])"
proof -
  have n: "proper_name (nodeDirName p j)" using assms nodeDirName_proper by (simp add: layout_ok_def)
  let ?xs = "clean_components d @ [nodeDirName p j, ''config'', ''gentx'']"
  have p: "list_all proper_name ?xs" using assms n config_proper by (simp add: layout_ok_def)
  have "filepath_Join [d, nodeDirName p j, ''config'', ''gentx''] = path_of (IsAbs d) ?xs"
    using filepath_Join_eq [of d "[nodeDirName p j, ''config'', ''gentx'']"] assms n config_proper
    by (simp add: layout_ok_def)
  then show ?thesis
    using filepath_Join_eq [of "path_of (IsAbs d) ?xs" "[''gentx-'' @ nodeID @ ''.json'']"]
      path_of_ne [OF p] clean_path_of [OF p] IsAbs_path_of [OF p] gentx_name_proper [OF assms(2)]
    by (simp add: gentx_file_def)
qed

lemma Base_path_of:
  assumes "list_all proper_name xs" "proper_name w"
  shows "Base (path_of r (xs @ [w])) = w"
proof -
  have ws: "list_all proper_name (xs @ [w])" using assms by simp
  obtain u c where w: "w = u @ [c]" using assms(2) by (cases w rule: rev_cases) (auto simp: proper_name_def)
  have c: "c \<noteq> CHR ''/''" using assms(2) w by (auto simp: proper_name_def)
  obtain v where v: "path_of r (xs @ [w]) = v @ w"
  proof -
    have "\<exists>v. join_with (CHR ''/'') (xs @ [w]) = v @ w"
    proof (induction xs)
      case (Cons x xs)
      then obtain v where "join_with (CHR ''/'') (xs @ [w]) = v @ w" by blast
      then show ?case by (simp add: join_Cons)
    qed simp
    then obtain v where "join_with (CHR ''/'') (xs @ [w]) = v @ w" by blast
    then show ?thesis using that [of "(if r then [CHR ''/''] else []) @ v"] by (simp add: path_of_def)
  qed
  have "rev (dropWhile (\<lambda>ch. ch = CHR ''/'') (rev (path_of r (xs @ [w])))) = path_of r (xs @ [w])"
    using v w c by simp
  moreover have "last (split_on (CHR ''/'') (path_of r (xs @ [w]))) = w"
    using join_proper_split [OF ws] by (simp add: path_of_def)
  ultimately show ?thesis using path_of_ne [OF ws] by (simp add: Base_def Let_def)
qed

lemma gentx_copy_dst:
  assumes "layout_ok d p" "CHR ''/'' \<notin> set nodeID"
  shows "filepath_Join [filepath_Join [node_dir d p j, ''config'', ''gentx''], Base (gentx_file d p k nodeID)] =
    gentx_file d p j nodeID"
proof -
  have n: "proper_name (nodeDirName p i)" for i
    using assms nodeDirName_proper by (simp add: layout_ok_def)
  let ?g = "''gentx-'' @ nodeID @ ''.json''"
  let ?xs = "\<lambda>j. clean_components d @ [nodeDirName p j, ''config'', ''gentx'']"
  have p: "list_all proper_name (?xs j)" for j using assms n config_proper by (simp add: layout_ok_def)
  have "Base (gentx_file d p k nodeID) = ?g"
    using Base_path_of [OF p gentx_name_proper [OF assms(2)], of "IsAbs d" k] gentx_file_eq [OF assms]
    by simp
  then show ?thesis
    using filepath_Join_eq [of "path_of (IsAbs d) (?xs j)" "[?g]"] path_of_ne [OF p [of j]]
      clean_path_of [OF p [of j]] IsAbs_path_of [OF p [of j]] gentx_name_proper [OF assms(2)]
      gentx_file_eq [OF assms] gentxs_dir_eq [OF assms(1)]
    by simp
qed

lemma nodeDirName_inj: "nodeDirName p i = nodeDirName p j \<longleftrightarrow> i = j"
  by (simp add: nodeDirName_def)

text \<open>A genesis transaction is in the directory of its own node only.\<close>

lemma gentx_inside:
  assumes "layout_ok d p" "CHR ''/'' \<notin> set nodeID" "IsAbs wd"
  shows "isSubDir (Ok wd) (gentx_file d p k nodeID) (filepath_Join [node_dir d p j, ''config'', ''gentx'']) =
    Ok (j = k)"
proof -
  have n: "proper_name (nodeDirName p i)" for i
    using assms nodeDirName_proper by (simp add: layout_ok_def)
  have "list_all proper_name (clean_components d @ [nodeDirName p k, ''config'', ''gentx'', ''gentx-'' @ nodeID @ ''.json''])"
    "list_all proper_name (clean_components d @ [nodeDirName p j, ''config'', ''gentx''])"
    using assms n config_proper gentx_name_proper [OF assms(2)] by (simp_all add: layout_ok_def)
  then show ?thesis
    unfolding gentx_file_eq [OF assms(1,2)] gentxs_dir_eq [OF assms(1)]
    by (subst isSubDir_proper [OF _ _ _ _ assms(3)])
      (auto simp: nodeDirName_inj has_prefix_def split: list.split)
qed

lemma path_of_inj:
  "list_all proper_name xs \<Longrightarrow> xs \<noteq> [] \<Longrightarrow> list_all proper_name ys \<Longrightarrow> ys \<noteq> [] \<Longrightarrow>
   path_of r xs = path_of r ys \<Longrightarrow> xs = ys"
  using clean_path_of by metis

lemma gentx_file_inj:
  assumes "layout_ok d p" "CHR ''/'' \<notin> set a" "CHR ''/'' \<notin> set b"
  shows "gentx_file d p i a = gentx_file d p j b \<longleftrightarrow> i = j \<and> a = b"
proof
  have n: "proper_name (nodeDirName p i)" for i
    using assms nodeDirName_proper by (simp add: layout_ok_def)
  assume "gentx_file d p i a = gentx_file d p j b"
  then have "clean_components d @ [nodeDirName p i, ''config'', ''gentx'', ''gentx-'' @ a @ ''.json''] =
      clean_components d @ [nodeDirName p j, ''config'', ''gentx'', ''gentx-'' @ b @ ''.json'']"
    unfolding gentx_file_eq [OF assms(1,2)] gentx_file_eq [OF assms(1,3)]
    using assms n config_proper gentx_name_proper
    by (intro path_of_inj [of _ _ "IsAbs d"]) (simp_all add: layout_ok_def)
  then show "i = j \<and> a = b" by (simp add: nodeDirName_inj)
qed simp

section \<open>Every node gets every genesis transaction\<close>

definition ids_ok :: "string list \<Rightarrow> bool" where
  "ids_ok ids \<longleftrightarrow> distinct ids \<and> list_all (\<lambda>s. CHR ''/'' \<notin> set s) ids"

text \<open>
  The files after the pairs \<open>S\<close> of a node and a transaction have been handled: each transaction
  stands in the nodes of its pairs, those that were copied exist, and no other path has changed.
\<close>

definition spread ::
  "(nat \<Rightarrow> nat \<Rightarrow> string) \<Rightarrow> (nat \<times> nat) set \<Rightarrow> (string \<Rightarrow> bytes option) \<Rightarrow> (string \<Rightarrow> bytes option) \<Rightarrow> bool" where
  "spread path S before after \<longleftrightarrow>
     (\<forall>(j, k) \<in> S. after (path j k) = before (path k k) \<and> (j \<noteq> k \<longrightarrow> after (path j k) \<noteq> None)) \<and>
     (\<forall>q. (\<forall>(j, k) \<in> S. j \<noteq> k \<longrightarrow> q \<noteq> path j k) \<longrightarrow> after q = before q)"

lemma spread_at:
  assumes "spread path S m m'" "(j, k) \<in> S"
  shows "m' (path j k) = m (path k k)" "j \<noteq> k \<Longrightarrow> m' (path j k) \<noteq> None"
proof -
  have "case (j, k) of (j, k) \<Rightarrow> m' (path j k) = m (path k k) \<and> (j \<noteq> k \<longrightarrow> m' (path j k) \<noteq> None)"
    using assms unfolding spread_def by (elim conjE) (rule bspec)
  then show "m' (path j k) = m (path k k)" "j \<noteq> k \<Longrightarrow> m' (path j k) \<noteq> None"
    unfolding prod.case by blast+
qed

lemma spread_elsewhere:
  "spread path S m m' \<Longrightarrow> (\<And>j k. (j, k) \<in> S \<Longrightarrow> q \<noteq> path j k) \<Longrightarrow> m' q = m q"
  unfolding spread_def by blast

definition apart :: "nat \<Rightarrow> (nat \<Rightarrow> nat \<Rightarrow> string) \<Rightarrow> bool" where
  "apart n path \<longleftrightarrow> (\<forall>a b j k. b < n \<longrightarrow> k < n \<longrightarrow> path a b = path j k \<longrightarrow> a = j \<and> b = k)"

lemma spread_origin:
  assumes "spread path S m m'" "S \<subseteq> UNIV \<times> {0..<n}" "apart n path" "k < n"
  shows "m' (path k k) = m (path k k)"
proof -
  have "path k k \<noteq> path a b" if "(a, b) \<in> S" "a \<noteq> b" for a b
  proof -
    have "b < n" using that assms(2) by auto
    then show ?thesis using assms(3,4) that(2) unfolding apart_def by metis
  qed
  then have "\<forall>(a, b) \<in> S. a \<noteq> b \<longrightarrow> path k k \<noteq> path a b" by blast
  then show ?thesis using assms(1) unfolding spread_def by blast
qed

lemma spread_same:
  assumes "spread path S m m'" "S \<subseteq> UNIV \<times> {0..<n}" "apart n path" "k < n"
  shows "spread path (insert (k, k) S) m m'"
  using assms(1) spread_origin [OF assms] unfolding spread_def by auto

lemma spread_copy:
  assumes sp: "spread path S m m'" "S \<subseteq> UNIV \<times> {0..<n}" "apart n path" "k < n" and "j \<noteq> k"
    and "m' (path k k) = Some b" "m'' = m'(path j k \<mapsto> b)"
  shows "spread path (insert (j, k) S) m m''"
proof -
  have b: "m (path k k) = Some b" using spread_origin [OF sp] assms(6) by simp
  have old: "m'' (path x y) = m (path y y) \<and> (x \<noteq> y \<longrightarrow> m'' (path x y) \<noteq> None)" if "(x, y) \<in> S" for x y
  proof (cases "path x y = path j k")
    case True
    moreover have "y < n" using that sp(2) by auto
    ultimately have "y = k" using sp(3,4) unfolding apart_def by metis
    then show ?thesis using True assms(7) b by simp
  next
    case False
    then show ?thesis using that sp(1) assms(7) by (auto simp: spread_def)
  qed
  show ?thesis
    unfolding spread_def
  proof (intro conjI ballI allI impI)
    fix xy assume "xy \<in> insert (j, k) S"
    then obtain x y where xy: "xy = (x, y)" and "(x, y) = (j, k) \<or> (x, y) \<in> S" by (cases xy) blast
    moreover have "m'' (path j k) = Some b" using assms(7) by simp
    ultimately have "m'' (path x y) = m (path y y) \<and> (x \<noteq> y \<longrightarrow> m'' (path x y) \<noteq> None)"
      using old b by auto
    then show "case xy of (x, y) \<Rightarrow> m'' (path x y) = m (path y y) \<and> (x \<noteq> y \<longrightarrow> m'' (path x y) \<noteq> None)"
      unfolding xy prod.case .
  next
    fix q
    assume q: "\<forall>(x, y) \<in> insert (j, k) S. x \<noteq> y \<longrightarrow> q \<noteq> path x y"
    then have "q \<noteq> path j k" "m' q = m q" using sp(1) assms(5) by (auto simp: spread_def)
    then show "m'' q = m q" using assms(7) by simp
  qed
qed

lemma gentx_apart:
  assumes "layout_ok d p" "ids_ok ids"
  shows "apart (length ids) (\<lambda>j k. gentx_file d p j (ids ! k))"
proof -
  have "a = j \<and> b = k" if "b < length ids" "k < length ids"
    and "gentx_file d p a (ids ! b) = gentx_file d p j (ids ! k)" for a b j k
  proof -
    have "CHR ''/'' \<notin> set (ids ! b)" "CHR ''/'' \<notin> set (ids ! k)"
      using assms(2) that(1,2) by (simp_all add: ids_ok_def list_all_length)
    then have "a = j \<and> ids ! b = ids ! k" using gentx_file_inj [OF assms(1)] that(3) by simp
    then show ?thesis using assms(2) that(1,2) by (simp add: ids_ok_def nth_eq_iff_index_eq)
  qed
  then show ?thesis unfolding apart_def by blast
qed

context file_store begin

lemma copy_gentx_spread:
  assumes lay: "layout_ok d p" and ids: "ids_ok ids" and wd: "os_Getwd os = Ok wd" "IsAbs wd"
    and k: "k < length ids"
    and sp: "spread (\<lambda>j k. gentx_file d p j (ids ! k)) S m (fs g)" "S \<subseteq> UNIV \<times> {0..<length ids}"
    and run: "copy_gentx os (filepath_Join [node_dir d p j, ''config'', ''gentx''])
        (gentx_file d p k (ids ! k)) g = (Ok (), h)"
  shows "spread (\<lambda>j k. gentx_file d p j (ids ! k)) (insert (j, k) S) m (fs h)"
proof -
  let ?path = "\<lambda>j k. gentx_file d p j (ids ! k)"
  let ?dir = "filepath_Join [node_dir d p j, ''config'', ''gentx'']"
  note ap = gentx_apart [OF lay ids]
  have sl: "CHR ''/'' \<notin> set (ids ! k)" using ids k by (auto simp: ids_ok_def list_all_length)
  note inside = gentx_inside [OF lay sl wd(2), of k j]
  show ?thesis
  proof (cases "j = k")
    case True
    then have "h = g" using run inside wd(1) by (simp add: copy_gentx_def)
    then show ?thesis using spread_same [OF sp ap k] True by simp
  next
    case False
    then obtain n where c: "copyFile os (?path k k) ?dir g = (Ok n, h)"
      using run inside wd(1) by (auto simp: copy_gentx_def chain_st_Ok_iff)
    have dst: "filepath_Join [?dir, Base (?path k k)] = ?path j k"
      by (rule gentx_copy_dst [OF lay sl])
    have "?path k k \<noteq> ?path j k" using ap k False unfolding apart_def by metis
    then obtain b where "fs g (?path k k) = Some b" "fs h = (fs g)(?path j k \<mapsto> b)"
      using copyFile_Ok [OF c] dst by auto
    then show ?thesis by (rule spread_copy [OF sp ap k False])
  qed
qed

lemma copy_gentxs_spread:
  assumes lay: "layout_ok d p" and ids: "ids_ok ids" and wd: "os_Getwd os = Ok wd" "IsAbs wd"
    and run: "copy_gentxs os d p (length ids) (map (\<lambda>k. gentx_file d p k (ids ! k)) [0..<length ids]) f = (Ok (), t)"
  shows "spread (\<lambda>j k. gentx_file d p j (ids ! k)) ({0..<length ids} \<times> {0..<length ids}) (fs f) (fs t)"
proof -
  let ?n = "length ids" and ?path = "\<lambda>j k. gentx_file d p j (ids ! k)"
  let ?files = "map (\<lambda>k. ?path k k) [0..<?n]"
  let ?P = "\<lambda>js g. spread ?path (set js \<times> {0..<?n}) (fs f) (fs g)"
  have "?P [0..<?n] t"
  proof (rule for_each_prefix [OF run [unfolded copy_gentxs_def], where P = ?P])
    show "?P [] f" by (simp add: spread_def)
    fix js j rest g h
    assume "?P js g" and inner: "for_each (copy_gentx os (filepath_Join [node_dir d p j, ''config'', ''gentx'']))
        ?files g = (Ok (), h)"
    let ?Q = "\<lambda>paths g. spread ?path (set js \<times> {0..<?n} \<union> {j} \<times> {0..<length paths}) (fs f) (fs g)"
    have "?Q ?files h"
    proof (rule for_each_prefix [OF inner, where P = ?Q])
      show "?Q [] g" using \<open>?P js g\<close> by simp
      fix paths x rest u v
      assume eq: "?files = paths @ x # rest" and q: "?Q paths u"
        and step: "copy_gentx os (filepath_Join [node_dir d p j, ''config'', ''gentx'']) x u = (Ok (), v)"
      let ?k = "length paths"
      have k: "?k < ?n" using arg_cong [OF eq, of length] by simp
      have x: "x = ?path ?k ?k" using arg_cong [OF eq, of "\<lambda>l. l ! ?k"] k by (simp add: nth_append)
      have "insert (j, ?k) (set js \<times> {0..<?n} \<union> {j} \<times> {0..<?k}) =
          set js \<times> {0..<?n} \<union> {j} \<times> {0..<length (paths @ [x])}" by auto
      moreover have "set js \<times> {0..<?n} \<union> {j} \<times> {0..<?k} \<subseteq> UNIV \<times> {0..<?n}" using k by auto
      ultimately show "?Q (paths @ [x]) v"
        using copy_gentx_spread [OF lay ids wd k q _ step [unfolded x]] by simp
    qed
    moreover have "set js \<times> {0..<?n} \<union> {j} \<times> {0..<length ?files} = set (js @ [j]) \<times> {0..<?n}" by auto
    ultimately show "?P (js @ [j]) h" by simp
  qed
  then show ?thesis by simp
qed

end

end
