(* ===== verification/Testnet_MultiNode.thy ===== *)
theory Testnet_MultiNode
  imports Testnet_Files
begin

text \<open>
  cmd/pulsard/cmd/testnet_multi_node.go: the command \<open>multi-node\<close>, which writes the directories of
  \<open>n\<close> validators.

  The calls into cometbft, the SDK's key ring, its transaction builder and the genesis helpers are
  fields of \<open>testnet_env\<close>. \<open>'f\<close> is the file system, \<open>'k\<close> a key ring, \<open>'m\<close> a message,
  \<open>'t\<close> a transaction builder and \<open>'g\<close> a genesis file that was read. The two configurations, which the
  code changes through a pointer, and the lists that the loop fills are the fields of \<open>node_setup\<close>.
\<close>

section \<open>Arguments\<close>

type_synonym coin = "string \<times> int"

record initArgs =
  ia_algo :: string
  ia_chainID :: string
  ia_keyringBackend :: string
  ia_minGasPrices :: string
  ia_nodeDirPrefix :: string
  ia_numValidators :: int
  ia_outputDir :: string
  ia_startingIPAddress :: string
  ia_validatorsStakesAmount :: "nat \<rightharpoonup> coin"
  ia_ports :: "nat \<rightharpoonup> string"

definition flagNodeDirPrefix :: string where "flagNodeDirPrefix = ''node-dir-prefix''"
definition flagPorts :: string where "flagPorts = ''list-ports''"
definition flagNumValidators :: string where "flagNumValidators = ''v''"
definition flagOutputDir :: string where "flagOutputDir = ''output-dir''"
definition flagValidatorsStakeAmount :: string where
  "flagValidatorsStakeAmount = ''validators-stake-amount''"
definition flagStartingIPAddress :: string where "flagStartingIPAddress = ''starting-ip-address''"

text \<open>
  The flags that \<open>NewTestnetMultiNodeCmd\<close> and \<open>addTestnetFlagsToCmd\<close> declare, with their defaults, and
  the old name of one of them. The SDK's flag names, its bond denomination and the default key
  type are arguments.
\<close>

datatype flag_value = FlagInt int | FlagString string

record sdk_flags =
  sf_KeyringBackend :: string
  sf_ChainID :: string
  sf_MinGasPrices :: string
  sf_KeyType :: string

definition testnet_flags :: "sdk_flags \<Rightarrow> string \<Rightarrow> string \<Rightarrow> (string \<times> flag_value) list" where
  "testnet_flags names bondDenom secp256k1 =
     [(flagNumValidators, FlagInt 4),
      (flagOutputDir, FlagString ''./.testnets''),
      (sf_ChainID names, FlagString []),
      (sf_MinGasPrices names, FlagString (''0.0001'' @ bondDenom)),
      (sf_KeyType names, FlagString secp256k1)]"

definition multi_node_flags :: "sdk_flags \<Rightarrow> string \<Rightarrow> string \<Rightarrow> (string \<times> flag_value) list" where
  "multi_node_flags names bondDenom secp256k1 =
     testnet_flags names bondDenom secp256k1 @
     [(flagPorts, FlagString []),
      (flagNodeDirPrefix, FlagString ''validator''),
      (flagValidatorsStakeAmount, FlagString ''100000000,100000000,100000000,100000000''),
      (flagStartingIPAddress, FlagString ''localhost''),
      (sf_KeyringBackend names, FlagString ''test'')]"

definition normalize_flag :: "sdk_flags \<Rightarrow> string \<Rightarrow> string" where
  "normalize_flag names name = (if name = ''algo'' then sf_KeyType names else name)"

text \<open>The flags the command reads, and the SDK's names and functions that reading them needs.\<close>

record flag_set =
  fl_GetString :: "string \<Rightarrow> (go_error, string) outcome"
  fl_GetInt :: "string \<Rightarrow> (go_error, int) outcome"
  fl_KeyringBackend :: string
  fl_ChainID :: string
  fl_MinGasPrices :: string
  fl_KeyType :: string
  fl_NewIntFromString :: "string \<Rightarrow> int option"
  fl_NewCoin :: "string \<Rightarrow> int \<Rightarrow> (go_error, coin) outcome"
  fl_DefaultBondDenom :: string

text \<open>\<open>x, _ = Get(...)\<close>: the zero value after an error.\<close>

fun or_zero :: "'a \<Rightarrow> (go_error, 'a) outcome \<Rightarrow> (go_error, 'a) outcome" where
  "or_zero z (Err e) = Ok z"
| "or_zero z r = r"

text \<open>The loop over the amounts: one that is no number is skipped and takes no index.\<close>

fun parse_stakes ::
  "flag_set \<Rightarrow> string list \<Rightarrow> nat \<Rightarrow> (nat \<rightharpoonup> coin) \<Rightarrow> (go_error, nat \<rightharpoonup> coin) outcome" where
  "parse_stakes fl [] tp m = Ok m"
| "parse_stakes fl (amount # rest) tp m =
     (case fl_NewIntFromString fl amount of
        None \<Rightarrow> parse_stakes fl rest tp m
      | Some a \<Rightarrow> chain (fl_NewCoin fl (fl_DefaultBondDenom fl) a)
          (\<lambda>c. parse_stakes fl rest (tp + 1) (m(tp \<mapsto> c))))"

fun number_ports :: "string list \<Rightarrow> nat \<Rightarrow> (nat \<rightharpoonup> string) \<Rightarrow> (nat \<rightharpoonup> string)" where
  "number_ports [] tp m = m"
| "number_ports (p # ps) tp m = number_ports ps (tp + 1) (m(tp \<mapsto> p))"

text \<open>\<open>strconv.Itoa(base + step*i)\<close>, the step negative where the code subtracts.\<close>

definition port :: "int \<Rightarrow> int \<Rightarrow> nat \<Rightarrow> string" where
  "port start step i = Itoa (int64 (start + int64 (step * int i)))"

definition parse_ports :: "int \<Rightarrow> string \<Rightarrow> (nat \<rightharpoonup> string)" where
  "parse_ports numValidators s =
     (if s = [] then number_ports (map (port 26657 (-3)) [0..<nat numValidators]) 0 Map.empty
      else number_ports (split_on (CHR '','') s) 0 Map.empty)"

definition read_args :: "flag_set \<Rightarrow> (go_error, initArgs) outcome" where
  "read_args fl =
     chain (or_zero [] (fl_GetString fl flagOutputDir)) (\<lambda>outDir.
     chain (or_zero [] (fl_GetString fl (fl_KeyringBackend fl))) (\<lambda>backend.
     chain (or_zero [] (fl_GetString fl (fl_ChainID fl))) (\<lambda>chain_id.
     chain (or_zero [] (fl_GetString fl (fl_MinGasPrices fl))) (\<lambda>minGas.
     chain (or_zero [] (fl_GetString fl flagNodeDirPrefix)) (\<lambda>dirPrefix.
     chain (or_zero [] (fl_GetString fl flagStartingIPAddress)) (\<lambda>ip.
     chain (or_zero 0 (fl_GetInt fl flagNumValidators)) (\<lambda>n.
     chain (or_zero [] (fl_GetString fl (fl_KeyType fl))) (\<lambda>algo.
     chain (case fl_GetString fl flagValidatorsStakeAmount of
              Ok s \<Rightarrow> parse_stakes fl (split_on (CHR '','') s) 0 Map.empty
            | Err e \<Rightarrow> Ok Map.empty | Panic p \<Rightarrow> Panic p) (\<lambda>stakes.
     chain (case fl_GetString fl flagPorts of
              Ok s \<Rightarrow> Ok (parse_ports n s) | Err e \<Rightarrow> Ok Map.empty | Panic p \<Rightarrow> Panic p) (\<lambda>ports.
       Ok \<lparr>ia_algo = algo, ia_chainID = chain_id, ia_keyringBackend = backend,
           ia_minGasPrices = minGas, ia_nodeDirPrefix = dirPrefix, ia_numValidators = n,
           ia_outputDir = outDir, ia_startingIPAddress = ip,
           ia_validatorsStakesAmount = stakes, ia_ports = ports\<rparr>))))))))))"

text \<open>\<open>args.ports[i]\<close>: the zero value for a missing key.\<close>

definition port_of :: "initArgs \<Rightarrow> nat \<Rightarrow> string" where
  "port_of args i = (case ia_ports args i of Some p \<Rightarrow> p | None \<Rightarrow> [])"

section \<open>Configurations\<close>

record NodeConfig =
  nc_RootDir :: string
  nc_Moniker :: string
  nc_RPC_ListenAddress :: string
  nc_P2P_ListenAddress :: string
  nc_P2P_PersistentPeers :: string
  nc_P2P_AllowDuplicateIP :: bool
  nc_ProxyApp :: string
  nc_PrometheusListenAddr :: string
  nc_Prometheus :: bool

text \<open>\<open>MinGasPrices\<close> is a field of the embedded \<open>BaseConfig\<close>: the two assignments reach one field.\<close>

record AppToml =
  ac_MinGasPrices :: string
  ac_API_Enable :: bool
  ac_API_Address :: string
  ac_GRPC_Address :: string
  ac_EnableHostnameLabel :: bool
  ac_Telemetry_Enabled :: bool
  ac_PrometheusRetentionTime :: int

definition testnet_app_toml :: "string \<Rightarrow> string \<Rightarrow> AppToml \<Rightarrow> AppToml" where
  "testnet_app_toml bondDenom minGasPrices c =
     (let c = c\<lparr>ac_MinGasPrices := minGasPrices\<rparr>;
          c = c\<lparr>ac_API_Enable := False\<rparr>;
          c = c\<lparr>ac_MinGasPrices := ''0.0001'' @ bondDenom\<rparr>
      in c\<lparr>ac_EnableHostnameLabel := False, ac_Telemetry_Enabled := False,
           ac_PrometheusRetentionTime := 0\<rparr>)"

section \<open>The environment\<close>

record base_account =
  ba_Address :: string
  ba_AccountNumber :: nat
  ba_Sequence :: nat

record balance =
  bl_Address :: string
  bl_Coins :: "coin list"

record create_validator =
  cv_ValidatorAddress :: string
  cv_PubKey :: bytes
  cv_Value :: coin
  cv_Moniker :: string
  cv_Rates :: CommissionRates
  cv_MinSelfDelegation :: int

record 'k tx_factory =
  tf_ChainID :: string
  tf_Memo :: string
  tf_Keybase :: 'k

record init_config =
  ic_ChainID :: string
  ic_GenTxsDir :: string
  ic_NodeID :: string
  ic_ValPubKey :: bytes

text \<open>The genesis states of auth and bank: what the code sets, and the rest of the message.\<close>

record auth_genesis =
  ag_Accounts :: "bytes list"
  ag_rest :: bytes

record bank_genesis =
  bg_Balances :: "balance list"
  bg_Supply :: "coin list"
  bg_rest :: bytes

type_synonym 'f op = "'f \<Rightarrow> (go_error, unit) outcome \<times> 'f"

record ('f, 'k, 'm, 't, 'g) testnet_env =
  te_os :: "'f os"
  te_Intn :: "nat \<Rightarrow> nat \<Rightarrow> nat"
  te_Now :: int
  te_DefaultBondDenom :: string
  te_DefaultConfig :: AppToml
  te_KeyringServiceName :: string
  te_NewCoin :: "string \<Rightarrow> int \<Rightarrow> (go_error, coin) outcome"
  te_TokensFromConsensusPower :: "int \<Rightarrow> int"
  te_SortCoins :: "coin list \<Rightarrow> coin list"
  te_AddCoins :: "coin list \<Rightarrow> coin list \<Rightarrow> coin list"
  te_GenesisFile :: "NodeConfig \<Rightarrow> string"
  te_InitializeNodeValidatorFiles :: "NodeConfig \<Rightarrow> 'f \<Rightarrow> (go_error, string \<times> bytes) outcome \<times> 'f"
  te_NewKeyring :: "string \<Rightarrow> string \<Rightarrow> string \<Rightarrow> 'f \<Rightarrow> (go_error, 'k) outcome \<times> 'f"
  te_SupportedAlgorithms :: "'k \<Rightarrow> string list"
  te_NewSigningAlgo :: "string \<Rightarrow> string list \<Rightarrow> (go_error, string) outcome"
  te_GenerateSaveCoinKey ::
    "'k \<Rightarrow> string \<Rightarrow> string \<Rightarrow> bool \<Rightarrow> string \<Rightarrow> 'f \<Rightarrow> (go_error, bytes \<times> string) outcome \<times> 'f"
  te_MarshalInfo :: "(string \<times> string) list \<Rightarrow> (go_error, bytes) outcome"
  te_AccAddressString :: "bytes \<Rightarrow> string"
  te_ValAddressString :: "bytes \<Rightarrow> string"
  te_NewMsgCreateValidator :: "create_validator \<Rightarrow> (go_error, 'm) outcome"
  te_NewTxBuilder :: 't
  te_SetMsgs :: "'m \<Rightarrow> 't \<Rightarrow> (go_error, 't) outcome"
  te_SetMemo :: "string \<Rightarrow> 't \<Rightarrow> 't"
  te_Sign :: "'k tx_factory \<Rightarrow> string \<Rightarrow> 't \<Rightarrow> bool \<Rightarrow> 'f \<Rightarrow> (go_error, 't) outcome \<times> 'f"
  te_TxJSONEncoder :: "'t \<Rightarrow> (go_error, bytes) outcome"
  te_WriteAppToml :: "string \<Rightarrow> AppToml \<Rightarrow> 'f op"
  te_WriteNodeToml :: "string \<Rightarrow> NodeConfig \<Rightarrow> 'f op"
  te_DefaultGenesis :: "string \<rightharpoonup> bytes"
  te_UnmarshalAuth :: "bytes option \<Rightarrow> (go_error, auth_genesis) outcome"
  te_MarshalAuth :: "auth_genesis \<Rightarrow> (go_error, bytes) outcome"
  te_UnmarshalBank :: "bytes option \<Rightarrow> (go_error, bank_genesis) outcome"
  te_MarshalBank :: "bank_genesis \<Rightarrow> (go_error, bytes) outcome"
  te_PackAccounts :: "base_account list \<Rightarrow> (go_error, bytes list) outcome"
  te_SanitizeGenesisBalances :: "balance list \<Rightarrow> (go_error, balance list) outcome"
  te_MarshalIndent :: "(string \<rightharpoonup> bytes) \<Rightarrow> (go_error, bytes) outcome"
  te_SaveGenesisDoc :: "string \<Rightarrow> bytes \<Rightarrow> string \<Rightarrow> 'f op"
  te_AppGenesisFromFile :: "string \<Rightarrow> 'f \<Rightarrow> (go_error, 'g) outcome"
  te_GenAppStateFromConfig ::
    "NodeConfig \<Rightarrow> init_config \<Rightarrow> 'g \<Rightarrow> 'f \<Rightarrow> (go_error, bytes option \<times> NodeConfig) outcome \<times> 'f"
  te_ExportGenesisFileWithTime :: "string \<Rightarrow> string \<Rightarrow> bytes option \<Rightarrow> int \<Rightarrow> 'f op"

text \<open>The variables of the command while it runs.\<close>

record 'f node_setup =
  su_files :: 'f
  su_nodeConfig :: NodeConfig
  su_appConfig :: AppToml
  su_nodeIDs :: "string list"
  su_valPubKeys :: "bytes list"
  su_genAccounts :: "base_account list"
  su_genBalances :: "balance list"
  su_genFiles :: "string list"
  su_persistentPeers :: string
  su_gentxsFiles :: "string list"

text \<open>A call that may change the file system, and one whose error removes the output directory.\<close>

fun on_files :: "('f \<Rightarrow> (go_error, 'a) outcome \<times> 'f) \<Rightarrow> 'f node_setup \<Rightarrow> (go_error, 'a) outcome \<times> 'f node_setup" where
  "on_files call st = (case call (su_files st) of (r, f) \<Rightarrow> (r, st\<lparr>su_files := f\<rparr>))"

fun or_remove ::
  "'f os \<Rightarrow> string \<Rightarrow> (go_error, 'a) outcome \<times> 'f node_setup \<Rightarrow> (go_error, 'a) outcome \<times> 'f node_setup" where
  "or_remove os dir (Err e, st) = (Err e, st\<lparr>su_files := os_RemoveAll os dir (su_files st)\<rparr>)"
| "or_remove os dir r = r"

section \<open>Setting up one node\<close>

definition node_memo :: "initArgs \<Rightarrow> nat \<Rightarrow> string \<Rightarrow> string" where
  "node_memo args i nodeID =
     nodeID @ ''@'' @ ia_startingIPAddress args @ '':'' @ port 26656 (-3) i"

definition init_validator ::
  "('f, 'k, 'm, 't, 'g) testnet_env \<Rightarrow> initArgs \<Rightarrow> nat \<Rightarrow> 'f node_setup \<Rightarrow>
   (go_error, unit) outcome \<times> 'f node_setup" where
  "init_validator env args i st =
     (let outDir = ia_outputDir args;
          dirName = nodeDirName (ia_nodeDirPrefix args) i;
          nodeDir = filepath_Join [outDir, dirName];
          config = (su_nodeConfig st)\<lparr>nc_RootDir := nodeDir, nc_Moniker := dirName,
            nc_RPC_ListenAddress := ''tcp://0.0.0.0:'' @ port_of args i\<rparr>;
          st = st\<lparr>su_nodeConfig := config\<rparr>
      in chain_st (or_remove (te_os env) outDir
             (on_files (os_MkdirAll (te_os env) (filepath_Join [nodeDir, ''config''])) st)) (\<lambda>_ st.
         chain_st (or_remove (te_os env) outDir
             (on_files (te_InitializeNodeValidatorFiles env config) st)) (\<lambda>(nodeID, pk) st.
         let st = st\<lparr>su_nodeIDs := (su_nodeIDs st)[i := nodeID],
                     su_valPubKeys := (su_valPubKeys st)[i := pk]\<rparr>;
             memo = node_memo args i nodeID;
             peers = (if su_persistentPeers st = [] then memo else su_persistentPeers st @ '','' @ memo)
         in (Ok (), st\<lparr>su_persistentPeers := peers,
                       su_genFiles := su_genFiles st @ [te_GenesisFile env config]\<rparr>))))"

definition init_account ::
  "('f, 'k, 'm, 't, 'g) testnet_env \<Rightarrow> initArgs \<Rightarrow> nat \<Rightarrow> 'f node_setup \<Rightarrow>
   (go_error, 'k \<times> bytes) outcome \<times> 'f node_setup" where
  "init_account env args i st =
     (let outDir = ia_outputDir args;
          dirName = nodeDirName (ia_nodeDirPrefix args) i;
          nodeDir = filepath_Join [outDir, dirName]
      in chain_st (on_files (te_NewKeyring env (te_KeyringServiceName env) (ia_keyringBackend args) nodeDir) st)
           (\<lambda>kb st.
         chain_st (te_NewSigningAlgo env (ia_algo args) (te_SupportedAlgorithms env kb), st) (\<lambda>algo st.
         chain_st (or_remove (te_os env) outDir
             (on_files (te_GenerateSaveCoinKey env kb dirName [] True algo) st)) (\<lambda>(addr, secret) st.
         chain_st (te_MarshalInfo env [(''secret'', secret)], st) (\<lambda>cliPrint st.
         chain_st (on_files (writeFile (te_os env) (filepath_Join [nodeDir, ''key_seed.json'']) nodeDir cliPrint) st)
           (\<lambda>_ st.
         chain_st (te_NewCoin env ''testtoken'' (te_TokensFromConsensusPower env 1000), st) (\<lambda>tokens st.
         chain_st (te_NewCoin env (te_DefaultBondDenom env) (te_TokensFromConsensusPower env 500), st)
           (\<lambda>staking st.
         let address = te_AccAddressString env addr
         in (Ok (kb, addr), st\<lparr>
              su_genBalances := su_genBalances st @
                [\<lparr>bl_Address = address, bl_Coins = te_SortCoins env [tokens, staking]\<rparr>],
              su_genAccounts := su_genAccounts st @
                [\<lparr>ba_Address = address, ba_AccountNumber = 0, ba_Sequence = 0\<rparr>]\<rparr>)))))))))"

definition stake_of ::
  "('f, 'k, 'm, 't, 'g) testnet_env \<Rightarrow> initArgs \<Rightarrow> nat \<Rightarrow> (go_error, coin) outcome" where
  "stake_of env args i =
     (case ia_validatorsStakesAmount args i of
        Some c \<Rightarrow> Ok c
      | None \<Rightarrow> te_NewCoin env (te_DefaultBondDenom env) (te_TokensFromConsensusPower env 100))"

definition init_gentx ::
  "('f, 'k, 'm, 't, 'g) testnet_env \<Rightarrow> initArgs \<Rightarrow> nat \<Rightarrow> 'k \<times> bytes \<Rightarrow> 'f node_setup \<Rightarrow>
   (go_error, unit) outcome \<times> 'f node_setup" where
  "init_gentx env args i kb_addr st =
     (let (kb, addr) = kb_addr;
          dirName = nodeDirName (ia_nodeDirPrefix args) i;
          nodeID = su_nodeIDs st ! i;
          memo = node_memo args i nodeID;
          gentxsDir = filepath_Join [ia_outputDir args, dirName, ''config'', ''gentx'']
      in chain_st (stake_of env args i, st) (\<lambda>valTokens st.
         chain_st (te_NewMsgCreateValidator env
             \<lparr>cv_ValidatorAddress = te_ValAddressString env addr, cv_PubKey = su_valPubKeys st ! i,
              cv_Value = valTokens, cv_Moniker = dirName,
              cv_Rates = \<lparr>cr_Rate = dec_of 1 0, cr_MaxRate = dec_of 1 0, cr_MaxChangeRate = dec_of 1 0\<rparr>,
              cv_MinSelfDelegation = 1\<rparr>, st) (\<lambda>msg st.
         chain_st (te_SetMsgs env msg (te_NewTxBuilder env), st) (\<lambda>builder st.
         chain_st (on_files (te_Sign env
             \<lparr>tf_ChainID = ia_chainID args, tf_Memo = memo, tf_Keybase = kb\<rparr> dirName
             (te_SetMemo env memo builder) True) st) (\<lambda>builder st.
         chain_st (te_TxJSONEncoder env builder, st) (\<lambda>txBz st.
         let path = filepath_Join [gentxsDir, ''gentx-'' @ nodeID @ ''.json''];
             st = st\<lparr>su_gentxsFiles := su_gentxsFiles st @ [path]\<rparr>
         in on_files (writeFile (te_os env) path gentxsDir txBz) st))))))"

definition node_app_toml :: "initArgs \<Rightarrow> nat \<Rightarrow> AppToml \<Rightarrow> AppToml" where
  "node_app_toml args i c = c\<lparr>
     ac_GRPC_Address := ia_startingIPAddress args @ '':'' @ port 9090 (-2) i,
     ac_API_Address := ''tcp://localhost:'' @ port 1317 (-1) i\<rparr>"

definition init_app_toml ::
  "('f, 'k, 'm, 't, 'g) testnet_env \<Rightarrow> initArgs \<Rightarrow> nat \<Rightarrow> 'f node_setup \<Rightarrow>
   (go_error, unit) outcome \<times> 'f node_setup" where
  "init_app_toml env args i st =
     (let nodeDir = filepath_Join [ia_outputDir args, nodeDirName (ia_nodeDirPrefix args) i];
          c = node_app_toml args i (su_appConfig st);
          st = st\<lparr>su_appConfig := c\<rparr>
      in on_files (te_WriteAppToml env (filepath_Join [nodeDir, ''config'', ''app.toml'']) c) st)"

definition init_node ::
  "('f, 'k, 'm, 't, 'g) testnet_env \<Rightarrow> initArgs \<Rightarrow> nat \<Rightarrow> 'f node_setup \<Rightarrow>
   (go_error, unit) outcome \<times> 'f node_setup" where
  "init_node env args i st =
     chain_st (init_validator env args i st) (\<lambda>_ st.
     chain_st (init_account env args i st) (\<lambda>acc st.
     chain_st (init_gentx env args i acc st) (\<lambda>_ st.
     init_app_toml env args i st)))"

section \<open>The genesis files\<close>

fun must :: "(go_error, 'a) outcome \<Rightarrow> (go_error, 'a) outcome" where
  "must (Err e) = Panic (error_text e)"
| "must r = r"

definition auth_module :: string where "auth_module = ''auth''"
definition bank_module :: string where "bank_module = ''bank''"

definition initial_app_state ::
  "('f, 'k, 'm, 't, 'g) testnet_env \<Rightarrow> base_account list \<Rightarrow> balance list \<Rightarrow> (go_error, bytes) outcome" where
  "initial_app_state env genAccounts genBalances =
     (let appGenState = te_DefaultGenesis env in
      chain (must (te_UnmarshalAuth env (appGenState auth_module))) (\<lambda>authGenState.
      chain (te_PackAccounts env genAccounts) (\<lambda>accounts.
      chain (must (te_MarshalAuth env (authGenState\<lparr>ag_Accounts := accounts\<rparr>))) (\<lambda>authRaw.
      let appGenState = appGenState(auth_module \<mapsto> authRaw) in
      chain (must (te_UnmarshalBank env (appGenState bank_module))) (\<lambda>bankGenState.
      chain (te_SanitizeGenesisBalances env genBalances) (\<lambda>balances.
      let bankGenState = bankGenState\<lparr>bg_Balances := balances\<rparr>;
          bankGenState = bankGenState\<lparr>bg_Supply :=
            fold (\<lambda>bal supply. te_AddCoins env supply (bl_Coins bal)) (bg_Balances bankGenState)
              (bg_Supply bankGenState)\<rparr>
      in chain (must (te_MarshalBank env bankGenState)) (\<lambda>bankRaw.
         te_MarshalIndent env (appGenState(bank_module \<mapsto> bankRaw)))))))))"

definition initGenFiles ::
  "('f, 'k, 'm, 't, 'g) testnet_env \<Rightarrow> string \<Rightarrow> base_account list \<Rightarrow> balance list \<Rightarrow> string list \<Rightarrow> nat \<Rightarrow>
   'f op" where
  "initGenFiles env chain_id genAccounts genBalances genFiles numValidators f =
     chain_st (initial_app_state env genAccounts genBalances, f) (\<lambda>appState f.
       for_each (\<lambda>i f. chain_st (get_at genFiles (int i), f) (\<lambda>path f.
           te_SaveGenesisDoc env chain_id appState path f))
         [0..<numValidators] f)"

section \<open>Collecting the genesis transactions\<close>

text \<open>The configuration of node \<open>i\<close> as \<open>collectGenFiles\<close> writes it.\<close>

definition final_config :: "initArgs \<Rightarrow> string \<Rightarrow> nat \<Rightarrow> NodeConfig \<Rightarrow> NodeConfig" where
  "final_config args persistentPeers i c = c\<lparr>
     nc_P2P_PersistentPeers := persistentPeers,
     nc_P2P_AllowDuplicateIP := True,
     nc_P2P_ListenAddress := ''tcp://0.0.0.0:'' @ port 26656 (-3) i,
     nc_RPC_ListenAddress := ''tcp://127.0.0.1:'' @ port_of args i,
     nc_ProxyApp := ''tcp://127.0.0.1:'' @ port 26658 (-3) i,
     nc_PrometheusListenAddr := '':'' @ port 26660 1 i,
     nc_Prometheus := True\<rparr>"

text \<open>
  The loop body, over the canonical application state (\<open>None\<close> is Go's \<open>nil\<close>) and the
  configuration; \<open>genTime\<close> was read before the loop.
\<close>

record 'f collect_state =
  cs_files :: 'f
  cs_nodeConfig :: NodeConfig
  cs_appState :: "bytes option"

text \<open>\<open>if appState == nil { appState = nodeAppState }\<close>\<close>

definition canonical_state :: "bytes option \<Rightarrow> bytes option \<Rightarrow> bytes option" where
  "canonical_state appState nodeAppState = (if appState = None then nodeAppState else appState)"

fun on_collect ::
  "('f \<Rightarrow> (go_error, 'a) outcome \<times> 'f) \<Rightarrow> 'f collect_state \<Rightarrow> (go_error, 'a) outcome \<times> 'f collect_state" where
  "on_collect call st = (case call (cs_files st) of (r, f) \<Rightarrow> (r, st\<lparr>cs_files := f\<rparr>))"

definition collect_node ::
  "('f, 'k, 'm, 't, 'g) testnet_env \<Rightarrow> initArgs \<Rightarrow> string list \<Rightarrow> bytes list \<Rightarrow> string \<Rightarrow> int \<Rightarrow> nat \<Rightarrow>
   'f collect_state \<Rightarrow> (go_error, unit) outcome \<times> 'f collect_state" where
  "collect_node env args nodeIDs valPubKeys persistentPeers genTime i st =
     (let dirName = nodeDirName (ia_nodeDirPrefix args) i;
          nodeDir = filepath_Join [ia_outputDir args, dirName];
          gentxsDir = filepath_Join [nodeDir, ''config'', ''gentx''];
          config = (cs_nodeConfig st)\<lparr>nc_Moniker := dirName, nc_RootDir := nodeDir\<rparr>;
          st = st\<lparr>cs_nodeConfig := config\<rparr>
      in chain_st (get_at nodeIDs (int i), st) (\<lambda>nodeID st.
         chain_st (get_at valPubKeys (int i), st) (\<lambda>valPubKey st.
         let initCfg = \<lparr>ic_ChainID = ia_chainID args, ic_GenTxsDir = gentxsDir, ic_NodeID = nodeID,
               ic_ValPubKey = valPubKey\<rparr>
         in chain_st (te_AppGenesisFromFile env (te_GenesisFile env config) (cs_files st), st)
              (\<lambda>appGenesis st.
            chain_st (on_collect (te_GenAppStateFromConfig env config initCfg appGenesis) st)
              (\<lambda>(nodeAppState, config) st.
            let config = final_config args persistentPeers i config;
                st = st\<lparr>cs_nodeConfig := config\<rparr>
            in chain_st (on_collect (te_WriteNodeToml env
                   (filepath_Join [nc_RootDir config, ''config'', ''config.toml'']) config) st) (\<lambda>_ st.
               let st = st\<lparr>cs_appState := canonical_state (cs_appState st) nodeAppState\<rparr>
               in on_collect (te_ExportGenesisFileWithTime env (te_GenesisFile env config)
                    (ia_chainID args) (cs_appState st) genTime) st))))))"

definition collectGenFiles ::
  "('f, 'k, 'm, 't, 'g) testnet_env \<Rightarrow> initArgs \<Rightarrow> NodeConfig \<Rightarrow> string list \<Rightarrow> bytes list \<Rightarrow> string \<Rightarrow>
   'f \<Rightarrow> (go_error, unit) outcome \<times> 'f collect_state" where
  "collectGenFiles env args nodeConfig nodeIDs valPubKeys persistentPeers f =
     for_each (collect_node env args nodeIDs valPubKeys persistentPeers (te_Now env))
       [0..<nat (ia_numValidators args)]
       \<lparr>cs_files = f, cs_nodeConfig = nodeConfig, cs_appState = None\<rparr>"

section \<open>The command\<close>

definition charset :: string where "charset = ''abcdefghijklmnopqrstuvwxyz0123456789''"

definition generateRandomString :: "(nat \<Rightarrow> nat \<Rightarrow> nat) \<Rightarrow> nat \<Rightarrow> string" where
  "generateRandomString Intn n = map (\<lambda>i. charset ! Intn i (length charset)) [0..<n]"

definition makeslice_panic :: string where "makeslice_panic = ''makeslice: len out of range''"

definition init_setup ::
  "('f, 'k, 'm, 't, 'g) testnet_env \<Rightarrow> initArgs \<Rightarrow> NodeConfig \<Rightarrow> 'f \<Rightarrow> 'f node_setup" where
  "init_setup env args nodeConfig f =
     (let n = nat (ia_numValidators args) in
      \<lparr>su_files = f, su_nodeConfig = nodeConfig,
       su_appConfig = testnet_app_toml (te_DefaultBondDenom env) (ia_minGasPrices args) (te_DefaultConfig env),
       su_nodeIDs = replicate n [], su_valPubKeys = replicate n [], su_genAccounts = [],
       su_genBalances = [], su_genFiles = [], su_persistentPeers = [], su_gentxsFiles = []\<rparr>)"

definition choose_chain_id :: "('f, 'k, 'm, 't, 'g) testnet_env \<Rightarrow> initArgs \<Rightarrow> initArgs" where
  "choose_chain_id env args =
     (if ia_chainID args = []
      then args\<lparr>ia_chainID := ''chain-'' @ generateRandomString (te_Intn env) 6\<rparr> else args)"

definition finish_testnet ::
  "('f, 'k, 'm, 't, 'g) testnet_env \<Rightarrow> initArgs \<Rightarrow> 'f node_setup \<Rightarrow> (go_error, unit) outcome \<times> 'f" where
  "finish_testnet env args st =
     (let n = nat (ia_numValidators args) in
      chain_st (initGenFiles env (ia_chainID args) (su_genAccounts st) (su_genBalances st)
          (su_genFiles st) n (su_files st)) (\<lambda>_ f.
      chain_st (copy_gentxs (te_os env) (ia_outputDir args) (ia_nodeDirPrefix args) n (su_gentxsFiles st) f)
        (\<lambda>_ f.
      case collectGenFiles env args (su_nodeConfig st) (su_nodeIDs st) (su_valPubKeys st)
             (su_persistentPeers st) f of
        (r, st) \<Rightarrow> (r, cs_files st))))"

definition initTestnetFiles ::
  "('f, 'k, 'm, 't, 'g) testnet_env \<Rightarrow> NodeConfig \<Rightarrow> initArgs \<Rightarrow> 'f \<Rightarrow> (go_error, unit) outcome \<times> 'f" where
  "initTestnetFiles env nodeConfig args f =
     (let args = choose_chain_id env args in
      if ia_numValidators args < 0 then (Panic makeslice_panic, f)
      else (case for_each (init_node env args) [0..<nat (ia_numValidators args)]
                   (init_setup env args nodeConfig f) of
              (Ok _, st) \<Rightarrow> finish_testnet env args st
            | (Err e, st) \<Rightarrow> (Err e, su_files st)
            | (Panic p, st) \<Rightarrow> (Panic p, su_files st)))"

text \<open>\<open>RunE\<close>: the client context first, then the arguments, then the files.\<close>

definition multi_node ::
  "('f, 'k, 'm, 't, 'g) testnet_env \<Rightarrow> (go_error, unit) outcome \<Rightarrow> NodeConfig \<Rightarrow> flag_set \<Rightarrow>
   'f \<Rightarrow> (go_error, unit) outcome \<times> 'f" where
  "multi_node env clientCtx config fl f =
     chain_st (clientCtx, f) (\<lambda>_ f.
     chain_st (read_args fl, f) (\<lambda>args f.
       initTestnetFiles env config args f))"

section \<open>What the arguments become\<close>

lemma number_ports_eq:
  "number_ports ps n m i = (if n \<le> i \<and> i < n + length ps then Some (ps ! (i - n)) else m i)"
proof (induction ps arbitrary: n m)
  case (Cons p ps)
  show ?case
  proof (cases "i = n")
    case True
    then show ?thesis unfolding number_ports.simps Cons.IH by simp
  next
    case False
    then have "n \<le> i \<Longrightarrow> i - n = Suc (i - Suc n)" by simp
    moreover have "(m(n \<mapsto> p)) i = m i" using False by simp
    ultimately show ?thesis
      unfolding number_ports.simps Cons.IH using False by auto
  qed
qed auto

lemma parse_ports_default:
  "i < nat n \<Longrightarrow> parse_ports n [] i = Some (port 26657 (-3) i)"
  by (simp add: parse_ports_def number_ports_eq)

lemma parse_ports_list:
  "s \<noteq> [] \<Longrightarrow> parse_ports n s i =
     (if i < length (split_on (CHR '','') s) then Some (split_on (CHR '','') s ! i) else None)"
  by (simp add: parse_ports_def number_ports_eq)

text \<open>The amounts that are numbers, in order: the index of a stake counts only these.\<close>

definition amounts :: "flag_set \<Rightarrow> string list \<Rightarrow> int list" where
  "amounts fl xs = List.map_filter (fl_NewIntFromString fl) xs"

lemma parse_stakes_eq:
  assumes "parse_stakes fl xs n m = Ok r"
  shows "(\<forall>i < length (amounts fl xs).
      \<exists>c. fl_NewCoin fl (fl_DefaultBondDenom fl) (amounts fl xs ! i) = Ok c \<and> r (n + i) = Some c) \<and>
    (\<forall>j. j < n \<or> n + length (amounts fl xs) \<le> j \<longrightarrow> r j = m j)"
  using assms
proof (induction xs arbitrary: n m)
  case Nil
  then show ?case by (simp add: amounts_def map_filter_simps)
next
  case (Cons x xs)
  show ?case
  proof (cases "fl_NewIntFromString fl x")
    case None
    then have r: "parse_stakes fl xs n m = Ok r" and am: "amounts fl (x # xs) = amounts fl xs"
      using Cons.prems by (simp_all add: amounts_def map_filter_simps)
    show ?thesis unfolding am by (rule Cons.IH [OF r])
  next
    case (Some a)
    then obtain c where c: "fl_NewCoin fl (fl_DefaultBondDenom fl) a = Ok c"
      and r: "parse_stakes fl xs (n + 1) (m(n \<mapsto> c)) = Ok r"
      using Cons.prems by (auto simp: outcome_simps)
    have am: "amounts fl (x # xs) = a # amounts fl xs"
      using Some by (simp add: amounts_def map_filter_simps)
    from Cons.IH [OF r] have
      ih: "i < length (amounts fl xs) \<Longrightarrow>
        \<exists>c. fl_NewCoin fl (fl_DefaultBondDenom fl) (amounts fl xs ! i) = Ok c \<and> r (n + 1 + i) = Some c"
      and rest: "j < n + 1 \<or> n + 1 + length (amounts fl xs) \<le> j \<Longrightarrow> r j = (m(n \<mapsto> c)) j" for i j
      by blast+
    have n: "r n = Some c" using rest [of n] by simp
    have "\<exists>c. fl_NewCoin fl (fl_DefaultBondDenom fl) (amounts fl (x # xs) ! i) = Ok c \<and> r (n + i) = Some c"
      if "i < length (amounts fl (x # xs))" for i
    proof (cases i)
      case 0
      then show ?thesis using n c am by simp
    next
      case (Suc k)
      then show ?thesis using ih [of k] that am by simp
    qed
    moreover have "r j = m j" if "j < n \<or> n + length (amounts fl (x # xs)) \<le> j" for j
      using rest [of j] that am by auto
    ultimately show ?thesis by blast
  qed
qed

text \<open>The default of the stake flag is one amount for each of the default number of validators.\<close>

lemma default_stakes:
  assumes "(flagValidatorsStakeAmount, FlagString s) \<in> set (multi_node_flags names denom key)"
    and "flagValidatorsStakeAmount \<notin> {sf_ChainID names, sf_MinGasPrices names, sf_KeyType names, sf_KeyringBackend names}"
    and "fl_NewIntFromString fl ''100000000'' = Some 100000000"
  shows "(flagNumValidators, FlagInt (int (length (amounts fl (split_on (CHR '','') s))))) \<in>
      set (multi_node_flags names denom key) \<and>
    set (amounts fl (split_on (CHR '','') s)) = {100000000}"
proof -
  have "s = ''100000000,100000000,100000000,100000000''"
    using assms(1,2) by (auto simp: multi_node_flags_def testnet_flags_def flagValidatorsStakeAmount_def
        flagOutputDir_def flagPorts_def flagNodeDirPrefix_def flagStartingIPAddress_def)
  then have "amounts fl (split_on (CHR '','') s) = [100000000, 100000000, 100000000, 100000000]"
    using assms(3) by (simp add: amounts_def map_filter_simps)
  then show ?thesis by (simp add: multi_node_flags_def testnet_flags_def)
qed

section \<open>Ports\<close>

lemma port_eq: "\<bar>start\<bar> < 2 ^ 61 \<Longrightarrow> \<bar>step * int i\<bar> < 2 ^ 61 \<Longrightarrow> port start step i = Itoa (start + step * int i)"
  by (simp add: port_def int64_id)

datatype service = RPC | P2P | Proxy | Prometheus | GRPC | API

fun port_number :: "service \<Rightarrow> nat \<Rightarrow> int" where
  "port_number RPC i = 26657 - 3 * int i"
| "port_number P2P i = 26656 - 3 * int i"
| "port_number Proxy i = 26658 - 3 * int i"
| "port_number Prometheus i = 26660 + int i"
| "port_number GRPC i = 9090 - 2 * int i"
| "port_number API i = 1317 - int i"

fun service_port :: "service \<Rightarrow> nat \<Rightarrow> string" where
  "service_port RPC i = port 26657 (-3) i"
| "service_port P2P i = port 26656 (-3) i"
| "service_port Proxy i = port 26658 (-3) i"
| "service_port Prometheus i = port 26660 1 i"
| "service_port GRPC i = port 9090 (-2) i"
| "service_port API i = port 1317 (-1) i"

lemma service_port_Itoa: "i < 1317 \<Longrightarrow> service_port s i = Itoa (port_number s i)"
  by (cases s) (simp_all add: port_eq)

lemma port_number_range: "i < 1317 \<Longrightarrow> 0 < port_number s i \<and> port_number s i < 65536"
  by (cases s) simp_all

lemma port_number_inj:
  "i < 1317 \<Longrightarrow> j < 1317 \<Longrightarrow> port_number s i = port_number t j \<Longrightarrow> s = t \<and> i = j"
  by (cases s; cases t; simp; presburger)

section \<open>The loop over the nodes\<close>

lemma or_remove_Ok [outcome_simps]: "or_remove os d r = (Ok a, s) \<longleftrightarrow> r = (Ok a, s)"
  by (cases "(os, d, r)" rule: or_remove.cases) auto

lemma on_files_Ok [outcome_simps]:
  "on_files call st = (Ok a, s) \<longleftrightarrow> (\<exists>f. call (su_files st) = (Ok a, f) \<and> s = st\<lparr>su_files := f\<rparr>)"
  by (auto split: prod.splits)

declare on_files.simps [simp del]

lemma init_account_Ok:
  "init_account env args i st = (Ok r, t) \<Longrightarrow>
     su_nodeIDs t = su_nodeIDs st \<and> su_valPubKeys t = su_valPubKeys st \<and> su_genFiles t = su_genFiles st \<and>
     su_persistentPeers t = su_persistentPeers st \<and> su_gentxsFiles t = su_gentxsFiles st \<and>
     length (su_genBalances t) = Suc (length (su_genBalances st)) \<and>
     map bl_Address (su_genBalances t) = map bl_Address (su_genBalances st) @ [te_AccAddressString env (snd r)] \<and>
     map ba_Address (su_genAccounts t) = map ba_Address (su_genAccounts st) @ [te_AccAddressString env (snd r)]"
  by (auto simp: init_account_def Let_def outcome_simps)

lemma init_gentx_Ok:
  "init_gentx env args i acc st = (Ok r, t) \<Longrightarrow>
     su_nodeIDs t = su_nodeIDs st \<and> su_valPubKeys t = su_valPubKeys st \<and> su_genFiles t = su_genFiles st \<and>
     su_persistentPeers t = su_persistentPeers st \<and>
     su_genBalances t = su_genBalances st \<and> su_genAccounts t = su_genAccounts st \<and>
     su_gentxsFiles t = su_gentxsFiles st @
       [gentx_file (ia_outputDir args) (ia_nodeDirPrefix args) i (su_nodeIDs st ! i)]"
  by (auto simp: init_gentx_def Let_def outcome_simps gentx_file_def split: prod.splits)

lemma init_app_toml_Ok:
  "init_app_toml env args i st = (Ok r, t) \<Longrightarrow>
     su_nodeIDs t = su_nodeIDs st \<and> su_valPubKeys t = su_valPubKeys st \<and> su_genFiles t = su_genFiles st \<and>
     su_persistentPeers t = su_persistentPeers st \<and> su_gentxsFiles t = su_gentxsFiles st \<and>
     su_genBalances t = su_genBalances st \<and> su_genAccounts t = su_genAccounts st"
  by (auto simp: init_app_toml_def Let_def outcome_simps)

text \<open>An identifier that was returned for node \<open>k\<close>.\<close>

definition id_from :: "('f, 'k, 'm, 't, 'g) testnet_env \<Rightarrow> initArgs \<Rightarrow> nat \<Rightarrow> string \<Rightarrow> bool" where
  "id_from env args k nodeID \<longleftrightarrow>
     (\<exists>c u pk h. te_InitializeNodeValidatorFiles env c u = (Ok (nodeID, pk), h) \<and>
        nc_RootDir c = node_dir (ia_outputDir args) (ia_nodeDirPrefix args) k \<and>
        nc_Moniker c = nodeDirName (ia_nodeDirPrefix args) k)"

lemma id_fromI:
  "te_InitializeNodeValidatorFiles env c u = (Ok (nodeID, pk), h) \<Longrightarrow>
     nc_RootDir c = node_dir (ia_outputDir args) (ia_nodeDirPrefix args) k \<Longrightarrow>
     nc_Moniker c = nodeDirName (ia_nodeDirPrefix args) k \<Longrightarrow> id_from env args k nodeID"
  unfolding id_from_def by blast

lemma init_validator_Ok:
  assumes "init_validator env args i st = (Ok r, t)"
  shows "\<exists>nodeID. su_nodeIDs t = (su_nodeIDs st)[i := nodeID] \<and>
    length (su_valPubKeys t) = length (su_valPubKeys st) \<and> id_from env args i nodeID \<and>
    su_persistentPeers t = (if su_persistentPeers st = [] then node_memo args i nodeID
      else su_persistentPeers st @ '','' @ node_memo args i nodeID) \<and>
    length (su_genFiles t) = Suc (length (su_genFiles st)) \<and>
    su_gentxsFiles t = su_gentxsFiles st \<and>
    su_genBalances t = su_genBalances st \<and> su_genAccounts t = su_genAccounts st"
proof -
  let ?c = "(su_nodeConfig st)\<lparr>nc_RootDir := node_dir (ia_outputDir args) (ia_nodeDirPrefix args) i,
    nc_Moniker := nodeDirName (ia_nodeDirPrefix args) i,
    nc_RPC_ListenAddress := ''tcp://0.0.0.0:'' @ port_of args i\<rparr>"
  from assms obtain u nodeID pk h where
    id: "te_InitializeNodeValidatorFiles env ?c u = (Ok (nodeID, pk), h)"
    and t: "t = (let s = st\<lparr>su_nodeConfig := ?c, su_files := h, su_nodeIDs := (su_nodeIDs st)[i := nodeID],
        su_valPubKeys := (su_valPubKeys st)[i := pk]\<rparr>;
        memo = node_memo args i nodeID
      in s\<lparr>su_persistentPeers := if su_persistentPeers s = [] then memo else su_persistentPeers s @ '','' @ memo,
           su_genFiles := su_genFiles s @ [te_GenesisFile env ?c]\<rparr>)"
    unfolding init_validator_def Let_def node_dir_def
    by (auto simp: outcome_simps)
  have "id_from env args i nodeID" by (rule id_fromI [OF id]) simp_all
  then show ?thesis by (intro exI [of _ nodeID]) (simp add: t Let_def)
qed

lemma init_node_Ok:
  assumes "init_node env args i st = (Ok r, t)" "i < length (su_nodeIDs st)"
  shows "\<exists>nodeID. su_nodeIDs t = (su_nodeIDs st)[i := nodeID] \<and>
    length (su_valPubKeys t) = length (su_valPubKeys st) \<and> id_from env args i nodeID \<and>
    su_persistentPeers t = (if su_persistentPeers st = [] then node_memo args i nodeID
      else su_persistentPeers st @ '','' @ node_memo args i nodeID) \<and>
    su_gentxsFiles t = su_gentxsFiles st @ [gentx_file (ia_outputDir args) (ia_nodeDirPrefix args) i nodeID] \<and>
    length (su_genFiles t) = Suc (length (su_genFiles st)) \<and>
    length (su_genBalances t) = Suc (length (su_genBalances st)) \<and>
    (map bl_Address (su_genBalances st) = map ba_Address (su_genAccounts st) \<longrightarrow>
     map bl_Address (su_genBalances t) = map ba_Address (su_genAccounts t))"
proof -
  from assms(1) obtain r1 s1 a s2 r3 s3 where
    v: "init_validator env args i st = (Ok r1, s1)" and a: "init_account env args i s1 = (Ok a, s2)"
    and g: "init_gentx env args i a s2 = (Ok r3, s3)" and p: "init_app_toml env args i s3 = (Ok r, t)"
    by (auto simp: init_node_def outcome_simps)
  from init_validator_Ok [OF v] obtain nodeID where n: "su_nodeIDs s1 = (su_nodeIDs st)[i := nodeID]"
    and q: "length (su_valPubKeys s1) = length (su_valPubKeys st)" "id_from env args i nodeID"
      "su_persistentPeers s1 = (if su_persistentPeers st = [] then node_memo args i nodeID
      else su_persistentPeers st @ '','' @ node_memo args i nodeID)"
      "length (su_genFiles s1) = Suc (length (su_genFiles st))" "su_gentxsFiles s1 = su_gentxsFiles st"
      "su_genBalances s1 = su_genBalances st" "su_genAccounts s1 = su_genAccounts st"
    by blast
  have "su_nodeIDs s1 ! i = nodeID" using n assms(2) by simp
  then show ?thesis
    using n q init_account_Ok [OF a] init_gentx_Ok [OF g] init_app_toml_Ok [OF p]
    by (intro exI [of _ nodeID]) simp
qed

text \<open>What the loop over the nodes leaves after success.\<close>

definition nodes_done :: "('f, 'k, 'm, 't, 'g) testnet_env \<Rightarrow> initArgs \<Rightarrow> nat \<Rightarrow> 'f node_setup \<Rightarrow> bool" where
  "nodes_done env args i st \<longleftrightarrow>
     length (su_nodeIDs st) = nat (ia_numValidators args) \<and>
     length (su_valPubKeys st) = nat (ia_numValidators args) \<and>
     (\<forall>k < i. id_from env args k (su_nodeIDs st ! k)) \<and>
     su_gentxsFiles st = map (\<lambda>k. gentx_file (ia_outputDir args) (ia_nodeDirPrefix args) k (su_nodeIDs st ! k)) [0..<i] \<and>
     su_persistentPeers st = join_with (CHR '','') (map (\<lambda>k. node_memo args k (su_nodeIDs st ! k)) [0..<i]) \<and>
     length (su_genFiles st) = i \<and> length (su_genBalances st) = i \<and>
     map bl_Address (su_genBalances st) = map ba_Address (su_genAccounts st)"

lemma node_memo_ne: "node_memo args i nodeID \<noteq> []"
  by (simp add: node_memo_def)

lemma join_snoc: "ws \<noteq> [] \<Longrightarrow> join_with c (ws @ [w]) = join_with c ws @ c # w"
proof (induction ws)
  case (Cons v ws)
  then show ?case by (cases ws) (simp_all add: join_Cons)
qed simp

lemma join_ne: "ws \<noteq> [] \<Longrightarrow> hd ws \<noteq> [] \<Longrightarrow> join_with c ws \<noteq> []"
  by (cases ws; cases "tl ws") auto

lemma join_memos_ne:
  "0 < i \<Longrightarrow> join_with (CHR '','') (map (\<lambda>k. node_memo args k (f k)) [0..<i]) \<noteq> []"
  by (rule join_ne) (simp_all add: hd_map node_memo_ne)

lemma nodes_done_step:
  assumes d: "nodes_done env args i st" and i: "i < nat (ia_numValidators args)"
    and run: "init_node env args i st = (Ok r, t)"
  shows "nodes_done env args (Suc i) t"
proof -
  have len: "i < length (su_nodeIDs st)" using d i by (simp add: nodes_done_def)
  from init_node_Ok [OF run len] obtain nodeID where
    ids: "su_nodeIDs t = (su_nodeIDs st)[i := nodeID]"
    and peers: "su_persistentPeers t = (if su_persistentPeers st = [] then node_memo args i nodeID
      else su_persistentPeers st @ '','' @ node_memo args i nodeID)"
    and rest: "length (su_valPubKeys t) = length (su_valPubKeys st)" "id_from env args i nodeID"
      "su_gentxsFiles t = su_gentxsFiles st @
        [gentx_file (ia_outputDir args) (ia_nodeDirPrefix args) i nodeID]"
      "length (su_genFiles t) = Suc (length (su_genFiles st))"
      "length (su_genBalances t) = Suc (length (su_genBalances st))"
      "map bl_Address (su_genBalances st) = map ba_Address (su_genAccounts st) \<longrightarrow>
       map bl_Address (su_genBalances t) = map ba_Address (su_genAccounts t)"
    by blast
  have keep: "map (\<lambda>k. g k (su_nodeIDs t ! k)) [0..<i] = map (\<lambda>k. g k (su_nodeIDs st ! k)) [0..<i]"
    for g :: "nat \<Rightarrow> string \<Rightarrow> string" using ids by simp
  have new: "su_nodeIDs t ! i = nodeID" using ids len by simp
  have "su_persistentPeers t =
      join_with (CHR '','') (map (\<lambda>k. node_memo args k (su_nodeIDs t ! k)) [0..<Suc i])"
  proof (cases i)
    case 0
    then show ?thesis using peers d new by (simp add: nodes_done_def)
  next
    case (Suc j)
    let ?ms = "map (\<lambda>k. node_memo args k (su_nodeIDs st ! k)) [0..<i]"
    have st: "su_persistentPeers st = join_with (CHR '','') ?ms" using d by (simp add: nodes_done_def)
    have ne: "?ms \<noteq> []" using Suc by simp
    have "join_with (CHR '','') ?ms \<noteq> []" using Suc by (intro join_memos_ne) simp
    then have "su_persistentPeers t = join_with (CHR '','') (?ms @ [node_memo args i nodeID])"
      unfolding peers st join_snoc [OF ne] by simp
    also have "?ms @ [node_memo args i nodeID] = map (\<lambda>k. node_memo args k (su_nodeIDs t ! k)) [0..<Suc i]"
      using keep [of "node_memo args"] new by simp
    finally show ?thesis .
  qed
  moreover have "su_gentxsFiles t = map (\<lambda>k. gentx_file (ia_outputDir args) (ia_nodeDirPrefix args) k
      (su_nodeIDs t ! k)) [0..<Suc i]"
    using keep [of "gentx_file (ia_outputDir args) (ia_nodeDirPrefix args)"] new rest d
    by (simp add: nodes_done_def)
  moreover have "\<forall>k < Suc i. id_from env args k (su_nodeIDs t ! k)"
    using d rest(2) new ids by (auto simp: nodes_done_def less_Suc_eq)
  ultimately show ?thesis
    using rest d ids unfolding nodes_done_def by simp
qed

lemma init_nodes_done:
  assumes "for_each (init_node env args) [0..<nat (ia_numValidators args)] (init_setup env args c f) = (Ok (), t)"
  shows "nodes_done env args (nat (ia_numValidators args)) t"
proof -
  let ?n = "nat (ia_numValidators args)"
  have "nodes_done env args (length [0..<?n]) t"
  proof (rule for_each_prefix [OF assms, where P = "\<lambda>done. nodes_done env args (length done)"])
    show "nodes_done env args (length []) (init_setup env args c f)"
      by (simp add: nodes_done_def init_setup_def Let_def)
    fix xs x rest s s'
    assume eq: "[0..<?n] = xs @ x # rest" and d: "nodes_done env args (length xs) s"
      and run: "init_node env args x s = (Ok (), s')"
    have l: "length xs < ?n" using arg_cong [OF eq, of length] by simp
    have "x = length xs" using arg_cong [OF eq, of "\<lambda>ys. ys ! length xs"] l by simp
    then show "nodes_done env args (length (xs @ [x])) s'"
      using nodes_done_step [OF d l] run by simp
  qed
  then show ?thesis by simp
qed

section \<open>One genesis for every node\<close>

text \<open>
  What the genesis helpers are documented to do with the file system, read as a map \<open>gen\<close> from
  paths to the chain identifier, application state and time of the genesis file there: the export
  writes its own path, the collection of the genesis transactions no genesis file but the node's own,
  and the configuration writer none. The path of the genesis file depends on the root directory,
  which \<open>GenAppStateFromConfig\<close> leaves in place; its result is not \<open>nil\<close>.
\<close>

definition lawful_genesis ::
  "('f, 'k, 'm, 't, 'g) testnet_env \<Rightarrow> ('f \<Rightarrow> string \<rightharpoonup> string \<times> bytes option \<times> int) \<Rightarrow>
   (string \<Rightarrow> string) \<Rightarrow> bool" where
  "lawful_genesis env gen path \<longleftrightarrow>
     (\<forall>c. te_GenesisFile env c = path (nc_RootDir c)) \<and>
     (\<forall>c ic g f st d h. te_GenAppStateFromConfig env c ic g f = (Ok (st, d), h) \<longrightarrow>
        nc_RootDir d = nc_RootDir c \<and> st \<noteq> None \<and>
          (\<forall>q. q \<noteq> path (nc_RootDir c) \<longrightarrow> gen h q = gen f q)) \<and>
     (\<forall>p c f h. te_WriteNodeToml env p c f = (Ok (), h) \<longrightarrow> gen h = gen f) \<and>
     (\<forall>p c a t f h. te_ExportGenesisFileWithTime env p c a t f = (Ok (), h) \<longrightarrow>
        gen h = (gen f)(p \<mapsto> (c, a, t)))"

lemma on_collect_Ok [outcome_simps]:
  "on_collect call st = (Ok a, s) \<longleftrightarrow> (\<exists>f. call (cs_files st) = (Ok a, f) \<and> s = st\<lparr>cs_files := f\<rparr>)"
  by (auto split: prod.splits)

declare on_collect.simps [simp del]

lemma final_config_root [simp]: "nc_RootDir (final_config args peers i c) = nc_RootDir c"
  by (simp add: final_config_def)

text \<open>The one application state that every node of the list gets.\<close>

definition same_genesis ::
  "('f \<Rightarrow> string \<rightharpoonup> string \<times> bytes option \<times> int) \<Rightarrow> (nat \<Rightarrow> string) \<Rightarrow> string \<Rightarrow> int \<Rightarrow> nat list \<Rightarrow>
   'f collect_state \<Rightarrow> bool" where
  "same_genesis gen file_of chain_id tm nodes st \<longleftrightarrow>
     (nodes \<noteq> [] \<longrightarrow> cs_appState st \<noteq> None) \<and>
     (\<forall>i \<in> set nodes. gen (cs_files st) (file_of i) = Some (chain_id, cs_appState st, tm))"

text \<open>The interface of the genesis files.\<close>

locale genesis_files =
  fixes env :: "('f, 'k, 'm, 't, 'g) testnet_env"
    and gen :: "'f \<Rightarrow> string \<rightharpoonup> string \<times> bytes option \<times> int" and path :: "string \<Rightarrow> string"
  assumes lawful: "lawful_genesis env gen path"
begin

lemma genesis_file: "te_GenesisFile env c = path (nc_RootDir c)"
  and app_state_keeps: "te_GenAppStateFromConfig env c ic g f = (Ok (st, d), h) \<Longrightarrow>
      nc_RootDir d = nc_RootDir c \<and> st \<noteq> None \<and>
      (\<forall>q. q \<noteq> path (nc_RootDir c) \<longrightarrow> gen h q = gen f q)"
  and config_keeps: "te_WriteNodeToml env p c f = (Ok (), h) \<Longrightarrow> gen h = gen f"
  and export_writes: "te_ExportGenesisFileWithTime env p n a t f = (Ok (), h) \<Longrightarrow>
      gen h = (gen f)(p \<mapsto> (n, a, t))"
  using lawful unfolding lawful_genesis_def by blast+

lemma collect_node_genesis:
  assumes "collect_node env args ids pks peers tm i s = (Ok (), t)"
  shows "\<exists>a. a \<noteq> None \<and> cs_appState t = a \<and> (cs_appState s \<noteq> None \<longrightarrow> a = cs_appState s) \<and>
    gen (cs_files t) = (gen (cs_files s))(path (node_dir (ia_outputDir args) (ia_nodeDirPrefix args) i) \<mapsto>
      (ia_chainID args, a, tm))"
proof -
  let ?dir = "node_dir (ia_outputDir args) (ia_nodeDirPrefix args) i"
  let ?c = "(cs_nodeConfig s)\<lparr>nc_Moniker := nodeDirName (ia_nodeDirPrefix args) i, nc_RootDir := ?dir\<rparr>"
  from assms obtain ic g st d f1 f2 f3 where
    gg: "te_GenAppStateFromConfig env ?c ic g (cs_files s) = (Ok (st, d), f1)"
    and w: "te_WriteNodeToml env (filepath_Join [nc_RootDir d, ''config'', ''config.toml''])
      (final_config args peers i d) f1 = (Ok (), f2)"
    and x: "te_ExportGenesisFileWithTime env (te_GenesisFile env (final_config args peers i d)) (ia_chainID args)
      (canonical_state (cs_appState s) st) tm f2 = (Ok (), f3)"
    and t: "cs_files t = f3" "cs_appState t = canonical_state (cs_appState s) st"
    unfolding collect_node_def Let_def node_dir_def
    by (auto simp: chain_st_Ok_iff on_collect_Ok)
  have d: "nc_RootDir d = ?dir" "st \<noteq> None" "\<forall>q. q \<noteq> path ?dir \<longrightarrow> gen f1 q = gen (cs_files s) q"
    using app_state_keeps [OF gg] by simp_all
  have "gen f3 = (gen f2)(path ?dir \<mapsto> (ia_chainID args, cs_appState t, tm))"
    using export_writes [OF x] t(2) d(1) by (simp add: genesis_file)
  then show ?thesis using config_keeps [OF w] t d by (auto simp: canonical_state_def fun_eq_iff)
qed

lemma collectGenFiles_genesis:
  assumes run: "collectGenFiles env args c ids pks peers f = (Ok (), t)"
  shows "same_genesis gen (\<lambda>i. path (node_dir (ia_outputDir args) (ia_nodeDirPrefix args) i))
    (ia_chainID args) (te_Now env) [0..<nat (ia_numValidators args)] t"
proof (rule for_each_prefix [OF run [unfolded collectGenFiles_def]])
  fix xs x rest s s'
  assume p: "same_genesis gen (\<lambda>i. path (node_dir (ia_outputDir args) (ia_nodeDirPrefix args) i))
      (ia_chainID args) (te_Now env) xs s"
    and step: "collect_node env args ids pks peers (te_Now env) x s = (Ok (), s')"
  from collect_node_genesis [OF step] p
  show "same_genesis gen (\<lambda>i. path (node_dir (ia_outputDir args) (ia_nodeDirPrefix args) i))
      (ia_chainID args) (te_Now env) (xs @ [x]) s'"
    by (cases xs) (auto simp: same_genesis_def)
qed (simp add: same_genesis_def)

end

section \<open>The command as a whole\<close>

lemma initTestnetFiles_Ok:
  assumes "initTestnetFiles env c args f = (Ok (), g)"
  shows "\<exists>st f1 f2 cs. let args = choose_chain_id env args; n = nat (ia_numValidators args) in
    for_each (init_node env args) [0..<n] (init_setup env args c f) = (Ok (), st) \<and>
    initGenFiles env (ia_chainID args) (su_genAccounts st) (su_genBalances st) (su_genFiles st) n
      (su_files st) = (Ok (), f1) \<and>
    copy_gentxs (te_os env) (ia_outputDir args) (ia_nodeDirPrefix args) n (su_gentxsFiles st) f1 = (Ok (), f2) \<and>
    collectGenFiles env args (su_nodeConfig st) (su_nodeIDs st) (su_valPubKeys st)
      (su_persistentPeers st) f2 = (Ok (), cs) \<and> g = cs_files cs"
proof -
  let ?args = "choose_chain_id env args"
  let ?n = "nat (ia_numValidators ?args)"
  obtain r st where l: "for_each (init_node env ?args) [0..<?n] (init_setup env ?args c f) = (r, st)" by force
  with assms have "r = Ok ()" and fin: "finish_testnet env ?args st = (Ok (), g)"
    by (cases r; auto simp: initTestnetFiles_def Let_def split: if_splits)+
  from fin obtain f1 f2 where
    i: "initGenFiles env (ia_chainID ?args) (su_genAccounts st) (su_genBalances st) (su_genFiles st) ?n
      (su_files st) = (Ok (), f1)"
    and k: "copy_gentxs (te_os env) (ia_outputDir ?args) (ia_nodeDirPrefix ?args) ?n (su_gentxsFiles st) f1 = (Ok (), f2)"
    and x: "(case collectGenFiles env ?args (su_nodeConfig st) (su_nodeIDs st) (su_valPubKeys st)
      (su_persistentPeers st) f2 of (r, st) \<Rightarrow> (r, cs_files st)) = (Ok (), g)"
    by (auto simp: finish_testnet_def Let_def outcome_simps)
  obtain r2 cs where o: "collectGenFiles env ?args (su_nodeConfig st) (su_nodeIDs st) (su_valPubKeys st)
      (su_persistentPeers st) f2 = (r2, cs)" by force
  with x have "r2 = Ok ()" "g = cs_files cs" by simp_all
  with l \<open>r = Ok ()\<close> i k o show ?thesis unfolding Let_def by blast
qed

lemma choose_chain_id_simps [simp]:
  "ia_numValidators (choose_chain_id env args) = ia_numValidators args"
  "ia_outputDir (choose_chain_id env args) = ia_outputDir args"
  "ia_nodeDirPrefix (choose_chain_id env args) = ia_nodeDirPrefix args"
  by (simp_all add: choose_chain_id_def)

context genesis_files begin

lemma initTestnetFiles_genesis:
  assumes run: "initTestnetFiles env c args f = (Ok (), g)"
  shows "\<exists>a. (0 < ia_numValidators args \<longrightarrow> a \<noteq> None) \<and>
    (\<forall>i < nat (ia_numValidators args).
      gen g (path (node_dir (ia_outputDir args) (ia_nodeDirPrefix args) i)) =
        Some (ia_chainID (choose_chain_id env args), a, te_Now env))"
proof -
  from initTestnetFiles_Ok [OF run] obtain st :: "'f node_setup" and f2 cs where
    k: "collectGenFiles env (choose_chain_id env args) (su_nodeConfig st) (su_nodeIDs st) (su_valPubKeys st)
      (su_persistentPeers st) f2 = (Ok (), cs)" and g: "g = cs_files cs"
    unfolding Let_def by blast
  from collectGenFiles_genesis [OF k] show ?thesis
    unfolding same_genesis_def g by (intro exI [of _ "cs_appState cs"]) auto
qed

end

text \<open>A stored stake is the coin of the amount at its index among the amounts that are numbers.\<close>

lemma read_args_stakes:
  assumes "read_args fl = Ok args" "fl_GetString fl flagValidatorsStakeAmount = Ok s"
  shows "parse_stakes fl (split_on (CHR '','') s) 0 Map.empty = Ok (ia_validatorsStakesAmount args)"
  using assms by (auto simp: read_args_def outcome_simps)

lemma read_args_ports:
  assumes "read_args fl = Ok args" "fl_GetString fl flagPorts = Ok s"
  shows "ia_ports args = parse_ports (ia_numValidators args) s"
  using assms by (auto simp: read_args_def outcome_simps)

lemma random_length: "length (generateRandomString Intn n) = n"
  by (simp add: generateRandomString_def)

lemma random_charset:
  "(\<And>i. Intn i (length charset) < length charset) \<Longrightarrow> set (generateRandomString Intn n) \<subseteq> set charset"
  by (auto simp: generateRandomString_def)

text \<open>The chain identifier is never empty, when the random source stays below its bound.\<close>

lemma chain_id_chosen:
  assumes "\<And>i n. 0 < n \<Longrightarrow> te_Intn env i n < n"
  shows "ia_chainID (choose_chain_id env args) \<noteq> [] \<and>
    (if ia_chainID args \<noteq> [] then choose_chain_id env args = args
     else \<exists>r. ia_chainID (choose_chain_id env args) = ''chain-'' @ r \<and> length r = 6 \<and> set r \<subseteq> set charset)"
proof -
  have "te_Intn env i (length charset) < length charset" for i
    by (rule assms) (simp add: charset_def)
  then show ?thesis
    using random_length random_charset [of "te_Intn env" 6] by (simp add: choose_chain_id_def)
qed

end
