(* ===== verification/Testnet_Liveness.thy ===== *)
theory Testnet_Liveness
  imports Testnet_MultiNode
begin

text \<open>
  The command \<open>multi-node\<close> reaches its end when each call that it makes succeeds: the loops index
  within their lists, and nothing else can fail.
\<close>

definition os_succeeds :: "'f os \<Rightarrow> bool" where
  "os_succeeds os \<longleftrightarrow>
     is_ok (os_Getwd os) \<and> (\<forall>p. succeeds (os_MkdirAll os p)) \<and> (\<forall>p b. succeeds (os_WriteFile os p b)) \<and>
     (\<forall>p f. is_ok (os_Open os p f)) \<and> (\<forall>p. succeeds (os_Create os p)) \<and>
     (\<forall>d p. succeeds (os_Copy os d p)) \<and> (\<forall>p. succeeds (os_Sync os p))"

definition node_calls_succeed :: "('f, 'k, 'm, 't, 'g) testnet_env \<Rightarrow> initArgs \<Rightarrow> bool" where
  "node_calls_succeed env args \<longleftrightarrow>
     (\<forall>c. succeeds (te_InitializeNodeValidatorFiles env c)) \<and>
     (\<forall>n b d. succeeds (te_NewKeyring env n b d)) \<and>
     (\<forall>k. is_ok (te_NewSigningAlgo env (ia_algo args) (te_SupportedAlgorithms env k))) \<and>
     (\<forall>k n m o' a. succeeds (te_GenerateSaveCoinKey env k n m o' a)) \<and>
     (\<forall>m. is_ok (te_MarshalInfo env m)) \<and>
     (\<forall>d n. is_ok (te_NewCoin env d (te_TokensFromConsensusPower env n))) \<and>
     (\<forall>v. is_ok (te_NewMsgCreateValidator env v)) \<and> (\<forall>m b. is_ok (te_SetMsgs env m b)) \<and>
     (\<forall>x n b o'. succeeds (te_Sign env x n b o')) \<and> (\<forall>b. is_ok (te_TxJSONEncoder env b)) \<and>
     (\<forall>p c. succeeds (te_WriteAppToml env p c))"

definition genesis_calls_succeed :: "('f, 'k, 'm, 't, 'g) testnet_env \<Rightarrow> bool" where
  "genesis_calls_succeed env \<longleftrightarrow>
     (\<forall>b. is_ok (te_UnmarshalAuth env b) \<and> is_ok (te_UnmarshalBank env b)) \<and>
     (\<forall>g. is_ok (te_MarshalAuth env g)) \<and> (\<forall>g. is_ok (te_MarshalBank env g)) \<and>
     (\<forall>as. is_ok (te_PackAccounts env as)) \<and> (\<forall>bs. is_ok (te_SanitizeGenesisBalances env bs)) \<and>
     (\<forall>m. is_ok (te_MarshalIndent env m)) \<and> (\<forall>n a p. succeeds (te_SaveGenesisDoc env n a p)) \<and>
     (\<forall>p f. is_ok (te_AppGenesisFromFile env p f)) \<and>
     (\<forall>c ic g. succeeds (te_GenAppStateFromConfig env c ic g)) \<and>
     (\<forall>p c. succeeds (te_WriteNodeToml env p c)) \<and>
     (\<forall>p n a t. succeeds (te_ExportGenesisFileWithTime env p n a t))"

lemma osD:
  assumes "os_succeeds os"
  shows "is_ok (os_Getwd os)" and "succeeds (os_MkdirAll os p)" and "succeeds (os_WriteFile os p b)"
    and "is_ok (os_Open os p f)" and "succeeds (os_Create os p)" and "succeeds (os_Copy os d p)"
    and "succeeds (os_Sync os p)"
  using assms by (simp_all add: os_succeeds_def)

lemma nodeD:
  assumes "node_calls_succeed env args"
  shows "succeeds (te_InitializeNodeValidatorFiles env c)" and "succeeds (te_NewKeyring env n b d)"
    and "is_ok (te_NewSigningAlgo env (ia_algo args) (te_SupportedAlgorithms env k))"
    and "succeeds (te_GenerateSaveCoinKey env k n mn ov a)" and "is_ok (te_MarshalInfo env i)"
    and "is_ok (te_NewCoin env n (te_TokensFromConsensusPower env z))"
    and "is_ok (te_NewMsgCreateValidator env v)" and "is_ok (te_SetMsgs env msg tb)"
    and "succeeds (te_Sign env fac n tb ov)" and "is_ok (te_TxJSONEncoder env tb)"
    and "succeeds (te_WriteAppToml env n ac)"
  using assms by (simp_all add: node_calls_succeed_def)

lemma genesisD:
  assumes "genesis_calls_succeed env"
  shows "is_ok (te_UnmarshalAuth env b)" and "is_ok (te_UnmarshalBank env b)"
    and "is_ok (te_MarshalAuth env ga)" and "is_ok (te_MarshalBank env gb)"
    and "is_ok (te_PackAccounts env as)" and "is_ok (te_SanitizeGenesisBalances env bs)"
    and "is_ok (te_MarshalIndent env m)" and "succeeds (te_SaveGenesisDoc env n raw p)"
    and "is_ok (te_AppGenesisFromFile env p f)"
    and "succeeds (te_GenAppStateFromConfig env c ic g)" and "succeeds (te_WriteNodeToml env p c)"
    and "succeeds (te_ExportGenesisFileWithTime env p n ao t)"
  using assms by (simp_all add: genesis_calls_succeed_def)

section \<open>Sequences of calls\<close>

text \<open>\<open>is_ok (fst r)\<close>: the call with result \<open>r\<close> succeeded.\<close>

lemma ok_chain_st:
  "is_ok (fst m) \<Longrightarrow> (\<And>a s. is_ok (fst (f a s))) \<Longrightarrow> is_ok (fst (chain_st m f))"
  by (cases m; cases "fst m") auto

lemma ok_chain: "is_ok m \<Longrightarrow> (\<And>a. is_ok (f a)) \<Longrightarrow> is_ok (chain m f)"
  by (cases m) auto

lemma ok_pair: "is_ok r \<Longrightarrow> is_ok (fst (r, st))"
  by simp

lemma ok_split: "(\<And>x y. is_ok (fst (f x y s))) \<Longrightarrow> is_ok (fst ((case p of (x, y) \<Rightarrow> f x y) s))"
  by (cases p) simp

lemma ok_succeeds: "succeeds call \<Longrightarrow> is_ok (fst (call s))"
  using succeedsD [of call s] by auto

lemma succeeds_ok: "(\<And>s. is_ok (fst (call s))) \<Longrightarrow> succeeds call"
  unfolding succeeds_def is_ok_iff by (metis prod.collapse)

lemma ok_on_files: "succeeds call \<Longrightarrow> is_ok (fst (on_files call st))"
  using ok_succeeds [of call "su_files st"] by (auto simp: on_files.simps split: prod.split)

lemma ok_on_collect: "succeeds call \<Longrightarrow> is_ok (fst (on_collect call st))"
  using ok_succeeds [of call "cs_files st"] by (auto simp: on_collect.simps split: prod.split)

lemma ok_or_remove: "is_ok (fst r) \<Longrightarrow> is_ok (fst (or_remove os d r))"
  by (cases "(os, d, r)" rule: or_remove.cases) auto

lemma ok_mkdir: "is_ok (fst r) \<Longrightarrow> is_ok (fst (mkdir_failure d r))"
  by (cases "(d, r)" rule: mkdir_failure.cases) auto

lemma ok_must: "is_ok r \<Longrightarrow> is_ok (must r)"
  by (cases r) auto

lemma ok_done: "is_ok (fst (Ok a, st))"
  by simp

lemma ok_unit: "is_ok (fst r) \<Longrightarrow> \<exists>t. r = (Ok (), t)"
  by (cases r; cases "fst r") auto

lemmas ok_intros = ok_chain_st ok_split ok_done ok_pair ok_on_files ok_on_collect ok_or_remove

section \<open>The parts\<close>

lemma writeFile_succeeds: "os_succeeds os \<Longrightarrow> succeeds (writeFile os p d b)"
  by (rule succeeds_ok, unfold writeFile_def) (intro ok_chain_st ok_done ok_mkdir ok_succeeds osD)

lemma init_validator_ok:
  assumes "os_succeeds (te_os env)" "node_calls_succeed env args"
  shows "is_ok (fst (init_validator env args i st))"
  unfolding init_validator_def Let_def
  by (intro ok_intros osD(2) [OF assms(1)] nodeD [OF assms(2)])

lemma init_account_ok:
  assumes "os_succeeds (te_os env)" "node_calls_succeed env args"
  shows "is_ok (fst (init_account env args i st))"
  unfolding init_account_def Let_def
  by (intro ok_intros writeFile_succeeds [OF assms(1)] nodeD [OF assms(2)])

lemma stake_of_ok: "node_calls_succeed env args \<Longrightarrow> is_ok (stake_of env args i)"
  by (simp add: stake_of_def nodeD(6) split: option.split)

lemma init_gentx_ok:
  assumes "os_succeeds (te_os env)" "node_calls_succeed env args"
  shows "is_ok (fst (init_gentx env args i acc st))"
proof (cases acc)
  case (Pair kb addr)
  show ?thesis
    unfolding init_gentx_def Let_def Pair prod.case
    by (intro ok_intros stake_of_ok writeFile_succeeds nodeD [OF assms(2)] assms)
qed

lemma init_node_returns:
  assumes "os_succeeds (te_os env)" "node_calls_succeed env args"
  shows "\<exists>t. init_node env args i st = (Ok (), t)"
  unfolding init_node_def init_app_toml_def Let_def
  by (intro ok_unit ok_intros init_validator_ok init_account_ok init_gentx_ok nodeD(11) [OF assms(2)] assms)

lemma for_each_returns_all:
  assumes "\<And>x s. x \<in> set xs \<Longrightarrow> \<exists>t. f x s = (Ok (), t)"
  shows "\<exists>t. for_each f xs s = (Ok (), t)"
proof -
  have "\<exists>t. for_each f xs s = (Ok (), t) \<and> set [] \<subseteq> set xs"
  proof (rule for_each_returns [where P = "\<lambda>ys s. set ys \<subseteq> set xs"])
    fix x rest s
    assume "set (x # rest) \<subseteq> set xs"
    then show "\<exists>s'. f x s = (Ok (), s') \<and> set rest \<subseteq> set xs" using assms [of x s] by auto
  qed simp
  then show ?thesis by blast
qed

lemma initial_app_state_ok:
  "genesis_calls_succeed env \<Longrightarrow> is_ok (initial_app_state env accs bals)"
  unfolding initial_app_state_def Let_def by (intro ok_chain ok_must genesisD)

lemma initGenFiles_returns:
  assumes "genesis_calls_succeed env" "n \<le> length paths"
  shows "\<exists>t. initGenFiles env cid accs bals paths n f = (Ok (), t)"
proof -
  have "is_ok (fst (for_each (\<lambda>i f. chain_st (get_at paths (int i), f) (\<lambda>path f.
      te_SaveGenesisDoc env cid a path f)) [0..<n] s))" for a s
  proof -
    have "\<exists>t. for_each (\<lambda>i f. chain_st (get_at paths (int i), f) (\<lambda>path f.
        te_SaveGenesisDoc env cid a path f)) [0..<n] s = (Ok (), t)"
      using assms(2) ok_unit [OF ok_succeeds [OF genesisD(8) [OF assms(1)]]]
      by (intro for_each_returns_all) simp
    then show ?thesis by fastforce
  qed
  then show ?thesis
    unfolding initGenFiles_def by (intro ok_unit ok_chain_st ok_pair initial_app_state_ok [OF assms(1)])
qed

lemma copyFile_ok: "os_succeeds os \<Longrightarrow> is_ok (fst (copyFile os p d f))"
  unfolding copyFile_def Let_def by (intro ok_chain_st ok_pair ok_done ok_succeeds osD)

lemma isSubDir_no_panic: "is_ok cwd \<Longrightarrow> \<not> is_panic (isSubDir cwd a b)"
  by (cases cwd) (auto simp: isSubDir_def filepath_Abs_def is_panic_chain split: option.split if_splits)

lemma copy_gentxs_returns:
  assumes "os_succeeds os"
  shows "\<exists>t. copy_gentxs os d p n files f = (Ok (), t)"
proof -
  have "is_ok (fst (copy_gentx os dir path s))" for dir path s
  proof (cases "isSubDir (os_Getwd os) path dir")
    case (Ok yes)
    have "is_ok (fst (chain_st (copyFile os path dir s) (\<lambda>_ f. (Ok (), f))))"
      by (intro ok_chain_st ok_done copyFile_ok [OF assms])
    then show ?thesis using Ok by (simp add: copy_gentx_def)
  next
    case (Panic x)
    then show ?thesis using isSubDir_no_panic [OF osD(1) [OF assms], of path dir] by simp
  qed (simp add: copy_gentx_def)
  then show ?thesis unfolding copy_gentxs_def by (intro for_each_returns_all ok_unit)
qed

lemma collect_node_returns:
  assumes "genesis_calls_succeed env" "i < length ids" "i < length pks"
  shows "\<exists>t. collect_node env args ids pks peers tm i st = (Ok (), t)"
proof -
  have "is_ok (get_at ids (int i))" "is_ok (get_at pks (int i))" using assms by simp_all
  then show ?thesis
    unfolding collect_node_def Let_def by (intro ok_unit ok_intros genesisD [OF assms(1)])
qed

text \<open>All parts in a row.\<close>

lemma initTestnetFiles_returns:
  assumes os: "os_succeeds (te_os env)" and nd: "node_calls_succeed env args"
    and gn: "genesis_calls_succeed env" and n: "0 \<le> ia_numValidators args"
  shows "\<exists>g. initTestnetFiles env c args f = (Ok (), g)"
proof -
  let ?args = "choose_chain_id env args"
  let ?n = "nat (ia_numValidators ?args)"
  have nd': "node_calls_succeed env ?args"
    using nd by (simp add: node_calls_succeed_def choose_chain_id_def)
  obtain st where l: "for_each (init_node env ?args) [0..<?n] (init_setup env ?args c f) = (Ok (), st)"
    using for_each_returns_all [of "[0..<?n]" "init_node env ?args"] init_node_returns [OF os nd'] by blast
  have d: "nodes_done env ?args ?n st" by (rule init_nodes_done [OF l])
  obtain f1 where g: "initGenFiles env (ia_chainID ?args) (su_genAccounts st) (su_genBalances st)
      (su_genFiles st) ?n (su_files st) = (Ok (), f1)"
    using initGenFiles_returns [OF gn] d by (metis nodes_done_def order_refl)
  obtain f2 where k: "copy_gentxs (te_os env) (ia_outputDir ?args) (ia_nodeDirPrefix ?args) ?n
      (su_gentxsFiles st) f1 = (Ok (), f2)"
    using copy_gentxs_returns [OF os] by blast
  obtain cs where "collectGenFiles env ?args (su_nodeConfig st) (su_nodeIDs st) (su_valPubKeys st)
      (su_persistentPeers st) f2 = (Ok (), cs)"
  proof -
    have "\<exists>t. collect_node env ?args (su_nodeIDs st) (su_valPubKeys st) (su_persistentPeers st) (te_Now env) i s =
        (Ok (), t)" if "i \<in> set [0..<?n]" for i s
      using collect_node_returns [OF gn] that d by (simp add: nodes_done_def)
    then show ?thesis
      using that for_each_returns_all unfolding collectGenFiles_def by meson
  qed
  then have "finish_testnet env ?args st = (Ok (), cs_files cs)"
    using g k by (simp add: finish_testnet_def Let_def)
  then show ?thesis using l n by (simp add: initTestnetFiles_def Let_def)
qed

end
