(* ===== verification/Testnet_Gentxs.thy ===== *)
theory Testnet_Gentxs
  imports Testnet_MultiNode
begin

text \<open>
  The genesis transactions through the whole command \<open>multi-node\<close>: the loop over the nodes names
  them, \<open>copy_gentxs\<close> copies them, and the collection of the genesis files leaves them in place.
\<close>

section \<open>The collection writes no genesis transaction\<close>

text \<open>
  What the helpers that \<open>collectGenFiles\<close> calls are documented to write, with the files read as a
  map \<open>fs\<close>: \<open>GenAppStateFromConfig\<close> the node's config.toml and genesis file, the other two the path
  they are given. The genesis file of a node is config/genesis.json under its root directory.
\<close>

definition lawful_collect ::
  "('f, 'k, 'm, 't, 'g) testnet_env \<Rightarrow> ('f \<Rightarrow> string \<Rightarrow> bytes option) \<Rightarrow> bool" where
  "lawful_collect env fs \<longleftrightarrow>
     (\<forall>c. te_GenesisFile env c = filepath_Join [nc_RootDir c, ''config'', ''genesis.json'']) \<and>
     (\<forall>c ic g f st d h. te_GenAppStateFromConfig env c ic g f = (Ok (st, d), h) \<longrightarrow>
        nc_RootDir d = nc_RootDir c \<and>
        (\<forall>q. q \<noteq> filepath_Join [nc_RootDir c, ''config'', ''genesis.json''] \<longrightarrow>
             q \<noteq> filepath_Join [nc_RootDir c, ''config'', ''config.toml''] \<longrightarrow> fs h q = fs f q)) \<and>
     (\<forall>p c f h q. te_WriteNodeToml env p c f = (Ok (), h) \<longrightarrow> q \<noteq> p \<longrightarrow> fs h q = fs f q) \<and>
     (\<forall>p c a t f h q. te_ExportGenesisFileWithTime env p c a t f = (Ok (), h) \<longrightarrow> q \<noteq> p \<longrightarrow> fs h q = fs f q)"

text \<open>Identifiers of different nodes differ, and none contains a slash.\<close>

definition fresh_ids :: "('f, 'k, 'm, 't, 'g) testnet_env \<Rightarrow> initArgs \<Rightarrow> bool" where
  "fresh_ids env args \<longleftrightarrow>
     (\<forall>j k a b. id_from env args j a \<longrightarrow> id_from env args k b \<longrightarrow> j \<noteq> k \<longrightarrow> a \<noteq> b) \<and>
     (\<forall>k a. id_from env args k a \<longrightarrow> CHR ''/'' \<notin> set a)"

text \<open>A file under a node's directory, and that it is no genesis transaction unless it is in a
  directory like that of one.\<close>

lemma node_file_eq:
  assumes "layout_ok d p" "list_all proper_name ws" "ws \<noteq> []"
  shows "filepath_Join (node_dir d p j # ws) =
    path_of (IsAbs d) (clean_components d @ nodeDirName p j # ws)"
proof -
  have n: "proper_name (nodeDirName p j)" using assms nodeDirName_proper by (simp add: layout_ok_def)
  let ?xs = "clean_components d @ [nodeDirName p j]"
  have p: "list_all proper_name ?xs" using assms n by (simp add: layout_ok_def)
  have "node_dir d p j = path_of (IsAbs d) ?xs"
    using filepath_Join_eq [of d "[nodeDirName p j]"] assms n by (simp add: node_dir_def layout_ok_def)
  then show ?thesis
    using filepath_Join_eq [of "path_of (IsAbs d) ?xs" ws] path_of_ne [OF p]
      clean_path_of [OF p] IsAbs_path_of [OF p] assms(2,3) by simp
qed

lemma config_file_eq:
  "layout_ok d p \<Longrightarrow> proper_name w \<Longrightarrow> filepath_Join [node_dir d p j, ''config'', w] =
    path_of (IsAbs d) (clean_components d @ [nodeDirName p j, ''config'', w])"
  by (simp add: node_file_eq config_proper)

lemma gentx_not_other:
  assumes "layout_ok d p" "CHR ''/'' \<notin> set nodeID" "list_all proper_name ws" "ws \<noteq> []" "length ws \<noteq> 3"
  shows "gentx_file d p i nodeID \<noteq> filepath_Join (node_dir d p j # ws)"
proof
  have n: "proper_name (nodeDirName p i)" for i
    using assms nodeDirName_proper by (simp add: layout_ok_def)
  assume "gentx_file d p i nodeID = filepath_Join (node_dir d p j # ws)"
  then have "clean_components d @ [nodeDirName p i, ''config'', ''gentx'', ''gentx-'' @ nodeID @ ''.json''] =
      clean_components d @ nodeDirName p j # ws"
    unfolding gentx_file_eq [OF assms(1,2)] node_file_eq [OF assms(1,3,4)]
    using assms n config_proper gentx_name_proper
    by (intro path_of_inj [of _ _ "IsAbs d"]) (simp_all add: layout_ok_def)
  then show False using assms(5) by auto
qed

lemma gentx_not_config:
  "layout_ok d p \<Longrightarrow> CHR ''/'' \<notin> set nodeID \<Longrightarrow> proper_name w \<Longrightarrow>
   gentx_file d p i nodeID \<noteq> filepath_Join [node_dir d p j, ''config'', w]"
  by (rule gentx_not_other) (simp_all add: config_proper)

text \<open>The interface: the files that are copied, and the helpers that collect.\<close>

locale gentx_files = file_store "te_os env" fs
  for env :: "('f, 'k, 'm, 't, 'g) testnet_env" and fs :: "'f \<Rightarrow> string \<Rightarrow> bytes option" +
  assumes collect: "lawful_collect env fs"
begin

lemma collect_node_gentxs:
  assumes lay: "layout_ok (ia_outputDir args) (ia_nodeDirPrefix args)" and id: "CHR ''/'' \<notin> set nodeID"
    and run: "collect_node env args ids pks peers tm i s = (Ok (), t)"
  shows "fs (cs_files t) (gentx_file (ia_outputDir args) (ia_nodeDirPrefix args) j nodeID) =
    fs (cs_files s) (gentx_file (ia_outputDir args) (ia_nodeDirPrefix args) j nodeID)"
proof -
  let ?dir = "node_dir (ia_outputDir args) (ia_nodeDirPrefix args) i"
  let ?q = "gentx_file (ia_outputDir args) (ia_nodeDirPrefix args) j nodeID"
  let ?c = "(cs_nodeConfig s)\<lparr>nc_Moniker := nodeDirName (ia_nodeDirPrefix args) i, nc_RootDir := ?dir\<rparr>"
  from run obtain ic g st d a f1 f2 where
    gg: "te_GenAppStateFromConfig env ?c ic g (cs_files s) = (Ok (st, d), f1)"
    and w: "te_WriteNodeToml env (filepath_Join [nc_RootDir d, ''config'', ''config.toml''])
      (final_config args peers i d) f1 = (Ok (), f2)"
    and x: "te_ExportGenesisFileWithTime env (te_GenesisFile env (final_config args peers i d)) (ia_chainID args)
      a tm f2 = (Ok (), cs_files t)"
    unfolding collect_node_def Let_def node_dir_def
    by (auto simp: chain_st_Ok_iff on_collect_Ok)
  have q: "?q \<noteq> filepath_Join [?dir, ''config'', ''config.toml'']"
    "?q \<noteq> filepath_Join [?dir, ''config'', ''genesis.json'']"
    by (rule gentx_not_config [OF lay id], simp add: proper_name_def)+
  have "nc_RootDir d = nc_RootDir ?c \<and> fs f1 ?q = fs (cs_files s) ?q"
    using collect gg q unfolding lawful_collect_def by simp
  moreover from this have "fs f2 ?q = fs f1 ?q"
    using collect w q unfolding lawful_collect_def by simp
  moreover have "fs (cs_files t) ?q = fs f2 ?q"
    using collect x q calculation unfolding lawful_collect_def by simp
  ultimately show ?thesis by simp
qed

lemma collectGenFiles_gentxs:
  assumes lay: "layout_ok (ia_outputDir args) (ia_nodeDirPrefix args)" and id: "CHR ''/'' \<notin> set nodeID"
    and run: "collectGenFiles env args c ids pks peers f = (Ok (), t)"
  shows "fs (cs_files t) (gentx_file (ia_outputDir args) (ia_nodeDirPrefix args) j nodeID) =
    fs f (gentx_file (ia_outputDir args) (ia_nodeDirPrefix args) j nodeID)"
  by (rule for_each_prefix [OF run [unfolded collectGenFiles_def], where P = "\<lambda>_ s. fs (cs_files s)
        (gentx_file (ia_outputDir args) (ia_nodeDirPrefix args) j nodeID) =
        fs f (gentx_file (ia_outputDir args) (ia_nodeDirPrefix args) j nodeID)"])
    (simp_all add: collect_node_gentxs [OF lay id])

text \<open>The whole command: the identifiers are those the loop over the nodes obtained.\<close>

lemma initTestnetFiles_gentxs:
  assumes run: "initTestnetFiles env c args f = (Ok (), g)"
    and lay: "layout_ok (ia_outputDir args) (ia_nodeDirPrefix args)"
    and wd: "os_Getwd (te_os env) = Ok wd" "IsAbs wd" and fresh: "fresh_ids env args"
  shows "\<exists>ids. length ids = nat (ia_numValidators args) \<and> distinct ids \<and>
    (\<forall>k < length ids. id_from env args k (ids ! k)) \<and>
    (\<forall>j < length ids. \<forall>k < length ids.
       fs g (gentx_file (ia_outputDir args) (ia_nodeDirPrefix args) j (ids ! k)) =
         fs g (gentx_file (ia_outputDir args) (ia_nodeDirPrefix args) k (ids ! k)) \<and>
       (1 < length ids \<longrightarrow>
         fs g (gentx_file (ia_outputDir args) (ia_nodeDirPrefix args) j (ids ! k)) \<noteq> None))"
proof -
  let ?args = "choose_chain_id env args" and ?n = "nat (ia_numValidators args)"
  let ?path = "gentx_file (ia_outputDir args) (ia_nodeDirPrefix args)"
  from initTestnetFiles_Ok [OF run] obtain st :: "'f node_setup" and f1 f2 cs where
    nodes: "for_each (init_node env ?args) [0..<nat (ia_numValidators ?args)] (init_setup env ?args c f) = (Ok (), st)"
    and copy: "copy_gentxs (te_os env) (ia_outputDir args) (ia_nodeDirPrefix args) ?n (su_gentxsFiles st) f1 = (Ok (), f2)"
    and coll: "collectGenFiles env ?args (su_nodeConfig st) (su_nodeIDs st) (su_valPubKeys st)
      (su_persistentPeers st) f2 = (Ok (), cs)"
    and g: "g = cs_files cs"
    unfolding Let_def by auto
  let ?ids = "su_nodeIDs st"
  from init_nodes_done [OF nodes] have len: "length ?ids = ?n"
    and from_: "\<forall>k < ?n. id_from env args k (?ids ! k)"
    and files: "su_gentxsFiles st = map (\<lambda>k. ?path k (?ids ! k)) [0..<?n]"
    by (simp_all add: nodes_done_def id_from_def)
  have ids: "ids_ok ?ids"
    using fresh from_ len unfolding ids_ok_def fresh_ids_def distinct_conv_nth list_all_length by metis
  have sp: "spread (\<lambda>j k. ?path j (?ids ! k)) ({0..<length ?ids} \<times> {0..<length ?ids}) (fs f1) (fs f2)"
    by (rule copy_gentxs_spread [OF lay ids wd]) (use copy files len in simp)
  have keep: "fs g (?path j (?ids ! k)) = fs f2 (?path j (?ids ! k))" if "k < ?n" for j k
    using collectGenFiles_gentxs [of ?args "?ids ! k", OF _ _ coll] lay ids that len g
    by (simp add: ids_ok_def list_all_length)
  have at: "(j, k) \<in> {0..<length ?ids} \<times> {0..<length ?ids}" if "j < ?n" "k < ?n" for j k
    using that len by simp
  note same = spread_at [OF sp at]
  have "fs f1 (?path k (?ids ! k)) \<noteq> None" if "k < ?n" "1 < ?n" for k
  proof -
    have "\<exists>j < ?n. j \<noteq> k" using that by (intro exI [of _ "if k = 0 then 1 else 0"]) simp
    then show ?thesis using same that(1) by metis
  qed
  moreover have "distinct ?ids" using ids by (simp add: ids_ok_def)
  ultimately show ?thesis using len from_ keep same(1) by (intro exI [of _ ?ids]) simp
qed

end

lemma gentx_files_intro: "lawful_files (te_os env) fs \<Longrightarrow> lawful_collect env fs \<Longrightarrow> gentx_files env fs"
  by (intro gentx_files.intro file_store.intro gentx_files_axioms.intro)

end
