(* ===== verification/Testnet_Genesis.thy ===== *)
theory Testnet_Genesis
  imports Testnet_Gentxs "HOL-Library.Multiset"
begin

text \<open>
  What the command \<open>multi-node\<close> writes for the nodes: the bank's genesis state, whose supply is the sum
  of the balances, and the configuration file of each node.
\<close>

section \<open>The balances of the nodes\<close>

text \<open>The amount of a denomination in a list of coins.\<close>

definition amount_of :: "coin list \<Rightarrow> string \<Rightarrow> int" where
  "amount_of cs d = sum_list (map snd (filter (\<lambda>c. fst c = d) cs))"

text \<open>
  What the SDK documents of its coins: \<open>NewCoin\<close> gives the coin it is asked for, \<open>Add\<close> adds by
  denomination, \<open>Sort\<close> keeps the amounts, and \<open>SanitizeGenesisBalances\<close> sorts.
\<close>

definition lawful_coins :: "('f, 'k, 'm, 't, 'g) testnet_env \<Rightarrow> bool" where
  "lawful_coins env \<longleftrightarrow>
     (\<forall>d n c. te_NewCoin env d n = Ok c \<longrightarrow> c = (d, n)) \<and>
     (\<forall>as bs d. amount_of (te_AddCoins env as bs) d = amount_of as d + amount_of bs d) \<and>
     (\<forall>cs d. amount_of (te_SortCoins env cs) d = amount_of cs d) \<and>
     (\<forall>bs bs'. te_SanitizeGenesisBalances env bs = Ok bs' \<longrightarrow>
        image_mset (\<lambda>b. amount_of (bl_Coins b)) (mset bs') = image_mset (\<lambda>b. amount_of (bl_Coins b)) (mset bs))"

text \<open>What every node owns at genesis.\<close>

definition node_amount :: "('f, 'k, 'm, 't, 'g) testnet_env \<Rightarrow> string \<Rightarrow> int" where
  "node_amount env d =
     (if d = ''testtoken'' then te_TokensFromConsensusPower env 1000 else 0) +
     (if d = te_DefaultBondDenom env then te_TokensFromConsensusPower env 500 else 0)"

lemma init_account_balance:
  assumes "lawful_coins env" "init_account env args i st = (Ok r, t)"
  shows "\<exists>b. su_genBalances t = su_genBalances st @ [b] \<and> amount_of (bl_Coins b) = node_amount env"
proof -
  from assms(2) obtain tok stk a where
    n: "te_NewCoin env ''testtoken'' (te_TokensFromConsensusPower env 1000) = Ok tok"
      "te_NewCoin env (te_DefaultBondDenom env) (te_TokensFromConsensusPower env 500) = Ok stk"
    and t: "su_genBalances t = su_genBalances st @ [\<lparr>bl_Address = a, bl_Coins = te_SortCoins env [tok, stk]\<rparr>]"
    by (auto simp: init_account_def Let_def outcome_simps)
  have "tok = (''testtoken'', te_TokensFromConsensusPower env 1000)"
    "stk = (te_DefaultBondDenom env, te_TokensFromConsensusPower env 500)"
    "amount_of (te_SortCoins env [tok, stk]) = amount_of [tok, stk]"
    using n assms(1) unfolding lawful_coins_def by (blast, blast, auto simp: fun_eq_iff)
  then have "amount_of (te_SortCoins env [tok, stk]) = node_amount env"
    by (auto simp: amount_of_def node_amount_def fun_eq_iff)
  with t show ?thesis by simp
qed

lemma init_node_balance:
  assumes "lawful_coins env" "init_node env args i st = (Ok r, t)"
  shows "\<exists>b. su_genBalances t = su_genBalances st @ [b] \<and> amount_of (bl_Coins b) = node_amount env"
proof -
  from assms(2) obtain r1 s1 a s2 r3 s3 where
    v: "init_validator env args i st = (Ok r1, s1)" and a: "init_account env args i s1 = (Ok a, s2)"
    and g: "init_gentx env args i a s2 = (Ok r3, s3)" and p: "init_app_toml env args i s3 = (Ok r, t)"
    by (auto simp: init_node_def outcome_simps)
  have "su_genBalances s1 = su_genBalances st" using init_validator_Ok [OF v] by blast
  then show ?thesis
    using init_account_balance [OF assms(1) a] init_gentx_Ok [OF g] init_app_toml_Ok [OF p] by simp
qed

lemma init_nodes_balances:
  assumes "lawful_coins env"
    and "for_each (init_node env args) [0..<n] (init_setup env args c f) = (Ok (), t)"
  shows "map (\<lambda>b. amount_of (bl_Coins b)) (su_genBalances t) = replicate n (node_amount env)"
proof -
  have "map (\<lambda>b. amount_of (bl_Coins b)) (su_genBalances t) = replicate (length [0..<n]) (node_amount env)"
  proof (rule for_each_prefix [OF assms(2), where P = "\<lambda>done s.
      map (\<lambda>b. amount_of (bl_Coins b)) (su_genBalances s) = replicate (length done) (node_amount env)"])
    fix xs rest :: "nat list" and x s s'
    assume "map (\<lambda>b. amount_of (bl_Coins b)) (su_genBalances s) = replicate (length xs) (node_amount env)"
      and "init_node env args x s = (Ok (), s')"
    then show "map (\<lambda>b. amount_of (bl_Coins b)) (su_genBalances s') =
        replicate (length (xs @ [x])) (node_amount env)"
      using init_node_balance [OF assms(1)] by (fastforce simp: replicate_append_same)
  qed (simp add: init_setup_def Let_def)
  then show ?thesis by simp
qed

section \<open>The supply\<close>

lemma fold_supply:
  assumes "lawful_coins env"
  shows "amount_of (fold (\<lambda>bal supply. te_AddCoins env supply (bl_Coins bal)) bs s0) d =
    amount_of s0 d + sum_list (map (\<lambda>b. amount_of (bl_Coins b) d) bs)"
  using assms by (induction bs arbitrary: s0) (simp_all add: lawful_coins_def)

lemma initial_app_state_Ok:
  assumes "initial_app_state env accs bals = Ok raw"
  shows "\<exists>bank0 bals' bank1 authRaw bankRaw.
    te_UnmarshalBank env (te_DefaultGenesis env bank_module) = Ok bank0 \<and>
    te_SanitizeGenesisBalances env bals = Ok bals' \<and>
    bank1 = bank0\<lparr>bg_Balances := bals',
      bg_Supply := fold (\<lambda>bal supply. te_AddCoins env supply (bl_Coins bal)) bals' (bg_Supply bank0)\<rparr> \<and>
    te_MarshalBank env bank1 = Ok bankRaw \<and>
    te_MarshalIndent env ((te_DefaultGenesis env)(auth_module \<mapsto> authRaw, bank_module \<mapsto> bankRaw)) = Ok raw"
proof -
  have ne: "bank_module \<noteq> auth_module" by (simp add: bank_module_def auth_module_def)
  have must: "must r = Ok x \<longleftrightarrow> r = Ok x" for r :: "(go_error, 'z) outcome" and x by (cases r) auto
  show ?thesis
    using assms unfolding initial_app_state_def Let_def by (auto simp: outcome_simps must ne)
qed

text \<open>The documents of a run: one application state, saved at every node.\<close>

lemma initTestnetFiles_supply:
  assumes "initTestnetFiles env c args f = (Ok (), g)" "lawful_coins env"
  shows "\<exists>bank0 bank1 authRaw bankRaw raw files f0 f1.
    te_UnmarshalBank env (te_DefaultGenesis env bank_module) = Ok bank0 \<and> te_MarshalBank env bank1 = Ok bankRaw \<and>
    te_MarshalIndent env ((te_DefaultGenesis env)(auth_module \<mapsto> authRaw, bank_module \<mapsto> bankRaw)) = Ok raw \<and>
    for_each (\<lambda>i f. chain_st (get_at files (int i), f)
        (\<lambda>path f. te_SaveGenesisDoc env (ia_chainID (choose_chain_id env args)) raw path f))
      [0..<nat (ia_numValidators args)] f0 = (Ok (), f1) \<and>
    length (bg_Balances bank1) = nat (ia_numValidators args) \<and>
    (\<forall>b \<in> set (bg_Balances bank1). \<forall>d. amount_of (bl_Coins b) d = node_amount env d) \<and>
    (\<forall>d. amount_of (bg_Supply bank1) d =
      amount_of (bg_Supply bank0) d + sum_list (map (\<lambda>b. amount_of (bl_Coins b) d) (bg_Balances bank1))) \<and>
    bg_rest bank1 = bg_rest bank0"
proof -
  let ?n = "nat (ia_numValidators args)" and ?amounts = "\<lambda>bs. map (\<lambda>b. amount_of (bl_Coins b)) bs"
  from initTestnetFiles_Ok [OF assms(1)] obtain st :: "'a node_setup" and f1 where
    nodes: "for_each (init_node env (choose_chain_id env args)) [0..<?n] (init_setup env (choose_chain_id env args) c f) = (Ok (), st)"
    and gen: "initGenFiles env (ia_chainID (choose_chain_id env args)) (su_genAccounts st) (su_genBalances st)
      (su_genFiles st) ?n (su_files st) = (Ok (), f1)"
    unfolding Let_def by auto
  from gen obtain raw where raw: "initial_app_state env (su_genAccounts st) (su_genBalances st) = Ok raw"
    and save: "for_each (\<lambda>i f. chain_st (get_at (su_genFiles st) (int i), f)
        (\<lambda>path f. te_SaveGenesisDoc env (ia_chainID (choose_chain_id env args)) raw path f)) [0..<?n] (su_files st) = (Ok (), f1)"
    by (auto simp: initGenFiles_def chain_st_Ok_iff)
  from initial_app_state_Ok [OF raw] obtain bank0 bals' bank1 authRaw bankRaw where
    b: "te_UnmarshalBank env (te_DefaultGenesis env bank_module) = Ok bank0" "te_MarshalBank env bank1 = Ok bankRaw"
      "te_MarshalIndent env ((te_DefaultGenesis env)(auth_module \<mapsto> authRaw, bank_module \<mapsto> bankRaw)) = Ok raw"
    and s: "te_SanitizeGenesisBalances env (su_genBalances st) = Ok bals'"
    and b1: "bank1 = bank0\<lparr>bg_Balances := bals',
      bg_Supply := fold (\<lambda>bal supply. te_AddCoins env supply (bl_Coins bal)) bals' (bg_Supply bank0)\<rparr>"
    by blast
  have "mset (?amounts bals') = mset (replicate ?n (node_amount env))"
    using init_nodes_balances [OF assms(2) nodes] assms(2) s unfolding lawful_coins_def by (metis mset_map)
  then have len: "length bals' = ?n" and set: "set (?amounts bals') \<subseteq> {node_amount env}"
    by (metis length_map length_replicate size_mset, metis set_mset_mset set_replicate_conv_if empty_subsetI order_refl)
  have "length (bg_Balances bank1) = ?n" by (simp add: b1 len)
  moreover have "\<forall>b \<in> set (bg_Balances bank1). \<forall>d. amount_of (bl_Coins b) d = node_amount env d"
    using set by (auto simp: b1)
  moreover have "amount_of (bg_Supply bank1) d = amount_of (bg_Supply bank0) d +
      sum_list (map (\<lambda>b. amount_of (bl_Coins b) d) (bg_Balances bank1))" for d
    unfolding b1 by (simp add: fold_supply [OF assms(2)])
  moreover have "bg_rest bank1 = bg_rest bank0" by (simp add: b1)
  ultimately show ?thesis using b save by blast
qed

section \<open>The configuration files\<close>

text \<open>
  The config.toml files, read as a map \<open>cfg\<close> from paths. \<open>GenAppStateFromConfig\<close> rewrites the one of
  its node, with other peers; the writer writes the path it is given; the export writes none.
\<close>

definition config_path :: "initArgs \<Rightarrow> nat \<Rightarrow> string" where
  "config_path args i =
     filepath_Join [node_dir (ia_outputDir args) (ia_nodeDirPrefix args) i, ''config'', ''config.toml'']"

definition lawful_configs ::
  "('f, 'k, 'm, 't, 'g) testnet_env \<Rightarrow> ('f \<Rightarrow> string \<rightharpoonup> NodeConfig) \<Rightarrow> bool" where
  "lawful_configs env cfg \<longleftrightarrow>
     (\<forall>c ic g f st d h. te_GenAppStateFromConfig env c ic g f = (Ok (st, d), h) \<longrightarrow>
        nc_RootDir d = nc_RootDir c \<and> nc_Moniker d = nc_Moniker c \<and>
        (\<forall>q. q \<noteq> filepath_Join [nc_RootDir c, ''config'', ''config.toml''] \<longrightarrow> cfg h q = cfg f q)) \<and>
     (\<forall>p c f h. te_WriteNodeToml env p c f = (Ok (), h) \<longrightarrow> cfg h = (cfg f)(p \<mapsto> c)) \<and>
     (\<forall>p c a t f h. te_ExportGenesisFileWithTime env p c a t f = (Ok (), h) \<longrightarrow> cfg h = cfg f)"

text \<open>A configuration with which node \<open>i\<close> runs beside the others.\<close>

definition runs_as :: "initArgs \<Rightarrow> string \<Rightarrow> nat \<Rightarrow> NodeConfig \<Rightarrow> bool" where
  "runs_as args peers i c \<longleftrightarrow>
     nc_RootDir c = node_dir (ia_outputDir args) (ia_nodeDirPrefix args) i \<and>
     nc_Moniker c = nodeDirName (ia_nodeDirPrefix args) i \<and>
     nc_P2P_PersistentPeers c = peers \<and> nc_P2P_AllowDuplicateIP c \<and>
     nc_P2P_ListenAddress c = ''tcp://0.0.0.0:'' @ service_port P2P i \<and>
     nc_RPC_ListenAddress c = ''tcp://127.0.0.1:'' @ port_of args i \<and>
     nc_ProxyApp c = ''tcp://127.0.0.1:'' @ service_port Proxy i \<and>
     nc_PrometheusListenAddr c = '':'' @ service_port Prometheus i \<and> nc_Prometheus c"

lemma config_path_inj:
  assumes "layout_ok (ia_outputDir args) (ia_nodeDirPrefix args)"
  shows "config_path args i = config_path args j \<longleftrightarrow> i = j"
proof
  let ?d = "ia_outputDir args" and ?p = "ia_nodeDirPrefix args"
  have w: "proper_name ''config.toml''" by (simp add: proper_name_def)
  have n: "proper_name (nodeDirName ?p i)" for i using assms nodeDirName_proper by (simp add: layout_ok_def)
  assume "config_path args i = config_path args j"
  then have "clean_components ?d @ [nodeDirName ?p i, ''config'', ''config.toml''] =
      clean_components ?d @ [nodeDirName ?p j, ''config'', ''config.toml'']"
    unfolding config_path_def config_file_eq [OF assms w]
    using assms n w config_proper by (intro path_of_inj [of _ _ "IsAbs ?d"]) (simp_all add: layout_ok_def)
  then show "i = j" by (simp add: nodeDirName_inj)
qed simp

locale config_files =
  fixes env :: "('f, 'k, 'm, 't, 'g) testnet_env" and cfg :: "'f \<Rightarrow> string \<rightharpoonup> NodeConfig"
  assumes configs: "lawful_configs env cfg"
begin

lemma collect_node_config:
  assumes "collect_node env args ids pks peers tm i s = (Ok (), t)"
  shows "\<exists>c. cfg (cs_files t) (config_path args i) = Some c \<and> runs_as args peers i c \<and>
    (\<forall>q. q \<noteq> config_path args i \<longrightarrow> cfg (cs_files t) q = cfg (cs_files s) q)"
proof -
  let ?dir = "node_dir (ia_outputDir args) (ia_nodeDirPrefix args) i"
  let ?c = "(cs_nodeConfig s)\<lparr>nc_Moniker := nodeDirName (ia_nodeDirPrefix args) i, nc_RootDir := ?dir\<rparr>"
  from assms obtain ic g st d a f1 f2 where
    gg: "te_GenAppStateFromConfig env ?c ic g (cs_files s) = (Ok (st, d), f1)"
    and w: "te_WriteNodeToml env (filepath_Join [nc_RootDir d, ''config'', ''config.toml''])
      (final_config args peers i d) f1 = (Ok (), f2)"
    and x: "te_ExportGenesisFileWithTime env (te_GenesisFile env (final_config args peers i d)) (ia_chainID args)
      a tm f2 = (Ok (), cs_files t)"
    unfolding collect_node_def Let_def node_dir_def
    by (auto simp: chain_st_Ok_iff on_collect_Ok)
  have "nc_RootDir d = nc_RootDir ?c \<and> nc_Moniker d = nc_Moniker ?c \<and>
      (\<forall>q. q \<noteq> filepath_Join [nc_RootDir ?c, ''config'', ''config.toml''] \<longrightarrow> cfg f1 q = cfg (cs_files s) q)"
    and "cfg f2 = (cfg f1)(filepath_Join [nc_RootDir d, ''config'', ''config.toml''] \<mapsto> final_config args peers i d)"
    and "cfg (cs_files t) = cfg f2"
    using configs gg w x unfolding lawful_configs_def by blast+
  then have t: "cfg (cs_files t) = (cfg f1)(config_path args i \<mapsto> final_config args peers i d)"
    and f: "q \<noteq> config_path args i \<Longrightarrow> cfg f1 q = cfg (cs_files s) q"
    and d: "nc_RootDir d = ?dir" "nc_Moniker d = nodeDirName (ia_nodeDirPrefix args) i" for q
    by (simp_all add: config_path_def)
  have "runs_as args peers i (final_config args peers i d)"
    using d by (simp add: runs_as_def final_config_def)
  then show ?thesis using t f by simp
qed

lemma collectGenFiles_configs:
  assumes lay: "layout_ok (ia_outputDir args) (ia_nodeDirPrefix args)"
    and run: "collectGenFiles env args c ids pks peers f = (Ok (), t)"
  shows "\<forall>i < nat (ia_numValidators args). \<exists>c. cfg (cs_files t) (config_path args i) = Some c \<and> runs_as args peers i c"
proof -
  have "\<forall>i \<in> set [0..<nat (ia_numValidators args)].
      \<exists>c. cfg (cs_files t) (config_path args i) = Some c \<and> runs_as args peers i c"
  proof (rule for_each_prefix [OF run [unfolded collectGenFiles_def], where P = "\<lambda>nodes s. \<forall>i \<in> set nodes.
        \<exists>c. cfg (cs_files s) (config_path args i) = Some c \<and> runs_as args peers i c"])
    fix xs x rest s s'
    assume old: "\<forall>i \<in> set xs. \<exists>c. cfg (cs_files s) (config_path args i) = Some c \<and> runs_as args peers i c"
      and step: "collect_node env args ids pks peers (te_Now env) x s = (Ok (), s')"
    from collect_node_config [OF step] obtain c where
      new: "cfg (cs_files s') (config_path args x) = Some c" "runs_as args peers x c"
      and keep: "\<And>q. q \<noteq> config_path args x \<Longrightarrow> cfg (cs_files s') q = cfg (cs_files s) q"
      by blast
    show "\<forall>i \<in> set (xs @ [x]). \<exists>c. cfg (cs_files s') (config_path args i) = Some c \<and> runs_as args peers i c"
    proof
      fix i assume "i \<in> set (xs @ [x])"
      then show "\<exists>c. cfg (cs_files s') (config_path args i) = Some c \<and> runs_as args peers i c"
        using old new keep [of "config_path args i"] config_path_inj [OF lay, of i x] by (cases "i = x") auto
    qed
  qed simp
  then show ?thesis by simp
qed

lemma initTestnetFiles_configs:
  assumes run: "initTestnetFiles env c args f = (Ok (), g)"
    and lay: "layout_ok (ia_outputDir args) (ia_nodeDirPrefix args)"
  shows "\<exists>ids. length ids = nat (ia_numValidators args) \<and>
    (\<forall>k < length ids. id_from env args k (ids ! k)) \<and>
    (\<forall>i < length ids. \<exists>c. cfg g (config_path args i) = Some c \<and>
      runs_as args (join_with (CHR '','') (map (\<lambda>k. node_memo args k (ids ! k)) [0..<length ids])) i c)"
proof -
  let ?args = "choose_chain_id env args" and ?n = "nat (ia_numValidators args)"
  from initTestnetFiles_Ok [OF run] obtain st :: "'f node_setup" and f2 cs where
    nodes: "for_each (init_node env ?args) [0..<nat (ia_numValidators ?args)] (init_setup env ?args c f) = (Ok (), st)"
    and coll: "collectGenFiles env ?args (su_nodeConfig st) (su_nodeIDs st) (su_valPubKeys st)
      (su_persistentPeers st) f2 = (Ok (), cs)" and g: "g = cs_files cs"
    unfolding Let_def by auto
  have same: "node_memo ?args = node_memo args" "runs_as ?args = runs_as args" "config_path ?args = config_path args"
    by (simp_all add: fun_eq_iff node_memo_def runs_as_def config_path_def port_of_def choose_chain_id_def)
  from init_nodes_done [OF nodes] have "length (su_nodeIDs st) = ?n"
    and "\<forall>k < ?n. id_from env args k (su_nodeIDs st ! k)"
    and "su_persistentPeers st = join_with (CHR '','') (map (\<lambda>k. node_memo args k (su_nodeIDs st ! k)) [0..<?n])"
    by (simp_all add: nodes_done_def id_from_def same)
  with collectGenFiles_configs [OF _ coll] lay show ?thesis
    by (intro exI [of _ "su_nodeIDs st"]) (simp add: same g)
qed

end

end
