(* ===== verification/Testnet_Declarations.thy ===== *)
theory Testnet_Declarations
  imports Testnet_Gentxs
begin

text \<open>
  What the genesis transactions of \<open>multi-node\<close> say, from the node that signs one to every node's
  directory at the end of the command: the consensus key of the node, the stake and the name of its
  position, the address under which its peers reach it, and the chain it is for.
\<close>

section \<open>The content of a genesis transaction\<close>

text \<open>What a signed transaction says: its one message, its memo, and the chain it is signed for.\<close>

record gentx_content =
  de_msg :: create_validator
  de_memo :: string
  de_chain :: string

text \<open>
  The transaction of node \<open>k\<close>, for the node's identifier and consensus key, the address of its
  operator and its stake.
\<close>

definition node_content ::
  "('f, 'k, 'm, 't, 'g) testnet_env \<Rightarrow> initArgs \<Rightarrow> nat \<Rightarrow> string \<Rightarrow> bytes \<Rightarrow> bytes \<Rightarrow> coin \<Rightarrow> gentx_content" where
  "node_content env args k nodeID pk addr stake =
     \<lparr>de_msg = \<lparr>cv_ValidatorAddress = te_ValAddressString env addr, cv_PubKey = pk, cv_Value = stake,
        cv_Moniker = nodeDirName (ia_nodeDirPrefix args) k,
        cv_Rates = \<lparr>cr_Rate = dec_of 1 0, cr_MaxRate = dec_of 1 0, cr_MaxChangeRate = dec_of 1 0\<rparr>,
        cv_MinSelfDelegation = 1\<rparr>,
      de_memo = node_memo args k nodeID, de_chain = ia_chainID args\<rparr>"

text \<open>
  How the transaction helpers of the SDK are read: the message of a \<open>MsgCreateValidator\<close>, the message
  and memo of a transaction that is being built, the chain of its signature, and the transaction in
  a file.
\<close>

record ('m, 't) tx_views =
  tv_msg :: "'m \<Rightarrow> create_validator"
  tv_body :: "'t \<Rightarrow> create_validator option \<times> string"
  tv_chain :: "'t \<Rightarrow> string"
  tv_read :: "bytes \<Rightarrow> gentx_content option"

definition lawful_txs :: "('f, 'k, 'm, 't, 'g) testnet_env \<Rightarrow> ('m, 't) tx_views \<Rightarrow> bool" where
  "lawful_txs env v \<longleftrightarrow>
     (\<forall>c m. te_NewMsgCreateValidator env c = Ok m \<longrightarrow> tv_msg v m = c) \<and>
     (\<forall>m b b'. te_SetMsgs env m b = Ok b' \<longrightarrow> tv_body v b' = (Some (tv_msg v m), snd (tv_body v b))) \<and>
     (\<forall>s b. tv_body v (te_SetMemo env s b) = (fst (tv_body v b), s)) \<and>
     (\<forall>fac name b ow f b' h. te_Sign env fac name b ow f = (Ok b', h) \<longrightarrow>
        tv_body v b' = tv_body v b \<and> tv_chain v b' = tf_ChainID fac) \<and>
     (\<forall>b bz c s. te_TxJSONEncoder env b = Ok bz \<longrightarrow> tv_body v b = (Some c, s) \<longrightarrow>
        tv_read v bz = Some \<lparr>de_msg = c, de_memo = s, de_chain = tv_chain v b\<rparr>)"

text \<open>
  Which files the calls of the loop over the nodes write: none of the genesis transactions but the
  one that \<open>writeFile\<close> is given. The key ring and the node's keys have directories of their own.
\<close>

definition keeps_gentxs ::
  "initArgs \<Rightarrow> ('f \<Rightarrow> string \<Rightarrow> bytes option) \<Rightarrow> ('f \<Rightarrow> (go_error, 'a) outcome \<times> 'f) \<Rightarrow> bool" where
  "keeps_gentxs args fs call \<longleftrightarrow>
     (\<forall>f a h j nodeID. call f = (Ok a, h) \<longrightarrow> CHR ''/'' \<notin> set nodeID \<longrightarrow>
        fs h (gentx_file (ia_outputDir args) (ia_nodeDirPrefix args) j nodeID) =
        fs f (gentx_file (ia_outputDir args) (ia_nodeDirPrefix args) j nodeID))"

definition lawful_nodes ::
  "('f, 'k, 'm, 't, 'g) testnet_env \<Rightarrow> initArgs \<Rightarrow> ('f \<Rightarrow> string \<Rightarrow> bytes option) \<Rightarrow> bool" where
  "lawful_nodes env args fs \<longleftrightarrow>
     (\<forall>p. keeps_gentxs args fs (os_MkdirAll (te_os env) p)) \<and>
     (\<forall>p b f h. os_WriteFile (te_os env) p b f = (Ok (), h) \<longrightarrow> fs h = (fs f)(p \<mapsto> b)) \<and>
     (\<forall>c. keeps_gentxs args fs (te_InitializeNodeValidatorFiles env c)) \<and>
     (\<forall>n b d. keeps_gentxs args fs (te_NewKeyring env n b d)) \<and>
     (\<forall>kb n m ow a. keeps_gentxs args fs (te_GenerateSaveCoinKey env kb n m ow a)) \<and>
     (\<forall>fac n b ow. keeps_gentxs args fs (te_Sign env fac n b ow)) \<and>
     (\<forall>p c f h q. te_WriteAppToml env p c f = (Ok (), h) \<longrightarrow> q \<noteq> p \<longrightarrow> fs h q = fs f q) \<and>
     (\<forall>n raw p f h q. te_SaveGenesisDoc env n raw p f = (Ok (), h) \<longrightarrow> q \<noteq> p \<longrightarrow> fs h q = fs f q)"

text \<open>The keys of node \<open>k\<close>: returned together with its identifier; and the account made in its name.\<close>

definition keys_from :: "('f, 'k, 'm, 't, 'g) testnet_env \<Rightarrow> initArgs \<Rightarrow> nat \<Rightarrow> string \<Rightarrow> bytes \<Rightarrow> bool" where
  "keys_from env args k nodeID pk \<longleftrightarrow>
     (\<exists>c u h. te_InitializeNodeValidatorFiles env c u = (Ok (nodeID, pk), h) \<and>
        nc_RootDir c = node_dir (ia_outputDir args) (ia_nodeDirPrefix args) k \<and>
        nc_Moniker c = nodeDirName (ia_nodeDirPrefix args) k)"

definition account_from :: "('f, 'k, 'm, 't, 'g) testnet_env \<Rightarrow> initArgs \<Rightarrow> nat \<Rightarrow> bytes \<Rightarrow> bool" where
  "account_from env args k addr \<longleftrightarrow>
     (\<exists>kb algo u secret h. te_GenerateSaveCoinKey env kb (nodeDirName (ia_nodeDirPrefix args) k) [] True algo u =
        (Ok (addr, secret), h))"

lemma keys_id_from: "keys_from env args k nodeID pk \<Longrightarrow> id_from env args k nodeID"
  unfolding keys_from_def id_from_def by blast

lemma mkdir_failure_Ok: "mkdir_failure d r = (Ok a, s) \<longleftrightarrow> r = (Ok a, s)"
  by (cases "(d, r)" rule: mkdir_failure.cases) auto

text \<open>The file holds the declaration of node \<open>k\<close>.\<close>

definition declares ::
  "('f, 'k, 'm, 't, 'g) testnet_env \<Rightarrow> initArgs \<Rightarrow> (bytes \<Rightarrow> gentx_content option) \<Rightarrow> nat \<Rightarrow> string \<Rightarrow> bytes \<Rightarrow>
   bytes option \<Rightarrow> bool" where
  "declares env args read k nodeID pk content \<longleftrightarrow>
     (\<exists>bz addr stake. content = Some bz \<and> account_from env args k addr \<and> stake_of env args k = Ok stake \<and>
        read bz = Some (node_content env args k nodeID pk addr stake))"

section \<open>One node\<close>

text \<open>The interface: the files, the calls of the loop over the nodes, and the transactions.\<close>

locale gentx_authors = gentx_files env fs
  for env :: "('f, 'k, 'm, 't, 'g) testnet_env" and fs :: "'f \<Rightarrow> string \<Rightarrow> bytes option" +
  fixes args :: initArgs and v :: "('m, 't) tx_views"
  assumes nodes: "lawful_nodes env args fs" and txs: "lawful_txs env v"
    and layout: "layout_ok (ia_outputDir args) (ia_nodeDirPrefix args)"
begin

lemma keeps:
  "keeps_gentxs args fs call \<Longrightarrow> call f = (Ok a, h) \<Longrightarrow> CHR ''/'' \<notin> set nodeID \<Longrightarrow>
   fs h (gentx_file (ia_outputDir args) (ia_nodeDirPrefix args) j nodeID) =
   fs f (gentx_file (ia_outputDir args) (ia_nodeDirPrefix args) j nodeID)"
  unfolding keeps_gentxs_def by blast

lemma node_calls:
  shows mkdir: "keeps_gentxs args fs (os_MkdirAll (te_os env) p)"
    and init_files: "keeps_gentxs args fs (te_InitializeNodeValidatorFiles env c)"
    and keyring: "keeps_gentxs args fs (te_NewKeyring env n b dir)"
    and coin_key: "keeps_gentxs args fs (te_GenerateSaveCoinKey env kb n m ow a)"
    and sign: "keeps_gentxs args fs (te_Sign env fac n tb ow)"
  using nodes by (simp_all add: lawful_nodes_def)

lemma written: "os_WriteFile (te_os env) p bz f = (Ok (), h) \<Longrightarrow> fs h = (fs f)(p \<mapsto> bz)"
  and app_toml: "te_WriteAppToml env p ac f = (Ok (), h) \<Longrightarrow> q \<noteq> p \<Longrightarrow> fs h q = fs f q"
  and save_doc: "te_SaveGenesisDoc env n bz p f = (Ok (), h) \<Longrightarrow> q \<noteq> p \<Longrightarrow> fs h q = fs f q"
  using nodes unfolding lawful_nodes_def by meson+

lemma writeFile_at:
  assumes "writeFile (te_os env) p dir bz f = (Ok (), h)"
  shows "fs h p = Some bz"
    and "CHR ''/'' \<notin> set nodeID \<Longrightarrow> gentx_file (ia_outputDir args) (ia_nodeDirPrefix args) j nodeID \<noteq> p \<Longrightarrow>
      fs h (gentx_file (ia_outputDir args) (ia_nodeDirPrefix args) j nodeID) =
      fs f (gentx_file (ia_outputDir args) (ia_nodeDirPrefix args) j nodeID)"
proof -
  from assms obtain u f1 where d: "os_MkdirAll (te_os env) dir f = (Ok u, f1)"
    and w: "os_WriteFile (te_os env) p bz f1 = (Ok (), h)"
    by (auto simp: writeFile_def outcome_simps mkdir_failure_Ok)
  show "fs h p = Some bz" using written [OF w] by simp
  show "fs h (gentx_file (ia_outputDir args) (ia_nodeDirPrefix args) j nodeID) =
      fs f (gentx_file (ia_outputDir args) (ia_nodeDirPrefix args) j nodeID)"
    if "CHR ''/'' \<notin> set nodeID" "gentx_file (ia_outputDir args) (ia_nodeDirPrefix args) j nodeID \<noteq> p"
    using written [OF w] keeps [OF mkdir d that(1)] that(2) by simp
qed

lemma init_validator_keys:
  assumes run: "init_validator env args i st = (Ok r, t)"
  shows "\<exists>nodeID pk. su_nodeIDs t = (su_nodeIDs st)[i := nodeID] \<and>
    su_valPubKeys t = (su_valPubKeys st)[i := pk] \<and> keys_from env args i nodeID pk \<and>
    su_genFiles t = su_genFiles st @
      [filepath_Join [node_dir (ia_outputDir args) (ia_nodeDirPrefix args) i, ''config'', ''genesis.json'']] \<and>
    (\<forall>j b. CHR ''/'' \<notin> set b \<longrightarrow>
       fs (su_files t) (gentx_file (ia_outputDir args) (ia_nodeDirPrefix args) j b) =
       fs (su_files st) (gentx_file (ia_outputDir args) (ia_nodeDirPrefix args) j b))"
proof -
  let ?c = "(su_nodeConfig st)\<lparr>nc_RootDir := node_dir (ia_outputDir args) (ia_nodeDirPrefix args) i,
    nc_Moniker := nodeDirName (ia_nodeDirPrefix args) i,
    nc_RPC_ListenAddress := ''tcp://0.0.0.0:'' @ port_of args i\<rparr>"
  from run obtain p d u nodeID pk h where
    mk: "os_MkdirAll (te_os env) p (su_files st) = (Ok d, u)"
    and id: "te_InitializeNodeValidatorFiles env ?c u = (Ok (nodeID, pk), h)"
    and t: "su_nodeIDs t = (su_nodeIDs st)[i := nodeID]" "su_valPubKeys t = (su_valPubKeys st)[i := pk]"
      "su_genFiles t = su_genFiles st @ [te_GenesisFile env ?c]" "su_files t = h"
    unfolding init_validator_def Let_def node_dir_def by (auto simp: outcome_simps)
  have "keys_from env args i nodeID pk"
    using id unfolding keys_from_def by (intro exI [of _ ?c] exI [of _ u] exI [of _ h]) simp
  moreover have "te_GenesisFile env ?c =
      filepath_Join [node_dir (ia_outputDir args) (ia_nodeDirPrefix args) i, ''config'', ''genesis.json'']"
    using collect unfolding lawful_collect_def by simp
  ultimately show ?thesis
    using t keeps [OF mkdir mk] keeps [OF init_files id] by (intro exI [of _ nodeID] exI [of _ pk]) simp
qed

lemma init_account_keys:
  assumes run: "init_account env args i st = (Ok acc, t)"
  shows "account_from env args i (snd acc)"
    and "CHR ''/'' \<notin> set b \<Longrightarrow>
       fs (su_files t) (gentx_file (ia_outputDir args) (ia_nodeDirPrefix args) j b) =
       fs (su_files st) (gentx_file (ia_outputDir args) (ia_nodeDirPrefix args) j b)"
proof -
  let ?seed = "filepath_Join [node_dir (ia_outputDir args) (ia_nodeDirPrefix args) i, ''key_seed.json'']"
  from run obtain n bk dr f1 kb algo addr secret f2 bz f3 where
    kr: "te_NewKeyring env n bk dr (su_files st) = (Ok kb, f1)"
    and key: "te_GenerateSaveCoinKey env kb (nodeDirName (ia_nodeDirPrefix args) i) [] True algo f1 =
      (Ok (addr, secret), f2)"
    and w: "writeFile (te_os env) ?seed dr bz f2 = (Ok (), f3)"
    and t: "acc = (kb, addr)" "su_files t = f3"
    unfolding init_account_def Let_def node_dir_def by (auto simp: outcome_simps)
  show "account_from env args i (snd acc)" unfolding account_from_def t(1) snd_conv using key by blast
  show "fs (su_files t) (gentx_file (ia_outputDir args) (ia_nodeDirPrefix args) j b) =
      fs (su_files st) (gentx_file (ia_outputDir args) (ia_nodeDirPrefix args) j b)" if b: "CHR ''/'' \<notin> set b"
  proof -
    have "gentx_file (ia_outputDir args) (ia_nodeDirPrefix args) j b \<noteq> ?seed"
      by (rule gentx_not_other [OF layout b]) (simp_all add: proper_name_def)
    then show ?thesis
      using keeps [OF keyring kr b] keeps [OF coin_key key b] writeFile_at(2) [OF w b] t(2) by simp
  qed
qed

lemma signed_content:
  assumes "te_NewMsgCreateValidator env c = Ok m" "te_SetMsgs env m (te_NewTxBuilder env) = Ok b"
    and "te_Sign env fac name (te_SetMemo env memo b) ow f = (Ok b', h)" "te_TxJSONEncoder env b' = Ok bz"
  shows "tv_read v bz = Some \<lparr>de_msg = c, de_memo = memo, de_chain = tf_ChainID fac\<rparr>"
proof -
  have "tv_msg v m = c" "fst (tv_body v b) = Some (tv_msg v m)"
    using txs assms(1,2) unfolding lawful_txs_def by auto
  moreover have "tv_body v (te_SetMemo env memo b) = (fst (tv_body v b), memo)"
    using txs unfolding lawful_txs_def by blast
  moreover have "tv_body v b' = tv_body v (te_SetMemo env memo b) \<and> tv_chain v b' = tf_ChainID fac"
    using txs assms(3) unfolding lawful_txs_def by blast
  ultimately show ?thesis using txs assms(4) unfolding lawful_txs_def by simp
qed

lemma init_gentx_says:
  assumes run: "init_gentx env args i acc st = (Ok r, t)"
    and acc: "account_from env args i (snd acc)" and id: "CHR ''/'' \<notin> set (su_nodeIDs st ! i)"
  shows "declares env args (tv_read v) i (su_nodeIDs st ! i) (su_valPubKeys st ! i)
      (fs (su_files t) (gentx_file (ia_outputDir args) (ia_nodeDirPrefix args) i (su_nodeIDs st ! i)))"
    and "CHR ''/'' \<notin> set b \<Longrightarrow> j \<noteq> i \<Longrightarrow>
       fs (su_files t) (gentx_file (ia_outputDir args) (ia_nodeDirPrefix args) j b) =
       fs (su_files st) (gentx_file (ia_outputDir args) (ia_nodeDirPrefix args) j b)"
proof -
  let ?q = "gentx_file (ia_outputDir args) (ia_nodeDirPrefix args) i (su_nodeIDs st ! i)"
  let ?memo = "node_memo args i (su_nodeIDs st ! i)"
  from run obtain dir stake m b0 b' bz f1 f2 where
    stake: "stake_of env args i = Ok stake"
    and m: "te_NewMsgCreateValidator env
      (de_msg (node_content env args i (su_nodeIDs st ! i) (su_valPubKeys st ! i) (snd acc) stake)) = Ok m"
    and b0: "te_SetMsgs env m (te_NewTxBuilder env) = Ok b0"
    and sg: "te_Sign env \<lparr>tf_ChainID = ia_chainID args, tf_Memo = ?memo, tf_Keybase = fst acc\<rparr>
      (nodeDirName (ia_nodeDirPrefix args) i) (te_SetMemo env ?memo b0) True (su_files st) = (Ok b', f1)"
    and bz: "te_TxJSONEncoder env b' = Ok bz"
    and w: "writeFile (te_os env) ?q dir bz f1 = (Ok (), f2)" and t: "su_files t = f2"
    unfolding init_gentx_def Let_def node_content_def gentx_file_def
    by (auto simp: outcome_simps split: prod.splits)
  have "tv_read v bz = Some (node_content env args i (su_nodeIDs st ! i) (su_valPubKeys st ! i) (snd acc) stake)"
    using signed_content [OF m b0 sg bz] by (simp add: node_content_def)
  then show "declares env args (tv_read v) i (su_nodeIDs st ! i) (su_valPubKeys st ! i) (fs (su_files t) ?q)"
    using writeFile_at(1) [OF w] acc stake unfolding declares_def t by blast
  assume b: "CHR ''/'' \<notin> set b" and "j \<noteq> i"
  then have "gentx_file (ia_outputDir args) (ia_nodeDirPrefix args) j b \<noteq> ?q"
    using gentx_file_inj [OF layout b id] by auto
  then show "fs (su_files t) (gentx_file (ia_outputDir args) (ia_nodeDirPrefix args) j b) =
       fs (su_files st) (gentx_file (ia_outputDir args) (ia_nodeDirPrefix args) j b)"
    using keeps [OF sign sg b] writeFile_at(2) [OF w b] t by simp
qed

lemma init_app_toml_keeps:
  assumes run: "init_app_toml env args i st = (Ok r, t)" and b: "CHR ''/'' \<notin> set b"
  shows "fs (su_files t) (gentx_file (ia_outputDir args) (ia_nodeDirPrefix args) j b) =
    fs (su_files st) (gentx_file (ia_outputDir args) (ia_nodeDirPrefix args) j b)"
proof -
  let ?p = "filepath_Join [node_dir (ia_outputDir args) (ia_nodeDirPrefix args) i, ''config'', ''app.toml'']"
  from run obtain ac where "te_WriteAppToml env ?p ac (su_files st) = (Ok (), su_files t)"
    unfolding init_app_toml_def Let_def node_dir_def by (auto simp: outcome_simps)
  moreover have "gentx_file (ia_outputDir args) (ia_nodeDirPrefix args) j b \<noteq> ?p"
    by (rule gentx_not_config [OF layout b]) (simp add: proper_name_def)
  ultimately show ?thesis by (rule app_toml)
qed

lemma init_node_says:
  assumes run: "init_node env args i st = (Ok r, t)" and fresh: "fresh_ids env args"
    and i: "i < length (su_nodeIDs st)" "i < length (su_valPubKeys st)"
  shows "\<exists>nodeID pk. su_nodeIDs t = (su_nodeIDs st)[i := nodeID] \<and>
    su_valPubKeys t = (su_valPubKeys st)[i := pk] \<and> keys_from env args i nodeID pk \<and>
    su_genFiles t = su_genFiles st @
      [filepath_Join [node_dir (ia_outputDir args) (ia_nodeDirPrefix args) i, ''config'', ''genesis.json'']] \<and>
    declares env args (tv_read v) i nodeID pk
      (fs (su_files t) (gentx_file (ia_outputDir args) (ia_nodeDirPrefix args) i nodeID)) \<and>
    (\<forall>j b. CHR ''/'' \<notin> set b \<longrightarrow> j \<noteq> i \<longrightarrow>
       fs (su_files t) (gentx_file (ia_outputDir args) (ia_nodeDirPrefix args) j b) =
       fs (su_files st) (gentx_file (ia_outputDir args) (ia_nodeDirPrefix args) j b))"
proof -
  from run obtain r1 s1 acc s2 r3 s3 where
    v: "init_validator env args i st = (Ok r1, s1)" and a: "init_account env args i s1 = (Ok acc, s2)"
    and g: "init_gentx env args i acc s2 = (Ok r3, s3)" and p: "init_app_toml env args i s3 = (Ok r, t)"
    by (auto simp: init_node_def outcome_simps)
  from init_validator_keys [OF v] obtain nodeID pk where
    s1: "su_nodeIDs s1 = (su_nodeIDs st)[i := nodeID]" "su_valPubKeys s1 = (su_valPubKeys st)[i := pk]"
    and from_: "keys_from env args i nodeID pk"
    and doc: "su_genFiles s1 = su_genFiles st @
      [filepath_Join [node_dir (ia_outputDir args) (ia_nodeDirPrefix args) i, ''config'', ''genesis.json'']]"
    and k1: "\<forall>j b. CHR ''/'' \<notin> set b \<longrightarrow>
       fs (su_files s1) (gentx_file (ia_outputDir args) (ia_nodeDirPrefix args) j b) =
       fs (su_files st) (gentx_file (ia_outputDir args) (ia_nodeDirPrefix args) j b)"
    by (elim exE conjE) (rule that)
  note same = init_account_Ok [OF a] init_gentx_Ok [OF g] init_app_toml_Ok [OF p]
  have id: "CHR ''/'' \<notin> set nodeID"
    using fresh keys_id_from [OF from_] unfolding fresh_ids_def by blast
  have at: "su_nodeIDs s2 ! i = nodeID" "su_valPubKeys s2 ! i = pk" using s1 same i by simp_all
  note says = init_gentx_says [OF g init_account_keys(1) [OF a], unfolded at, OF id]
  show ?thesis
    using s1 from_ doc k1 same says init_account_keys(2) [OF a] init_app_toml_keeps [OF p] id
    by (intro exI [of _ nodeID] exI [of _ pk]) simp
qed

text \<open>What the loop has written for the first \<open>n\<close> nodes.\<close>

definition authored :: "nat \<Rightarrow> 'f node_setup \<Rightarrow> bool" where
  "authored n st \<longleftrightarrow>
     length (su_nodeIDs st) = nat (ia_numValidators args) \<and>
     length (su_valPubKeys st) = nat (ia_numValidators args) \<and>
     su_genFiles st = map (\<lambda>k. filepath_Join
       [node_dir (ia_outputDir args) (ia_nodeDirPrefix args) k, ''config'', ''genesis.json'']) [0..<n] \<and>
     (\<forall>k < n. keys_from env args k (su_nodeIDs st ! k) (su_valPubKeys st ! k) \<and>
        declares env args (tv_read v) k (su_nodeIDs st ! k) (su_valPubKeys st ! k)
          (fs (su_files st) (gentx_file (ia_outputDir args) (ia_nodeDirPrefix args) k (su_nodeIDs st ! k))))"

lemma authored_step:
  assumes d: "authored i st" and i: "i < nat (ia_numValidators args)" and fresh: "fresh_ids env args"
    and run: "init_node env args i st = (Ok r, t)"
  shows "authored (Suc i) t"
proof -
  have len: "i < length (su_nodeIDs st)" "i < length (su_valPubKeys st)"
    using d i by (simp_all add: authored_def)
  from init_node_says [OF run fresh len] obtain nodeID pk where
    new: "su_nodeIDs t = (su_nodeIDs st)[i := nodeID]" "su_valPubKeys t = (su_valPubKeys st)[i := pk]"
      "keys_from env args i nodeID pk"
      "su_genFiles t = su_genFiles st @
        [filepath_Join [node_dir (ia_outputDir args) (ia_nodeDirPrefix args) i, ''config'', ''genesis.json'']]"
      "declares env args (tv_read v) i nodeID pk
        (fs (su_files t) (gentx_file (ia_outputDir args) (ia_nodeDirPrefix args) i nodeID))"
    and old: "\<forall>j b. CHR ''/'' \<notin> set b \<longrightarrow> j \<noteq> i \<longrightarrow>
       fs (su_files t) (gentx_file (ia_outputDir args) (ia_nodeDirPrefix args) j b) =
       fs (su_files st) (gentx_file (ia_outputDir args) (ia_nodeDirPrefix args) j b)"
    by (elim exE conjE) (rule that)
  have keep: "fs (su_files t) (gentx_file (ia_outputDir args) (ia_nodeDirPrefix args) k (su_nodeIDs st ! k)) =
      fs (su_files st) (gentx_file (ia_outputDir args) (ia_nodeDirPrefix args) k (su_nodeIDs st ! k))"
    if "k < i" for k
  proof -
    have "keys_from env args k (su_nodeIDs st ! k) (su_valPubKeys st ! k)" using d that by (simp add: authored_def)
    then have "CHR ''/'' \<notin> set (su_nodeIDs st ! k)"
      using fresh keys_id_from unfolding fresh_ids_def by blast
    then show ?thesis using old that by simp
  qed
  have "keys_from env args k (su_nodeIDs t ! k) (su_valPubKeys t ! k) \<and>
      declares env args (tv_read v) k (su_nodeIDs t ! k) (su_valPubKeys t ! k)
        (fs (su_files t) (gentx_file (ia_outputDir args) (ia_nodeDirPrefix args) k (su_nodeIDs t ! k)))"
    if k: "k < Suc i" for k
  proof (cases "k = i")
    case True
    then show ?thesis using new len by simp
  next
    case False
    then have "k < i" using k by simp
    then show ?thesis using d keep new(1,2) by (simp add: authored_def)
  qed
  then show ?thesis using d new unfolding authored_def by simp
qed

lemma loop_authored:
  assumes run: "for_each (init_node env args) [0..<nat (ia_numValidators args)] (init_setup env args c f) = (Ok (), t)"
    and fresh: "fresh_ids env args"
  shows "authored (nat (ia_numValidators args)) t"
proof -
  let ?n = "nat (ia_numValidators args)"
  have "authored (length [0..<?n]) t"
  proof (rule for_each_prefix [OF run, where P = "\<lambda>done. authored (length done)"])
    show "authored (length []) (init_setup env args c f)"
      by (simp add: authored_def init_setup_def Let_def)
    fix xs x rest s s'
    assume eq: "[0..<?n] = xs @ x # rest" and d: "authored (length xs) s"
      and step: "init_node env args x s = (Ok (), s')"
    have l: "length xs < ?n" using arg_cong [OF eq, of length] by simp
    have "x = length xs" using arg_cong [OF eq, of "\<lambda>ys. ys ! length xs"] l by simp
    then show "authored (length (xs @ [x])) s'"
      using authored_step [OF d l fresh] step by simp
  qed
  then show ?thesis by simp
qed

text \<open>The genesis documents are no genesis transactions.\<close>

lemma initGenFiles_keeps:
  assumes run: "initGenFiles env cid accs bals (map (\<lambda>k. filepath_Join
      [node_dir (ia_outputDir args) (ia_nodeDirPrefix args) k, ''config'', ''genesis.json'']) [0..<n]) n f = (Ok (), g)"
    and b: "CHR ''/'' \<notin> set b"
  shows "fs g (gentx_file (ia_outputDir args) (ia_nodeDirPrefix args) j b) =
    fs f (gentx_file (ia_outputDir args) (ia_nodeDirPrefix args) j b)"
proof -
  let ?doc = "\<lambda>k. filepath_Join [node_dir (ia_outputDir args) (ia_nodeDirPrefix args) k, ''config'', ''genesis.json'']"
  let ?q = "gentx_file (ia_outputDir args) (ia_nodeDirPrefix args) j b"
  from run obtain raw where l: "for_each (\<lambda>i f. chain_st (get_at (map ?doc [0..<n]) (int i), f)
      (\<lambda>path f. te_SaveGenesisDoc env cid raw path f)) [0..<n] f = (Ok (), g)"
    by (auto simp: initGenFiles_def outcome_simps)
  show ?thesis
  proof (rule for_each_prefix [OF l, where P = "\<lambda>_ h. fs h ?q = fs f ?q"])
    fix xs x rest s s'
    assume eq: "[0..<n] = xs @ x # rest" and d: "fs s ?q = fs f ?q"
      and step: "chain_st (get_at (map ?doc [0..<n]) (int x), s)
        (\<lambda>path f. te_SaveGenesisDoc env cid raw path f) = (Ok (), s')"
    have "x \<in> set [0..<n]" unfolding eq by simp
    then have "te_SaveGenesisDoc env cid raw (?doc x) s = (Ok (), s')" using step by (simp add: outcome_simps)
    then show "fs s' ?q = fs f ?q"
      using save_doc gentx_not_config [OF layout b] d by (simp add: proper_name_def)
  qed simp
qed

text \<open>The whole command, whose arguments \<open>start\<close> become \<open>args\<close> with the choice of a chain identifier.\<close>

lemma initTestnetFiles_declares:
  assumes run: "initTestnetFiles env c start f = (Ok (), g)" and args: "args = choose_chain_id env start"
    and wd: "os_Getwd (te_os env) = Ok wd" "IsAbs wd" and fresh: "fresh_ids env args"
  shows "\<exists>ids pks. length ids = nat (ia_numValidators args) \<and>
    (\<forall>j < length ids. \<forall>k < length ids. keys_from env args k (ids ! k) (pks ! k) \<and>
       declares env args (tv_read v) k (ids ! k) (pks ! k)
         (fs g (gentx_file (ia_outputDir args) (ia_nodeDirPrefix args) j (ids ! k))))"
proof -
  let ?n = "nat (ia_numValidators args)"
  let ?path = "gentx_file (ia_outputDir args) (ia_nodeDirPrefix args)"
  from initTestnetFiles_Ok [OF run] obtain st :: "'f node_setup" and f1 f2 cs where
    nodes: "for_each (init_node env args) [0..<?n] (init_setup env args c f) = (Ok (), st)"
    and docs: "initGenFiles env (ia_chainID args) (su_genAccounts st) (su_genBalances st) (su_genFiles st) ?n
      (su_files st) = (Ok (), f1)"
    and copy: "copy_gentxs (te_os env) (ia_outputDir args) (ia_nodeDirPrefix args) ?n (su_gentxsFiles st) f1 = (Ok (), f2)"
    and coll: "collectGenFiles env args (su_nodeConfig st) (su_nodeIDs st) (su_valPubKeys st)
      (su_persistentPeers st) f2 = (Ok (), cs)"
    and g: "g = cs_files cs"
    unfolding Let_def args [symmetric] by auto
  let ?ids = "su_nodeIDs st" and ?pks = "su_valPubKeys st"
  have files: "su_gentxsFiles st = map (\<lambda>k. ?path k (?ids ! k)) [0..<?n]"
    using init_nodes_done [OF nodes] by (simp add: nodes_done_def)
  from loop_authored [OF nodes fresh] have len: "length ?ids = ?n"
    and gen: "su_genFiles st = map (\<lambda>k. filepath_Join
      [node_dir (ia_outputDir args) (ia_nodeDirPrefix args) k, ''config'', ''genesis.json'']) [0..<?n]"
    and from_: "\<forall>k < ?n. keys_from env args k (?ids ! k) (?pks ! k)"
    and says: "\<forall>k < ?n. declares env args (tv_read v) k (?ids ! k) (?pks ! k)
      (fs (su_files st) (?path k (?ids ! k)))"
    by (simp_all add: authored_def)
  have ids: "ids_ok ?ids"
    using fresh from_ len keys_id_from
    unfolding ids_ok_def fresh_ids_def distinct_conv_nth list_all_length by metis
  have slash: "CHR ''/'' \<notin> set (?ids ! k)" if "k < ?n" for k
    using ids that len by (simp add: ids_ok_def list_all_length)
  have sp: "spread (\<lambda>j k. ?path j (?ids ! k)) ({0..<length ?ids} \<times> {0..<length ?ids}) (fs f1) (fs f2)"
    by (rule copy_gentxs_spread [OF layout ids wd]) (use copy files len in simp)
  have "declares env args (tv_read v) k (?ids ! k) (?pks ! k) (fs g (?path j (?ids ! k)))"
    if jk: "j < ?n" "k < ?n" for j k
  proof -
    have "fs g (?path j (?ids ! k)) = fs f2 (?path j (?ids ! k))"
      using collectGenFiles_gentxs [OF layout slash coll] jk g by simp
    also have "\<dots> = fs f1 (?path k (?ids ! k))"
      using spread_at(1) [OF sp] jk len by simp
    also have "\<dots> = fs (su_files st) (?path k (?ids ! k))"
      using initGenFiles_keeps [OF docs [unfolded gen] slash] jk by simp
    finally show ?thesis using says jk by simp
  qed
  then show ?thesis using len from_ by (intro exI [of _ ?ids] exI [of _ ?pks]) simp
qed

end

lemma chosen_nodes: "lawful_nodes env (choose_chain_id env args) fs = lawful_nodes env args fs"
  by (simp add: lawful_nodes_def keeps_gentxs_def)

lemma chosen_ids: "fresh_ids env (choose_chain_id env args) = fresh_ids env args"
  by (simp add: fresh_ids_def id_from_def)

lemma chosen_content:
  "node_memo (choose_chain_id env args) = node_memo args"
  "keys_from env (choose_chain_id env args) = keys_from env args"
  "account_from env (choose_chain_id env args) = account_from env args"
  "stake_of env (choose_chain_id env args) = stake_of env args"
  by (simp_all add: fun_eq_iff node_memo_def keys_from_def account_from_def stake_of_def choose_chain_id_def)

lemma gentx_authors_intro:
  assumes "lawful_files (te_os env) fs" "lawful_collect env fs" "lawful_nodes env args fs" "lawful_txs env v"
    and "layout_ok (ia_outputDir args) (ia_nodeDirPrefix args)"
  shows "gentx_authors env fs (choose_chain_id env args) v"
  using assms gentx_files_intro [OF assms(1,2)]
  by (intro gentx_authors.intro gentx_authors_axioms.intro) (simp_all add: chosen_nodes)

end
