(* ===== verification/Testnet_Samples.thy ===== *)
theory Testnet_Samples
  imports Testnet_Replace Testnet_Liveness Testnet_Genesis Testnet_Declarations
begin

text \<open>
  Concrete keepers, a file system and an environment on which the testnet commands run: a staking
  store as an association list with the key prefixes of x/staking, balances and a supply, and files
  as a map from paths to contents.
\<close>

section \<open>Keepers over an explicit state\<close>

record tmem =
  tm_kv :: "(bytes \<times> bytes) list"
  tm_bal :: "bytes \<Rightarrow> int"
  tm_supply :: int

fun bytes_less :: "bytes \<Rightarrow> bytes \<Rightarrow> bool" where
  "bytes_less [] ys = (ys \<noteq> [])"
| "bytes_less (x # xs) [] = False"
| "bytes_less (x # xs) (y # ys) = (x < y \<or> x = y \<and> bytes_less xs ys)"

definition in_range :: "bytes \<Rightarrow> bytes \<Rightarrow> bytes \<Rightarrow> bool" where
  "in_range a b k \<longleftrightarrow> \<not> bytes_less k a \<and> bytes_less k b"

definition starts :: "byte \<Rightarrow> bytes \<Rightarrow> bool" where
  "starts x k = (case k of [] \<Rightarrow> False | y # ys \<Rightarrow> y = x)"

definition put_key :: "bytes \<Rightarrow> bytes \<Rightarrow> tmem \<Rightarrow> (go_error, unit) outcome \<times> tmem" where
  "put_key k v s = (Ok (), s\<lparr>tm_kv := (k, v) # tm_kv s\<rparr>)"

definition total :: "coins \<Rightarrow> int" where
  "total cs = sum_list (map snd cs)"

definition mem_testnet :: "tmem testnet_app" where
  "mem_testnet =
     \<lparr>ta_NewAnyWithValue = Ok,
      ta_ValidatorStringToBytes = \<lambda>a. (bytes_of a, None),
      ta_AccountStringToBytes = \<lambda>a. if a = [] then ([], Some (LibError ''empty address string is not allowed''))
        else (bytes_of a, None),
      ta_ConsAddressString = \<lambda>a. string_of a,
      ta_LastBlockHeight = 10,
      ta_ValidatorsKey = [33],
      ta_ValidatorQueueKey = [67],
      ta_PrefixEndBytes = \<lambda>p. butlast p @ [last p + 1],
      ta_ValidatorsPowerStoreIterator = \<lambda>s. Ok (filter (starts 35) (map fst (tm_kv s))),
      ta_LastValidatorsIterator = \<lambda>s. Ok (filter (starts 17) (map fst (tm_kv s))),
      ta_StakingIterator = \<lambda>s a b. filter (in_range a b) (map fst (tm_kv s)),
      ta_Delete = \<lambda>k s. s\<lparr>tm_kv := filter (\<lambda>(k', v). k' \<noteq> k) (tm_kv s)\<rparr>,
      ta_SetValidator = \<lambda>v. put_key (33 # bytes_of (v_OperatorAddress v)) (bytes_of (v_Moniker v)),
      ta_SetValidatorByConsAddr = \<lambda>v. put_key (34 # v_ConsensusPubkey v) (bytes_of (v_OperatorAddress v)),
      ta_SetValidatorByPowerIndex = \<lambda>v. put_key (35 # bytes_of (v_OperatorAddress v)) [],
      ta_SetLastValidatorPower = \<lambda>a p. put_key (17 # a) [],
      ta_AfterValidatorCreated = \<lambda>a s. (Ok (), s),
      ta_SetValidatorHistoricalRewards = \<lambda>a p r s. (Ok (), s),
      ta_SetValidatorCurrentRewards = \<lambda>a r s. (Ok (), s),
      ta_SetValidatorAccumulatedCommission = \<lambda>a c s. (Ok (), s),
      ta_SetValidatorOutstandingRewards = \<lambda>a r s. (Ok (), s),
      ta_SetValidatorSigningInfo = \<lambda>a i s. (Ok (), s),
      ta_BondDenom = \<lambda>s. Ok ''pmina'',
      ta_NewCoins = \<lambda>d n. Ok [(d, n)],
      ta_MintCoins = \<lambda>m c s. (Ok (), s\<lparr>tm_supply := tm_supply s + total c\<rparr>),
      ta_SendCoinsFromModuleToAccount = \<lambda>m a c s.
        (Ok (), s\<lparr>tm_bal := (tm_bal s)(a := tm_bal s a + total c)\<rparr>)\<rparr>"

definition tm_start :: tmem where
  "tm_start = \<lparr>tm_kv = [([33, 1], [5]), ([34, 1], [6]), ([35, 0, 1], []), ([17, 1], [7]), ([67, 2], [])],
     tm_bal = \<lambda>_. 0, tm_supply = 100\<rparr>"

lemma map_of_filter_key: "map_of (filter (\<lambda>(k', v). k' \<noteq> k) xs) = (map_of xs)(k := None)"
  by (induction xs) (auto simp: fun_eq_iff)

lemma mem_testnet_store:
  "lawful_store mem_testnet (\<lambda>s. map_of (tm_kv s)) (starts 35) (starts 17) in_range"
  by (auto simp: lawful_store_def mem_testnet_def dom_map_of_conv_image_fst map_of_filter_key)

interpretation mem_store: staking_store mem_testnet "\<lambda>s. map_of (tm_kv s)" "starts 35" "starts 17" in_range
  by (rule staking_store.intro) (rule mem_testnet_store)

lemma mem_testnet_bank: "lawful_bank mem_testnet tm_bal tm_supply total"
  by (auto simp: lawful_bank_def mem_testnet_def)

lemma mem_testnet_moves: "only_bank_moves mem_testnet (\<lambda>s. (tm_bal s, tm_supply s))"
  by (simp add: only_bank_moves_def leaves_def mem_testnet_def put_key_def)

lemma mem_testnet_succeeds: "all_succeed mem_testnet"
  by (simp add: all_succeed_def succeeds_def mem_testnet_def put_key_def)

text \<open>The kinds of keys of this store, and its interpretation as a chain.\<close>

definition mem_kinds :: key_kinds where
  "mem_kinds = \<lparr>kk_power = starts 35, kk_last = starts 17, kk_range = in_range, kk_cons = starts 34\<rparr>"

definition mem_keys :: staking_keys where
  "mem_keys =
     \<lparr>sk_validator = \<lambda>v. (33 # bytes_of (v_OperatorAddress v), bytes_of (v_Moniker v)),
      sk_cons = \<lambda>v. (34 # v_ConsensusPubkey v, bytes_of (v_OperatorAddress v)),
      sk_power = \<lambda>v. (35 # bytes_of (v_OperatorAddress v), []),
      sk_last = \<lambda>a p. (17 # a, [])\<rparr>"

lemma bytes_less_Nil [simp]: "\<not> bytes_less xs []"
  by (cases xs) simp_all

lemma in_range_prefix:
  assumes "x < y" "\<And>z :: byte. x \<le> z \<Longrightarrow> z < y \<Longrightarrow> z = x"
  shows "in_range [x] [y] k = starts x k"
  using assms by (cases k) (auto simp: in_range_def starts_def not_less order_less_le split: if_splits)

lemma mem_prefix:
  "in_prefix mem_testnet mem_kinds (ta_ValidatorsKey mem_testnet) = starts 33"
  "in_prefix mem_testnet mem_kinds (ta_ValidatorQueueKey mem_testnet) = starts 67"
proof -
  have n: "z = x" if "x \<le> z" "z < x + 1" "x < 200" for x z :: byte
    using that by (simp add: word_le_nat_alt word_less_nat_alt unat_word_ariths word_unat_eq_iff)
  have "in_range [33] [34] = starts 33" "in_range [67] [68] = starts 67"
    using in_range_prefix [of 33 34] in_range_prefix [of 67 68] n [of 33] n [of 67] by (auto simp: fun_eq_iff)
  then show "in_prefix mem_testnet mem_kinds (ta_ValidatorsKey mem_testnet) = starts 33"
    "in_prefix mem_testnet mem_kinds (ta_ValidatorQueueKey mem_testnet) = starts 67"
    by (simp_all add: in_prefix_def mem_testnet_def mem_kinds_def)
qed

lemma mem_disjoint: "kinds_disjoint mem_testnet mem_kinds"
  unfolding kinds_disjoint_def mem_prefix
  by (auto simp: mem_kinds_def starts_def split: list.split)

lemma mem_setters: "lawful_setters mem_testnet (\<lambda>s. map_of (tm_kv s)) mem_kinds mem_keys"
  unfolding lawful_setters_def mem_prefix
  by (auto simp: mem_testnet_def put_key_def mem_keys_def mem_kinds_def single_def starts_def)

lemma mem_others: "others_leave mem_testnet (\<lambda>s. map_of (tm_kv s))"
  by (simp add: others_leave_def leaves_def mem_testnet_def)

lemma mem_store: "lawful_store mem_testnet (\<lambda>s. map_of (tm_kv s)) (kk_power mem_kinds) (kk_last mem_kinds)
    (kk_range mem_kinds)"
  using mem_testnet_store by (simp add: mem_kinds_def)

interpretation mem_chain: testnet_chain mem_testnet "\<lambda>s. map_of (tm_kv s)" mem_kinds mem_keys tm_bal tm_supply total
  by (rule testnet_chain_intro [OF mem_store mem_disjoint mem_setters mem_others mem_testnet_bank mem_testnet_moves])

section \<open>Files\<close>

type_synonym files = "string \<rightharpoonup> bytes"

definition mem_os :: "files os" where
  "mem_os =
     \<lparr>os_Getwd = Ok ''/w'',
      os_MkdirAll = \<lambda>p f. (Ok (), f),
      os_RemoveAll = \<lambda>p f. f,
      os_WriteFile = \<lambda>p b f. (Ok (), f(p \<mapsto> b)),
      os_Open = \<lambda>p f. (case f p of None \<Rightarrow> Err (LibError ''no such file'') | Some _ \<Rightarrow> Ok ()),
      os_Create = \<lambda>p f. (Ok (), f(p \<mapsto> [])),
      os_Copy = \<lambda>d p f. (case (f d, f p) of
          (Some a, Some b) \<Rightarrow> (Ok (int (length b)), f(d \<mapsto> a @ b))
        | _ \<Rightarrow> (Err (LibError ''no such file''), f)),
      os_Sync = \<lambda>p f. (Ok (), f)\<rparr>"

lemma mem_os_lawful: "lawful_files mem_os (\<lambda>f. f)"
  by (auto simp: lawful_files_def mem_os_def split: option.splits)

interpretation mem_files: file_store mem_os "\<lambda>f. f"
  by (rule file_store.intro) (rule mem_os_lawful)

section \<open>An environment\<close>

text \<open>A disk: files, genesis documents and node configurations, each by path.\<close>

record world =
  w_files :: files
  w_docs :: "string \<rightharpoonup> string \<times> bytes option \<times> int"
  w_configs :: "string \<rightharpoonup> NodeConfig"

definition empty_world :: world where
  "empty_world = \<lparr>w_files = Map.empty, w_docs = Map.empty, w_configs = Map.empty\<rparr>"

definition on_w :: "(files \<Rightarrow> 'r \<times> files) \<Rightarrow> world \<Rightarrow> 'r \<times> world" where
  "on_w call w = (case call (w_files w) of (r, f) \<Rightarrow> (r, w\<lparr>w_files := f\<rparr>))"

definition world_os :: "world os" where
  "world_os =
     \<lparr>os_Getwd = os_Getwd mem_os,
      os_MkdirAll = \<lambda>p. on_w (os_MkdirAll mem_os p),
      os_RemoveAll = \<lambda>p w. w\<lparr>w_files := os_RemoveAll mem_os p (w_files w)\<rparr>,
      os_WriteFile = \<lambda>p b. on_w (os_WriteFile mem_os p b),
      os_Open = \<lambda>p w. os_Open mem_os p (w_files w),
      os_Create = \<lambda>p. on_w (os_Create mem_os p),
      os_Copy = \<lambda>d p. on_w (os_Copy mem_os d p),
      os_Sync = \<lambda>p. on_w (os_Sync mem_os p)\<rparr>"

text \<open>
  Transactions as bytes: a list of numbers, each in unary and closed by a zero. Texts carry their
  length, integers their sign.
\<close>

record sample_tx =
  tx_msg :: "create_validator option"
  tx_memo :: string
  tx_chain :: string

definition encode_nats :: "nat list \<Rightarrow> bytes" where
  "encode_nats ns = concat (map (\<lambda>n. replicate n 1 @ [0]) ns)"

fun decode_nats :: "nat \<Rightarrow> bytes \<Rightarrow> nat list" where
  "decode_nats n [] = []"
| "decode_nats n (b # bs) = (if b = 0 then n # decode_nats 0 bs else decode_nats (Suc n) bs)"

definition text_nats :: "string \<Rightarrow> nat list" where
  "text_nats s = length s # map of_char s"

definition int_nats :: "int \<Rightarrow> nat list" where
  "int_nats i = [if i < 0 then 1 else 0, nat \<bar>i\<bar>]"

fun read_text :: "nat list \<Rightarrow> string \<times> nat list" where
  "read_text [] = ([], [])"
| "read_text (n # ns) = (map char_of (take n ns), drop n ns)"

fun read_int :: "nat list \<Rightarrow> int \<times> nat list" where
  "read_int (a # n # ns) = (if a = 0 then int n else - int n, ns)"
| "read_int ns = (0, [])"

definition content_nats :: "gentx_content \<Rightarrow> nat list" where
  "content_nats d = (case de_msg d of c \<Rightarrow>
     text_nats (cv_ValidatorAddress c) @ text_nats (string_of (cv_PubKey c)) @
     text_nats (fst (cv_Value c)) @ int_nats (snd (cv_Value c)) @ text_nats (cv_Moniker c) @
     int_nats (cr_Rate (cv_Rates c)) @ int_nats (cr_MaxRate (cv_Rates c)) @
     int_nats (cr_MaxChangeRate (cv_Rates c)) @ int_nats (cv_MinSelfDelegation c) @
     text_nats (de_memo d) @ text_nats (de_chain d))"

definition read_content :: "nat list \<Rightarrow> gentx_content" where
  "read_content ns =
     (case read_text ns of (address, ns) \<Rightarrow> case read_text ns of (key, ns) \<Rightarrow>
      case read_text ns of (denom, ns) \<Rightarrow> case read_int ns of (amount, ns) \<Rightarrow>
      case read_text ns of (moniker, ns) \<Rightarrow> case read_int ns of (rate, ns) \<Rightarrow>
      case read_int ns of (most, ns) \<Rightarrow> case read_int ns of (change, ns) \<Rightarrow>
      case read_int ns of (least, ns) \<Rightarrow> case read_text ns of (memo, ns) \<Rightarrow>
      case read_text ns of (cid, ns) \<Rightarrow>
        \<lparr>de_msg = \<lparr>cv_ValidatorAddress = address, cv_PubKey = bytes_of key, cv_Value = (denom, amount),
           cv_Moniker = moniker, cv_Rates = \<lparr>cr_Rate = rate, cr_MaxRate = most, cr_MaxChangeRate = change\<rparr>,
           cv_MinSelfDelegation = least\<rparr>, de_memo = memo, de_chain = cid\<rparr>)"

definition encode_tx :: "sample_tx \<Rightarrow> bytes" where
  "encode_tx b = (case tx_msg b of None \<Rightarrow> []
     | Some c \<Rightarrow> encode_nats (content_nats \<lparr>de_msg = c, de_memo = tx_memo b, de_chain = tx_chain b\<rparr>))"

definition read_tx :: "bytes \<Rightarrow> gentx_content option" where
  "read_tx bz = Some (read_content (decode_nats 0 bz))"

lemma decode_unary: "decode_nats m (replicate n 1 @ 0 # bs) = (m + n) # decode_nats 0 bs"
  by (induction n arbitrary: m) simp_all

lemma decode_encode_nats: "decode_nats 0 (encode_nats ns) = ns"
  by (induction ns) (simp_all add: encode_nats_def decode_unary)

lemma read_text_nats: "read_text (text_nats s @ ns) = (s, ns)"
  by (simp add: text_nats_def comp_def)

lemma read_int_nats: "read_int (int_nats i @ ns) = (i, ns)"
  by (simp add: int_nats_def)

lemma bytes_of_string_of: "bytes_of (string_of b) = b"
proof -
  have "(of_char (char_of (unat w) :: char) :: nat) = unat w" for w :: byte
    using unsigned_less [of w, where 'a = nat] by (simp add: of_char_of)
  then show ?thesis by (simp add: bytes_of_def string_of_def comp_def)
qed

lemma read_content_nats: "read_content (content_nats d) = d"
proof -
  note last = read_text_nats [of _ "[]", simplified]
  show ?thesis
    by (simp add: read_content_def content_nats_def read_text_nats read_int_nats last bytes_of_string_of)
qed

lemma read_encode_tx:
  "tx_msg b = Some c \<Longrightarrow> read_tx (encode_tx b) = Some \<lparr>de_msg = c, de_memo = tx_memo b, de_chain = tx_chain b\<rparr>"
  by (simp add: read_tx_def encode_tx_def decode_encode_nats read_content_nats)

definition sample_views :: "(create_validator, sample_tx) tx_views" where
  "sample_views = \<lparr>tv_msg = \<lambda>m. m, tv_body = \<lambda>b. (tx_msg b, tx_memo b), tv_chain = tx_chain, tv_read = read_tx\<rparr>"

definition genesis_path :: "string \<Rightarrow> string" where
  "genesis_path root = filepath_Join [root, ''config'', ''genesis.json'']"

definition sample_env :: "(world, unit, create_validator, sample_tx, unit) testnet_env" where
  "sample_env =
     \<lparr>te_os = world_os, te_Intn = \<lambda>i n. 0, te_Now = 77, te_DefaultBondDenom = ''pmina'',
      te_DefaultConfig = \<lparr>ac_MinGasPrices = [], ac_API_Enable = True, ac_API_Address = [],
        ac_GRPC_Address = [], ac_EnableHostnameLabel = True, ac_Telemetry_Enabled = True,
        ac_PrometheusRetentionTime = 1\<rparr>,
      te_KeyringServiceName = ''k'',
      te_NewCoin = \<lambda>d n. if n < 0 then Panic ''negative coin amount'' else Ok (d, n),
      te_TokensFromConsensusPower = \<lambda>n. n * 1000000,
      te_SortCoins = \<lambda>cs. cs, te_AddCoins = \<lambda>cs ds. cs @ ds,
      te_GenesisFile = \<lambda>c. genesis_path (nc_RootDir c),
      te_InitializeNodeValidatorFiles = \<lambda>c w. (Ok (''id-'' @ nc_Moniker c, [1]), w),
      te_NewKeyring = \<lambda>n b d w. (Ok (), w),
      te_SupportedAlgorithms = \<lambda>_. [''secp256k1''],
      te_NewSigningAlgo = \<lambda>a as. if a \<in> set as then Ok a else Err (LibError ''unsupported''),
      te_GenerateSaveCoinKey = \<lambda>k n m o' a w. (Ok (bytes_of n, ''words''), w),
      te_MarshalInfo = \<lambda>m. Ok [], te_AccAddressString = string_of, te_ValAddressString = string_of,
      te_NewMsgCreateValidator = Ok, te_NewTxBuilder = \<lparr>tx_msg = None, tx_memo = [], tx_chain = []\<rparr>,
      te_SetMsgs = \<lambda>m b. Ok (b\<lparr>tx_msg := Some m\<rparr>), te_SetMemo = \<lambda>m b. b\<lparr>tx_memo := m\<rparr>,
      te_Sign = \<lambda>f n b o' w. (Ok (b\<lparr>tx_chain := tf_ChainID f\<rparr>), w),
      te_TxJSONEncoder = \<lambda>b. Ok (encode_tx b),
      te_WriteAppToml = \<lambda>p c w. (Ok (), w), te_WriteNodeToml = \<lambda>p c w. (Ok (), w\<lparr>w_configs := (w_configs w)(p \<mapsto> c)\<rparr>),
      te_DefaultGenesis = [''auth'' \<mapsto> [], ''bank'' \<mapsto> []],
      te_UnmarshalAuth = \<lambda>b. Ok \<lparr>ag_Accounts = [], ag_rest = []\<rparr>,
      te_MarshalAuth = \<lambda>g. Ok [],
      te_UnmarshalBank = \<lambda>b. Ok \<lparr>bg_Balances = [], bg_Supply = [], bg_rest = []\<rparr>,
      te_MarshalBank = \<lambda>g. Ok [], te_PackAccounts = \<lambda>as. Ok (map (\<lambda>a. bytes_of (ba_Address a)) as),
      te_SanitizeGenesisBalances = Ok, te_MarshalIndent = \<lambda>m. Ok [1],
      te_SaveGenesisDoc = \<lambda>n a p w. (Ok (), w\<lparr>w_docs := (w_docs w)(p \<mapsto> (n, Some a, 0))\<rparr>),
      te_AppGenesisFromFile = \<lambda>p w. (case w_docs w p of None \<Rightarrow> Err (LibError ''no such file'') | Some _ \<Rightarrow> Ok ()),
      te_GenAppStateFromConfig = \<lambda>c ic g w. (Ok (Some (bytes_of (ic_NodeID ic)), c), w),
      te_ExportGenesisFileWithTime = \<lambda>p n a t w. (Ok (), w\<lparr>w_docs := (w_docs w)(p \<mapsto> (n, a, t))\<rparr>)\<rparr>"

definition sample_args :: initArgs where
  "sample_args = \<lparr>ia_algo = ''secp256k1'', ia_chainID = ''c'', ia_keyringBackend = ''test'',
     ia_minGasPrices = [], ia_nodeDirPrefix = ''v'', ia_numValidators = 2, ia_outputDir = ''t'',
     ia_startingIPAddress = ''h'', ia_validatorsStakesAmount = Map.empty, ia_ports = parse_ports 2 []\<rparr>"

definition sample_config :: NodeConfig where
  "sample_config = \<lparr>nc_RootDir = [], nc_Moniker = [], nc_RPC_ListenAddress = [],
     nc_P2P_ListenAddress = [], nc_P2P_PersistentPeers = [], nc_P2P_AllowDuplicateIP = False,
     nc_ProxyApp = [], nc_PrometheusListenAddr = [], nc_Prometheus = False\<rparr>"

text \<open>A disk on which every call succeeds: a file that was never written is empty.\<close>

definition stored :: "world \<Rightarrow> string \<Rightarrow> bytes" where
  "stored w p = (case w_files w p of None \<Rightarrow> [] | Some b \<Rightarrow> b)"

definition ready_os :: "world os" where
  "ready_os = world_os\<lparr>os_Open := \<lambda>p w. Ok (),
     os_Copy := \<lambda>d p w. (Ok (int (length (stored w p))),
       w\<lparr>w_files := (w_files w)(d \<mapsto> stored w d @ stored w p)\<rparr>)\<rparr>"

lemma ready_os_lawful: "lawful_files ready_os (\<lambda>w p. Some (stored w p))"
  unfolding lawful_files_def
  by (intro conjI allI impI) (auto simp: ready_os_def world_os_def mem_os_def stored_def on_w_def, (auto simp: fun_eq_iff)?)

definition ready_env :: "(world, unit, create_validator, sample_tx, unit) testnet_env" where
  "ready_env = sample_env\<lparr>te_os := ready_os, te_NewCoin := \<lambda>d n. Ok (d, n),
     te_AppGenesisFromFile := \<lambda>p w. Ok ()\<rparr>"

lemma ready_genesis: "lawful_genesis ready_env w_docs genesis_path"
  by (auto simp: lawful_genesis_def sample_env_def ready_env_def)

interpretation ready_files: genesis_files ready_env w_docs genesis_path
  by (rule genesis_files.intro) (rule ready_genesis)

lemma ready_env_os: "te_os ready_env = ready_os"
  by (simp add: ready_env_def)

lemma ready_collect: "lawful_collect ready_env (\<lambda>w p. Some (stored w p))"
  by (auto simp: lawful_collect_def ready_env_def sample_env_def genesis_path_def stored_def)

interpretation ready_gentxs: gentx_files ready_env "\<lambda>w p. Some (stored w p)"
  by (rule gentx_files_intro) (simp_all add: ready_collect ready_os_lawful ready_env_os)

lemma ready_ids: "fresh_ids ready_env sample_args"
  using nodeDirName_proper [of "''v''"] nodeDirName_inj [of "''v''"]
  by (auto simp: fresh_ids_def id_from_def ready_env_def sample_env_def sample_args_def proper_name_def)

lemma ready_succeeds:
  "os_succeeds (te_os ready_env)" "node_calls_succeed ready_env sample_args" "genesis_calls_succeed ready_env"
proof -
  show "os_succeeds (te_os ready_env)"
    by (simp add: os_succeeds_def succeeds_def ready_env_def ready_os_def world_os_def mem_os_def on_w_def)
  show "node_calls_succeed ready_env sample_args"
    by (simp add: node_calls_succeed_def succeeds_def ready_env_def sample_env_def sample_args_def)
  show "genesis_calls_succeed ready_env"
    by (simp add: genesis_calls_succeed_def succeeds_def ready_env_def sample_env_def)
qed

lemma ready_coins: "lawful_coins ready_env"
  by (auto simp: lawful_coins_def ready_env_def sample_env_def amount_of_def)

lemma ready_configs: "lawful_configs ready_env w_configs"
  by (auto simp: lawful_configs_def ready_env_def sample_env_def)

interpretation ready_nodes: config_files ready_env w_configs
  by (rule config_files.intro) (rule ready_configs)

lemma ready_txs: "lawful_txs ready_env sample_views"
  by (simp add: lawful_txs_def ready_env_def sample_env_def sample_views_def read_encode_tx)

lemma ready_writers: "lawful_nodes ready_env args (\<lambda>w p. Some (stored w p))"
  by (auto simp: lawful_nodes_def keeps_gentxs_def ready_env_def sample_env_def ready_os_def world_os_def
      mem_os_def on_w_def stored_def)

lemma sample_layout: "layout_ok (ia_outputDir sample_args) (ia_nodeDirPrefix sample_args)"
proof -
  have "layout_ok ''t'' ''v''" by code_simp
  then show ?thesis by (simp add: sample_args_def)
qed

interpretation ready_authors: gentx_authors ready_env "\<lambda>w p. Some (stored w p)"
  "choose_chain_id ready_env sample_args" sample_views
  by (rule gentx_authors_intro)
    (simp_all add: ready_env_os ready_os_lawful ready_collect ready_writers ready_txs sample_layout)

end
