(* ===== verification/Testnet_Properties.thy ===== *)
theory Testnet_Properties
  imports Testnet_Samples
begin

text \<open>
  The properties of the two testnet commands (cmd/pulsard/cmd/testnet.go, testnet_multi_node.go).
  The witnesses run on the keepers, files and environments of Testnet_Samples.
\<close>

section \<open>The testnet in place\<close>

text \<open>
  Removing the old validators deletes from the staking store exactly the power index, the last
  validators, the validator records and the unbonding queue; every other key keeps its value.
\<close>

lemma old_validators_removed:
  assumes "lawful_store app kv pw lv rng" "remove_validators app s = (Ok (), t)"
  shows "kv t k =
    (if pw k \<or> lv k \<or> rng (ta_ValidatorsKey app) (ta_PrefixEndBytes app (ta_ValidatorsKey app)) k \<or>
        rng (ta_ValidatorQueueKey app) (ta_PrefixEndBytes app (ta_ValidatorQueueKey app)) k
     then None else kv s k)"
  using staking_store.remove_validators_kv [OF staking_store.intro [OF assms(1)] assms(2)] by simp

text \<open>
  After a successful initialisation the supply has grown by the amount for each account listed,
  and each address has received the amount as often as it is listed; no other balance has changed.
\<close>

lemma accounts_funded:
  assumes "only_bank_moves app (\<lambda>s. (bal s, supply s))" "lawful_bank app bal supply amount"
    and "initAppForTestnet app args s = (Ok (), t)"
  shows "\<exists>denom c. ta_NewCoins app denom fund_amount = Ok c \<and>
    supply t = supply s + int (length (accountsToFund args)) * amount c \<and>
    (\<forall>a. bal t a = bal s a + int (count_list
      (map (\<lambda>x. fst (ta_AccountStringToBytes app x)) (accountsToFund args)) a) * amount c)"
proof -
  from init_funding [OF assms(1,3)] obtain u denom c where
    c: "ta_NewCoins app denom fund_amount = Ok c"
    and f: "fund_accounts app c (accountsToFund args) u = (Ok (), t)"
    and u: "bal u = bal s" "supply u = supply s"
    by blast
  show ?thesis
    using c fund_accounts_balances [OF assms(2) f] u by (intro exI [of _ denom] exI [of _ c]) simp
qed

text \<open>
  C27: with the accounts-to-fund flag left at its default (the empty string) the command does not succeed:
  the split of the empty string is one empty address, which no address codec accepts.
\<close>

theorem no_accounts_flag_fails:
  assumes "map_of inplace_flags KeyAccountsToFund = Some (ToString (Get KeyAccountsToFund))"
    and "snd (ta_AccountStringToBytes app []) \<noteq> None"
  shows "\<not> is_ok (fst (newTestnetApp (Some app) (getCommandArgs ks ToString Get) s))"
proof (cases "getCommandArgs ks ToString Get")
  case (Pair args e)
  show ?thesis
  proof (cases e)
    case None
    then have "accountsToFund args = [[]]"
      using getCommandArgs_accounts [of ks ToString Get args] Pair assms(1) by (simp add: inplace_flags_def)
    then show ?thesis
      using init_bad_account [of "[]" args app s] assms(2) Pair None by (simp add: newTestnetApp_def)
  qed (simp add: newTestnetApp_def Pair)
qed

definition sample_keys :: option_keys where
  "sample_keys = \<lparr>KeyNewValAddr = ''a'', KeyUserPubKey = ''p'', KeyNewOpAddr = ''o'',
     KeyTriggerTestnetUpgrade = ''u'', FlagHome = ''home''\<rparr>"

definition sample_options :: "string \<Rightarrow> string \<Rightarrow> opt_value" where
  "sample_options accounts k =
     (if k = ''a'' then OptHexBytes [1] else if k = ''p'' then OptPubKey [2]
      else if k = KeyAccountsToFund then OptString accounts else OptString k)"

fun cast_ToString :: "opt_value \<Rightarrow> string" where
  "cast_ToString (OptString s) = s"
| "cast_ToString v = []"

theorem no_accounts_flag_fails_witness:
  "\<not> is_ok (fst (newTestnetApp (Some mem_testnet)
     (getCommandArgs sample_keys cast_ToString (sample_options [])) tm_start))"
  by (rule no_accounts_flag_fails)
    (simp_all add: sample_options_def KeyAccountsToFund_def inplace_flags_def mem_testnet_def)





section \<open>The arguments of the testnet of several nodes\<close>

text \<open>
  C37: the stake of validator \<open>i\<close> is the coin of the \<open>i\<close>-th amount of the flag that is a number, and
  a validator beyond these has none: an amount that is no number does not take the default but
  moves the later amounts to earlier validators.
\<close>

theorem stakes_by_position:
  assumes "read_args fl = Ok args" "fl_GetString fl flagValidatorsStakeAmount = Ok s"
  shows "let as = List.map_filter (fl_NewIntFromString fl) (split_on (CHR '','') s) in
    (\<forall>i < length as. \<exists>c. fl_NewCoin fl (fl_DefaultBondDenom fl) (as ! i) = Ok c \<and>
        ia_validatorsStakesAmount args i = Some c) \<and>
    (\<forall>i \<ge> length as. ia_validatorsStakesAmount args i = None)"
  using parse_stakes_eq [OF read_args_stakes [OF assms]] by (simp add: amounts_def Let_def)

definition sample_flags :: flag_set where
  "sample_flags = \<lparr>fl_GetString = \<lambda>k. Ok (if k = flagValidatorsStakeAmount then ''7,x,9'' else []),
     fl_GetInt = \<lambda>k. Ok 3, fl_KeyringBackend = ''b'', fl_ChainID = ''c'', fl_MinGasPrices = ''g'',
     fl_KeyType = ''k'', fl_NewIntFromString = \<lambda>a. if a = ''7'' then Some 7 else if a = ''9'' then Some 9 else None,
     fl_NewCoin = \<lambda>d n. Ok (d, n), fl_DefaultBondDenom = ''pmina''\<rparr>"

theorem stakes_by_position_witness:
  "\<exists>args. read_args sample_flags = Ok args \<and>
     ia_validatorsStakesAmount args 1 = Some (''pmina'', 9) \<and> ia_validatorsStakesAmount args 2 = None"
proof -
  obtain args where r: "read_args sample_flags = Ok args"
    by (simp add: read_args_def sample_flags_def)
  have f: "List.map_filter (fl_NewIntFromString sample_flags) [''7'', ''x'', ''9''] = [7, 9]"
    by (simp add: sample_flags_def map_filter_simps)
  have s: "fl_GetString sample_flags flagValidatorsStakeAmount = Ok ''7,x,9''" by (simp add: sample_flags_def)
  have "split_on (CHR '','') ''7,x,9'' = [''7'', ''x'', ''9'']" by simp
  from stakes_by_position [OF r s, unfolded Let_def this f] r show ?thesis
    by (auto simp: sample_flags_def dest: spec [of _ "1 :: nat"])
qed

text \<open>
  C33: the ports of up to 1317 nodes are valid, and no two services of any nodes share one: the RPC
  port that the flag's default gives, the P2P, proxy and Prometheus ports of the node configuration
  and the gRPC and API ports of app.toml.
\<close>

theorem ports_distinct:
  assumes "i < 1317" "j < 1317"
  shows "(service_port s i = service_port t j \<longleftrightarrow> s = t \<and> i = j) \<and>
    (\<exists>n. service_port s i = Itoa n \<and> 0 < n \<and> n < 65536) \<and>
    (int i < n \<longrightarrow> parse_ports n [] i = Some (service_port RPC i)) \<and>
    nc_P2P_ListenAddress (final_config args peers i c) = ''tcp://0.0.0.0:'' @ service_port P2P i \<and>
    nc_ProxyApp (final_config args peers i c) = ''tcp://127.0.0.1:'' @ service_port Proxy i \<and>
    nc_PrometheusListenAddr (final_config args peers i c) = '':'' @ service_port Prometheus i \<and>
    ac_GRPC_Address (node_app_toml args i toml) = ia_startingIPAddress args @ '':'' @ service_port GRPC i \<and>
    ac_API_Address (node_app_toml args i toml) = ''tcp://localhost:'' @ service_port API i"
proof -
  have "service_port s i = service_port t j \<longleftrightarrow> s = t \<and> i = j"
    using service_port_Itoa assms port_number_inj Itoa_inj by metis
  moreover have "\<exists>n. service_port s i = Itoa n \<and> 0 < n \<and> n < 65536"
    using service_port_Itoa port_number_range assms(1) by metis
  ultimately show ?thesis by (simp add: parse_ports_default final_config_def node_app_toml_def)
qed

theorem ports_distinct_witness:
  "service_port P2P 1 \<noteq> service_port RPC 0 \<and> service_port API 1316 \<noteq> service_port GRPC 1316"
  using ports_distinct [of 1 0 P2P RPC] ports_distinct [of 1316 1316 API GRPC] by simp

section \<open>The files of the testnet\<close>

text \<open>
  What the loop over the nodes leaves after success: one genesis transaction per node at the
  node's own place, the peers' addresses joined by commas, as many identifiers, keys, genesis
  files and balances as nodes, and one genesis account for each balance, in order.
\<close>

lemma nodes_prepared:
  assumes "for_each (init_node env args) [0..<n] (init_setup env args c f) = (Ok (), t)"
    and "n = nat (ia_numValidators args)"
  shows "length (su_nodeIDs t) = n \<and> length (su_valPubKeys t) = n \<and> length (su_genFiles t) = n \<and>
    su_gentxsFiles t =
      map (\<lambda>k. gentx_file (ia_outputDir args) (ia_nodeDirPrefix args) k (su_nodeIDs t ! k)) [0..<n] \<and>
    su_persistentPeers t = join_with (CHR '','') (map (\<lambda>k. node_memo args k (su_nodeIDs t ! k)) [0..<n]) \<and>
    length (su_genBalances t) = n \<and>
    map bl_Address (su_genBalances t) = map ba_Address (su_genAccounts t)"
  using init_nodes_done [OF assms(1) [unfolded assms(2)]] assms(2) by (simp add: nodes_done_def)

text \<open>
  C28: copying the genesis transactions of \<open>n\<close> nodes. When it succeeds, every node's directory holds
  every node's transaction as its own node wrote it (the originals included, which the copying
  could have truncated), and no other file has changed. The node identifiers are distinct and
  contain no slash, and the output directory is a path of proper components.
\<close>

theorem gentxs_everywhere:
  assumes "layout_ok d p" "ids_ok ids" "os_Getwd os = Ok wd" "IsAbs wd" "lawful_files os fs"
    and "copy_gentxs os d p (length ids) (map (\<lambda>k. gentx_file d p k (ids ! k)) [0..<length ids]) f = (Ok (), t)"
  shows "(\<forall>j < length ids. \<forall>k < length ids.
      fs t (gentx_file d p j (ids ! k)) = fs f (gentx_file d p k (ids ! k))) \<and>
    (\<forall>q. (\<forall>j < length ids. \<forall>k < length ids. q \<noteq> gentx_file d p j (ids ! k)) \<longrightarrow> fs t q = fs f q)"
proof -
  note sp = file_store.copy_gentxs_spread [OF file_store.intro [OF assms(5)] assms(1-4,6)]
  show ?thesis
    using spread_at(1) [OF sp] spread_elsewhere [OF sp] by simp
qed

definition two_files :: files where
  "two_files = [''t/v0/config/gentx/gentx-a.json'' \<mapsto> [1], ''t/v1/config/gentx/gentx-b.json'' \<mapsto> [2]]"

lemma two_paths:
  "map (\<lambda>k. gentx_file ''t'' ''v'' k ([''a'', ''b''] ! k)) [0..<length [''a'', ''b'']] =
    [''t/v0/config/gentx/gentx-a.json'', ''t/v1/config/gentx/gentx-b.json'']"
  "gentx_file ''t'' ''v'' 0 ''b'' = ''t/v0/config/gentx/gentx-b.json''"
  "gentx_file ''t'' ''v'' 1 ''b'' = ''t/v1/config/gentx/gentx-b.json''"
  by code_simp+

lemma two_copied:
  "fst (copy_gentxs mem_os ''t'' ''v'' 2
    [''t/v0/config/gentx/gentx-a.json'', ''t/v1/config/gentx/gentx-b.json''] two_files) = Ok ()"
  by code_simp

theorem gentxs_everywhere_witness:
  "\<exists>t. copy_gentxs mem_os ''t'' ''v'' 2
      [''t/v0/config/gentx/gentx-a.json'', ''t/v1/config/gentx/gentx-b.json''] two_files = (Ok (), t) \<and>
    t ''t/v0/config/gentx/gentx-b.json'' = Some [2]"
proof -
  let ?run = "copy_gentxs mem_os ''t'' ''v'' (length [''a'', ''b''])
    (map (\<lambda>k. gentx_file ''t'' ''v'' k ([''a'', ''b''] ! k)) [0..<length [''a'', ''b'']]) two_files"
  obtain t where r: "?run = (Ok (), t)"
    using two_copied unfolding two_paths by (metis length_Cons list.size(3) numeral_2_eq_2 prod.collapse)
  have l: "layout_ok ''t'' ''v''" "ids_ok [''a'', ''b'']" by code_simp+
  have w: "os_Getwd mem_os = Ok ''/w''" "IsAbs ''/w''" by (simp_all add: mem_os_def IsAbs_def)
  from gentxs_everywhere [OF l w mem_os_lawful r, THEN conjunct1, rule_format, of 0 1]
  have "t (gentx_file ''t'' ''v'' 0 ([''a'', ''b''] ! 1)) = two_files (gentx_file ''t'' ''v'' 1 ([''a'', ''b''] ! 1))"
    by simp
  then have "t ''t/v0/config/gentx/gentx-b.json'' = Some [2]"
    using two_paths by (simp add: two_files_def)
  with r show ?thesis unfolding two_paths by (auto simp: numeral_2_eq_2)
qed

text \<open>
  C30: after the command has succeeded, the genesis files of all nodes hold the same chain identifier,
  the same application state and the same genesis time.
\<close>

theorem same_genesis_everywhere:
  assumes "lawful_genesis env gen path" "initTestnetFiles env c args f = (Ok (), g)"
  shows "\<exists>a. (0 < ia_numValidators args \<longrightarrow> a \<noteq> None) \<and>
    (\<forall>i < nat (ia_numValidators args).
      gen g (path (node_dir (ia_outputDir args) (ia_nodeDirPrefix args) i)) =
        Some (ia_chainID (choose_chain_id env args), a, te_Now env))"
  by (rule genesis_files.initTestnetFiles_genesis [OF genesis_files.intro [OF assms(1)] assms(2)])

lemma two_nodes: "ia_numValidators sample_args = 2"
  by (simp add: sample_args_def)

theorem same_genesis_everywhere_witness:
  "\<exists>g. initTestnetFiles ready_env sample_config sample_args empty_world = (Ok (), g) \<and>
     w_docs g (genesis_path (node_dir ''t'' ''v'' 0)) = w_docs g (genesis_path (node_dir ''t'' ''v'' 1)) \<and>
     w_docs g (genesis_path (node_dir ''t'' ''v'' 1)) \<noteq> None"
proof -
  obtain g where r: "initTestnetFiles ready_env sample_config sample_args empty_world = (Ok (), g)"
    using initTestnetFiles_returns [OF ready_succeeds] two_nodes by (metis zero_le_numeral)
  from same_genesis_everywhere [OF ready_genesis r] obtain a where
    "\<forall>i < 2. w_docs g (genesis_path (node_dir ''t'' ''v'' i)) =
        Some (ia_chainID (choose_chain_id ready_env sample_args), a, te_Now ready_env)"
    using two_nodes by (auto simp: sample_args_def)
  with r show ?thesis by simp
qed

text \<open>
  C29: after the whole command has succeeded, the genesis transaction of every node stands, with the
  same bytes, in every node's directory. The identifiers in the file names are those that the
  initialisation of the nodes returned; they are distinct and contain no slash, and the helpers
  that collect the genesis files write no other file than their own.
\<close>

theorem every_node_every_gentx:
  assumes "initTestnetFiles env c args f = (Ok (), g)"
    and "layout_ok (ia_outputDir args) (ia_nodeDirPrefix args)"
    and "lawful_files (te_os env) fs" "lawful_collect env fs" "fresh_ids env args"
    and "os_Getwd (te_os env) = Ok wd" "IsAbs wd"
  shows "\<exists>ids. length ids = nat (ia_numValidators args) \<and> distinct ids \<and>
    (\<forall>k < length ids. id_from env args k (ids ! k)) \<and>
    (\<forall>j < length ids. \<forall>k < length ids.
       fs g (gentx_file (ia_outputDir args) (ia_nodeDirPrefix args) j (ids ! k)) =
         fs g (gentx_file (ia_outputDir args) (ia_nodeDirPrefix args) k (ids ! k)) \<and>
       (1 < length ids \<longrightarrow>
         fs g (gentx_file (ia_outputDir args) (ia_nodeDirPrefix args) j (ids ! k)) \<noteq> None))"
  by (rule gentx_files.initTestnetFiles_gentxs [OF gentx_files_intro [OF assms(3,4)] assms(1,2,6,7,5)])

theorem every_node_every_gentx_witness:
  "\<exists>g. initTestnetFiles ready_env sample_config sample_args empty_world = (Ok (), g) \<and>
     stored g (gentx_file ''t'' ''v'' 0 ''id-v1'') = stored g (gentx_file ''t'' ''v'' 1 ''id-v1'')"
proof -
  obtain g where r: "initTestnetFiles ready_env sample_config sample_args empty_world = (Ok (), g)"
    using initTestnetFiles_returns [OF ready_succeeds] two_nodes by (metis zero_le_numeral)
  have "layout_ok ''t'' ''v''" by code_simp
  then have lay: "layout_ok (ia_outputDir sample_args) (ia_nodeDirPrefix sample_args)"
    by (simp add: sample_args_def)
  have os: "lawful_files (te_os ready_env) (\<lambda>w p. Some (stored w p))"
    by (simp add: ready_env_def ready_os_lawful)
  have wd: "os_Getwd (te_os ready_env) = Ok ''/w''" "IsAbs ''/w''"
    by (simp_all add: ready_env_def ready_os_def world_os_def mem_os_def IsAbs_def)
  let ?path = "gentx_file (ia_outputDir sample_args) (ia_nodeDirPrefix sample_args)"
  from every_node_every_gentx [OF r lay os ready_collect ready_ids wd] obtain ids where
    l: "length ids = nat (ia_numValidators sample_args)"
    and from_: "\<forall>k < length ids. id_from ready_env sample_args k (ids ! k)"
    and same: "\<forall>j < length ids. \<forall>k < length ids.
      Some (stored g (?path j (ids ! k))) = Some (stored g (?path k (ids ! k))) \<and>
      (1 < length ids \<longrightarrow> Some (stored g (?path j (ids ! k))) \<noteq> None)"
    by (elim exE conjE) (rule that)
  have id: "id_from ready_env sample_args 1 (ids ! 1)"
    and same: "stored g (gentx_file ''t'' ''v'' 0 (ids ! 1)) = stored g (gentx_file ''t'' ''v'' 1 (ids ! 1))"
    using from_ [rule_format, of 1] same [rule_format, of 0 1] l
    by (simp_all add: two_nodes, simp add: sample_args_def)
  have "nodeDirName ''v'' 1 = ''v1''" by code_simp
  then have "ids ! 1 = ''id-v1''"
    using id by (auto simp: id_from_def ready_env_def sample_env_def sample_args_def)
  with r same show ?thesis by simp
qed

text \<open>
  C8: what the genesis transactions say. After the whole command has succeeded, the file of node
  \<open>k\<close>'s transaction in node \<open>j\<close>'s directory can be read, for every \<open>j\<close> and \<open>k\<close>, as one that creates a
  validator with the consensus key that was generated together with the identifier of node \<open>k\<close>, the
  stake of position \<open>k\<close>, the operator account made in the name of node \<open>k\<close>, and full commission; its
  memo is the address under which peers reach node \<open>k\<close>, and it is signed for the chain identifier
  of the command. The helpers read back what they are given, and no call but \<open>writeFile\<close> writes into
  a genesis transaction.
\<close>

theorem gentxs_declare:
  assumes "initTestnetFiles env c args f = (Ok (), g)"
    and "layout_ok (ia_outputDir args) (ia_nodeDirPrefix args)"
    and "lawful_files (te_os env) fs" "lawful_collect env fs" "lawful_nodes env args fs" "lawful_txs env v"
    and "fresh_ids env args" "os_Getwd (te_os env) = Ok wd" "IsAbs wd"
  shows "\<exists>ids pks. length ids = nat (ia_numValidators args) \<and>
    (\<forall>j < length ids. \<forall>k < length ids. keys_from env args k (ids ! k) (pks ! k) \<and>
       (\<exists>bz addr stake. fs g (gentx_file (ia_outputDir args) (ia_nodeDirPrefix args) j (ids ! k)) = Some bz \<and>
          account_from env args k addr \<and> stake_of env args k = Ok stake \<and>
          tv_read v bz = Some
            \<lparr>de_msg = \<lparr>cv_ValidatorAddress = te_ValAddressString env addr, cv_PubKey = pks ! k,
               cv_Value = stake, cv_Moniker = nodeDirName (ia_nodeDirPrefix args) k,
               cv_Rates = \<lparr>cr_Rate = dec_of 1 0, cr_MaxRate = dec_of 1 0, cr_MaxChangeRate = dec_of 1 0\<rparr>,
               cv_MinSelfDelegation = 1\<rparr>,
             de_memo = node_memo args k (ids ! k),
             de_chain = ia_chainID (choose_chain_id env args)\<rparr>))"
proof -
  note a = gentx_authors_intro [OF assms(3-6,2)]
  have "fresh_ids env (choose_chain_id env args)" using assms(7) by (simp add: chosen_ids)
  from gentx_authors.initTestnetFiles_declares [OF a assms(1) refl assms(8,9) this]
  show ?thesis by (simp add: declares_def node_content_def chosen_content)
qed

theorem gentxs_declare_witness:
  "\<exists>g d. initTestnetFiles ready_env sample_config sample_args empty_world = (Ok (), g) \<and>
     read_tx (stored g (gentx_file ''t'' ''v'' 0 ''id-v1'')) = Some d \<and>
     cv_PubKey (de_msg d) = [1] \<and> cv_Value (de_msg d) = (''pmina'', 100000000) \<and>
     cv_ValidatorAddress (de_msg d) = ''v1'' \<and> cv_Moniker (de_msg d) = ''v1'' \<and>
     de_memo d = node_memo sample_args 1 ''id-v1'' \<and> de_chain d = ''c''"
proof -
  obtain g where r: "initTestnetFiles ready_env sample_config sample_args empty_world = (Ok (), g)"
    using initTestnetFiles_returns [OF ready_succeeds] two_nodes by (metis zero_le_numeral)
  have os: "lawful_files (te_os ready_env) (\<lambda>w p. Some (stored w p))"
    by (simp add: ready_env_def ready_os_lawful)
  have wd: "os_Getwd (te_os ready_env) = Ok ''/w''" "IsAbs ''/w''"
    by (simp_all add: ready_env_def ready_os_def world_os_def mem_os_def IsAbs_def)
  let ?path = "gentx_file (ia_outputDir sample_args) (ia_nodeDirPrefix sample_args)"
  let ?says = "\<lambda>k nodeID pk addr stake.
    \<lparr>de_msg = \<lparr>cv_ValidatorAddress = te_ValAddressString ready_env addr, cv_PubKey = pk,
       cv_Value = stake, cv_Moniker = nodeDirName (ia_nodeDirPrefix sample_args) k,
       cv_Rates = \<lparr>cr_Rate = dec_of 1 0, cr_MaxRate = dec_of 1 0, cr_MaxChangeRate = dec_of 1 0\<rparr>,
       cv_MinSelfDelegation = 1\<rparr>,
     de_memo = node_memo sample_args k nodeID,
     de_chain = ia_chainID (choose_chain_id ready_env sample_args)\<rparr>"
  from gentxs_declare [OF r sample_layout os ready_collect ready_writers ready_txs ready_ids wd] obtain ids pks where
    l: "length ids = nat (ia_numValidators sample_args)" and says: "\<forall>j < length ids. \<forall>k < length ids.
       keys_from ready_env sample_args k (ids ! k) (pks ! k) \<and>
       (\<exists>bz addr stake. Some (stored g (?path j (ids ! k))) = Some bz \<and>
          account_from ready_env sample_args k addr \<and> stake_of ready_env sample_args k = Ok stake \<and>
          tv_read sample_views bz = Some (?says k (ids ! k) (pks ! k) addr stake))"
    by (elim exE conjE) (rule that)
  have n: "0 < length ids" "1 < length ids" using l by (simp_all add: two_nodes)
  obtain bz addr stake where key: "keys_from ready_env sample_args 1 (ids ! 1) (pks ! 1)"
    and acc: "account_from ready_env sample_args 1 addr" and stake: "stake_of ready_env sample_args 1 = Ok stake"
    and bz: "Some (stored g (?path 0 (ids ! 1))) = Some bz"
    and at: "tv_read sample_views bz = Some (?says 1 (ids ! 1) (pks ! 1) addr stake)"
    using says [rule_format, OF n] by (elim exE conjE) (rule that)
  have name: "nodeDirName ''v'' 1 = ''v1''" by code_simp
  then have "ids ! 1 = ''id-v1''" "pks ! 1 = [1]" "addr = bytes_of ''v1''" "stake = (''pmina'', 100000000)"
    using key acc stake
    by (auto simp: keys_from_def account_from_def stake_of_def ready_env_def sample_env_def sample_args_def)
  with r at bz name show ?thesis
    by (simp add: sample_args_def ready_env_def sample_env_def choose_chain_id_def sample_views_def)
qed



text \<open>
  C18: the nodes find each other. When the command has succeeded, the config.toml of every node, for
  an output directory of proper components, has the node's own root, moniker and ports, and the
  same list of peers: for each node \<open>k\<close>, the identifier that its initialisation returned at the host
  and the port on which node \<open>k\<close> listens. No node's file is overwritten by another's, although
  the code changes one configuration object in place.
\<close>

theorem nodes_configured:
  assumes "initTestnetFiles env c args f = (Ok (), g)"
    and "layout_ok (ia_outputDir args) (ia_nodeDirPrefix args)" "lawful_configs env cfg"
  shows "\<exists>ids. length ids = nat (ia_numValidators args) \<and>
    (\<forall>k < length ids. id_from env args k (ids ! k)) \<and>
    (\<forall>i < length ids. \<exists>c. cfg g (config_path args i) = Some c \<and>
      nc_RootDir c = node_dir (ia_outputDir args) (ia_nodeDirPrefix args) i \<and>
      nc_Moniker c = nodeDirName (ia_nodeDirPrefix args) i \<and>
      nc_P2P_ListenAddress c = ''tcp://0.0.0.0:'' @ service_port P2P i \<and>
      nc_RPC_ListenAddress c = ''tcp://127.0.0.1:'' @ port_of args i \<and>
      nc_ProxyApp c = ''tcp://127.0.0.1:'' @ service_port Proxy i \<and>
      nc_PrometheusListenAddr c = '':'' @ service_port Prometheus i \<and>
      nc_P2P_PersistentPeers c = join_with (CHR '','') (map (\<lambda>k.
        ids ! k @ ''@'' @ ia_startingIPAddress args @ '':'' @ service_port P2P k) [0..<length ids]))"
proof -
  have m: "node_memo args k a = a @ ''@'' @ ia_startingIPAddress args @ '':'' @ service_port P2P k" for k a
    by (simp add: node_memo_def)
  from config_files.initTestnetFiles_configs [OF config_files.intro [OF assms(3)] assms(1,2)]
  show ?thesis unfolding runs_as_def m by blast
qed

theorem nodes_configured_witness:
  "\<exists>g c d. initTestnetFiles ready_env sample_config sample_args empty_world = (Ok (), g) \<and>
     w_configs g (config_path sample_args 0) = Some c \<and> w_configs g (config_path sample_args 1) = Some d \<and>
     nc_Moniker d = ''v1'' \<and> nc_P2P_PersistentPeers c = nc_P2P_PersistentPeers d"
proof -
  obtain g where r: "initTestnetFiles ready_env sample_config sample_args empty_world = (Ok (), g)"
    using initTestnetFiles_returns [OF ready_succeeds] two_nodes by (metis zero_le_numeral)
  have "layout_ok ''t'' ''v''" by code_simp
  then have lay: "layout_ok (ia_outputDir sample_args) (ia_nodeDirPrefix sample_args)"
    by (simp add: sample_args_def)
  from nodes_configured [OF r lay ready_configs] obtain ids where l: "length ids = 2"
    and cs: "\<forall>i < 2. \<exists>c. w_configs g (config_path sample_args i) = Some c \<and>
      nc_Moniker c = nodeDirName (ia_nodeDirPrefix sample_args) i \<and>
      nc_P2P_PersistentPeers c = join_with (CHR '','') (map (\<lambda>k.
        ids ! k @ ''@'' @ ia_startingIPAddress sample_args @ '':'' @ service_port P2P k) [0..<length ids])"
    unfolding two_nodes by force
  have "nodeDirName ''v'' 1 = ''v1''" by code_simp
  then have "nodeDirName (ia_nodeDirPrefix sample_args) 1 = ''v1''" by (simp add: sample_args_def)
  then show ?thesis using r cs [rule_format, of 0] cs [rule_format, of 1] by auto
qed



text \<open>
  C40: \<open>isSubDir\<close> on paths of proper components answers whether the components of the directory are a
  prefix of the file's and the next component, if any, does not begin with two dots: a file of
  such a name is taken to be outside its own directory.
\<close>

theorem isSubDir_answer:
  assumes "list_all proper_name xs" "xs \<noteq> []" "list_all proper_name ds" "ds \<noteq> []" "IsAbs wd"
  shows "isSubDir (Ok wd) (path_of r xs) (path_of r ds) =
    Ok (\<exists>rest. xs = ds @ rest \<and> (case rest of w # _ \<Rightarrow> take 2 w \<noteq> ''..'' | [] \<Rightarrow> True))"
  unfolding isSubDir_proper [OF assms]
  by (simp add: has_prefix_def numeral_2_eq_2 split: list.split)

theorem isSubDir_answer_witness:
  "isSubDir (Ok ''/w'') ''a/b'' ''a'' = Ok True \<and> isSubDir (Ok ''/w'') ''a/..b'' ''a'' = Ok False"
proof -
  have p: "list_all proper_name [''a'', ''b'']" "list_all proper_name [''a'', ''..b'']" "list_all proper_name [''a'']"
    by code_simp+
  have w: "IsAbs ''/w''" by (simp add: IsAbs_def)
  show ?thesis
    using isSubDir_answer [OF p(1) _ p(3) _ w, of False] isSubDir_answer [OF p(2) _ p(3) _ w, of False]
    by (simp add: path_of_def)
qed

end
