(* ===== verification/Spec2Isabelle.thy ===== *)
theory Spec2Isabelle
  imports Wire_Properties Pulsar_Properties Export_Properties App_Properties Testnet_Properties
begin

text \<open>
  A verification development for pulsar-chain, a Cosmos SDK application in Go. The repository has one
  module of its own, x/pulsar, with a single set of (empty) parameters under the control of an
  authority; the wire codec, services and gateway generated for it; the application that combines the
  module with those of the SDK and of ibc-go (app/); and the daemon with its commands, two of which
  build test networks (cmd/pulsard).

  \<^bold>\<open>How the code is modelled.\<close> A Go call is an \<open>outcome\<close>: a value, an error, or a panic; a call that
  changes state returns the outcome with the state it leaves (Go_Prelude). Early returns are
  \<open>chain\<close> and \<open>chain_st\<close>. Positions and lengths are mathematical integers that pass through
  \<open>int64\<close> where a sum can leave the machine's range; protobuf values are 64-bit words. Code outside
  the repository (SDK keepers, collections, JSON, the key ring, ibc-go) is an argument: a
  function, or a record of functions over a state type variable. What a theorem needs of it is a
  hypothesis with a name (\<open>lawful_...\<close>), and each such theorem has a witness on concrete keepers.

  \<^bold>\<open>Theories and the code they model.\<close>

  Go_Prelude, Go_Strings: outcomes, machine integers, slices; strings.Split, strconv.Itoa and the part
  of path/filepath (on Unix) that the commands use.

  Wire_Varint, Wire_Skip, Wire_Unmarshal, Wire_Marshal, Wire_Messages: the generated code in
  x/pulsar/types/*.pb.go. The varint loops, the skipping of unknown fields with group depth, one
  decoding loop over a per-message switch (\<open>..._fields\<close>), encoding from the end of a buffer, and
  the seven messages. The loops over a buffer are \<open>function\<close>s with the rest of the buffer, or the
  shift, as measure: no fuel. Wire_Methods: Reset, XXX_Size and XXX_Unmarshal, which the protobuf
  library calls, and what of a message survives that path. Wire_Grammar: the wire format as inductive
  relations (\<open>wire_item\<close> with nested groups, \<open>wire_fields\<close>), which the skipping loop and the decoding
  loop accept exactly. Wire_Language: the language of each message's table of fields.

  Pulsar_Keeper, Pulsar_Grpc, Pulsar_Module: x/pulsar/keeper, the services, clients and HTTP gateway of
  tx.pb.go, query.pb.go and query.pb.gw.go, and x/pulsar/module. \<open>module_step\<close> is the step relation
  of the module in a running chain; the locale \<open>pulsar_module\<close> states what its parameter store
  promises and is interpreted on a key-value store. Pulsar_Register: the register that only an
  authority writes, the replies of the module's entry points, and the simulation between the two.

  Sdk_Calls, App_Export, App_Export_Facts: app/export.go. The shapes of keeper calls and iterators,
  the export with its eleven parts, the locales \<open>item_store\<close> and \<open>zero_height\<close>, and keepers over an
  explicit state on which they are interpreted.

  App_Config, App_Core: app/app_config.go, app/config.go, app/genesis_account.go, app/app.go, app/ibc.go
  and docs/docs.go: orders, accounts and lookups; the registration of the IBC modules on a state
  of stores, subspaces, keepers, routes and modules; the order and failures of \<open>New\<close>. App_Assembly: the
  struct \<open>App\<close>, the configuration of the container, what each step of \<open>New\<close> puts into the struct, and
  its getters.

  Commands: cmd/pulsard/main.go and commands.go, root.go and config.go of cmd/pulsard/cmd; \<open>appExport\<close>
  is composed of the application's \<open>New\<close> and the export above.

  Testnet_InPlace: testnet.go. \<open>handleErr\<close> ends the process, so the error of these outcomes is an
  exit status. Testnet_Replace: the abstract step of that command on the staking indices, the balances
  and the supply, the locales \<open>staking_indices\<close> and \<open>testnet_chain\<close>, and the refinement.
  Testnet_Files, Testnet_MultiNode, Testnet_Gentxs, Testnet_Declarations, Testnet_Genesis, Testnet_Liveness:
  testnet_multi_node.go, its flags, the file helpers over an operating system that is an argument, the
  loops over the nodes as \<open>for_each\<close> over the indices, what is written for each node (transactions,
  supply, config.toml), and the success of the command. The locales
  \<open>staking_store\<close>, \<open>file_store\<close>, \<open>genesis_files\<close>, \<open>config_files\<close>, \<open>gentx_files\<close>
  (which extends \<open>file_store\<close>) and \<open>gentx_authors\<close> (which extends \<open>gentx_files\<close>) state what
  the staking store, the files and the helpers promise; Testnet_Samples interprets them and holds
  the other instances of the witnesses.

  \<^bold>\<open>What is shown\<close> (the theorems with a claim number are in the theories named ..._Properties).

  Wire_Properties: the decoders never panic; skipping succeeds with a length exactly where an item of
  the wire grammar has that length, and is safe everywhere; each decoder accepts exactly the byte
  sequences of the grammar that its table can read, and gives the last value of each field; the
  decoder of an update refines an abstract decoder over lists of fields; every message survives the
  path of the protobuf library, whatever the receiver held.

  Pulsar_Properties: only the authority's request changes the parameters, and only bytes whose last
  authority field is the authority's, when the request arrives as raw bytes; after genesis a query is
  always answered; every history, with its replies, is one of the authorised register; a remote call
  equals the local one; genesis round trips; the gateway replies what the query replies.

  Export_Properties: a zero-height export resets exactly the heights, jails exactly the validators off
  the allow list, and donates exactly the outstanding rewards; errors change nothing; the heights.

  App_Properties: orders and accounts of the configuration, the IBC assembly and its agreement with
  the client side, the application that \<open>New\<close> returns, the one authority that the pulsar keeper and
  the IBC keepers share, the export command.

  Testnet_Properties: the testnet in place implements one abstract replacement of the validators with
  the funding; the default of the accounts flag makes the command fail; the genesis supply is that of
  the balances; every node's configuration has its own ports and all peers; ports are distinct for up
  to 1317 nodes (the API port counts down from 1317); every node gets every genesis transaction,
  unchanged, in the copying alone and at the end of the whole command, and the same genesis; each of
  those transactions creates the validator of its node, with its key, stake and peer address; both
  commands succeed when their calls do.

  \<^bold>\<open>Not modelled.\<close> Gzipped descriptors, registrations and the String, XXX_Merge and
  XXX_DiscardUnknown methods of the generated code (calls of the protobuf library), and the interfaces of
  expected_keepers.go: no behaviour of the program. Cobra objects other than the tree of names; the
  SDK's commands. The injection itself (\<open>depinject\<close>) is an argument that returns a value for each target
  or fails. Concurrency: the code starts none of its own except the wait that closes the gateway's connection, which is recorded as the
  connection's fate. Contexts are modelled by the block height that the code changes. Logging and
  printed messages other than the text of an exit are left out.
\<close>

end
